(* ===== verification/Prelude.thy ===== *)
theory Prelude
  imports Main "HOL-Library.AList" "HOL-Library.Sublist" "HOL-Library.Char_ord"
    "HOL-Library.List_Lexorder" "HOL-Library.Multiset"
begin

text \<open>
  What every component shares: the Python values the sources compute with.

  \<^item> Text. A Python \<open>str\<close> is a list of code points; the model's alphabet is the first 256 of them
    (\<open>char\<close>, read as Latin-1), and the character classes of the standard library (\<open>str.lower\<close>, the
    regular-expression classes \<open>\w\<close> and \<open>\s\<close>) are written out for that range. The two longer
    characters that fixed messages contain (an em dash and an arrow) are spelled by their UTF-8 bytes.
  \<^item> Exceptions. A raise is an \<open>Inl\<close> of the sum type \<open>py_exn + 'a\<close>; \<open>try_bind\<close> sequences.
  \<^item> Dictionaries. Python dictionaries keep insertion order and overwrite in place; the model is an
    association list with \<open>AList.update\<close>. The locale \<open>py_dict\<close> states the interface and proves once
    what a loop of the shape \<open>for x in xs: d[key(x)] = val(x)\<close> leaves behind; its interpretation
    \<open>od\<close> serves the task reducer, the effective diffs, the name table and the synthesis plan.
\<close>

named_theorems dict_simps "facts about dictionaries built by loops"
named_theorems text_simps "facts about strings"

section \<open>Exceptions as values\<close>

datatype py_exn =
    KeyError string
  | ValueError string
  | RuntimeError string
  | ZeroDivisionError string
  | UnsafeDiffPathError string
  | UnpublishablePathError string
  | SandboxTimeoutError string
  | ForeignError string string \<comment> \<open>raised by code outside the repository: its class name and message\<close>

type_synonym 'a result = "py_exn + 'a"

definition try_bind :: "'e + 'a \<Rightarrow> ('a \<Rightarrow> 'e + 'b) \<Rightarrow> 'e + 'b" where
  "try_bind r f = (case r of Inl e \<Rightarrow> Inl e | Inr x \<Rightarrow> f x)"

lemma try_bind_simps [simp]:
  "try_bind (Inl e) f = Inl e"
  "try_bind (Inr x) f = f x"
  by (simp_all add: try_bind_def)

lemma try_bind_eq_Inr [simp]:
  "try_bind r f = Inr y \<longleftrightarrow> (\<exists>x. r = Inr x \<and> f x = Inr y)"
  by (cases r) auto

lemma try_bind_eq_Inl:
  "try_bind r f = Inl e \<longleftrightarrow> r = Inl e \<or> (\<exists>x. r = Inr x \<and> f x = Inl e)"
  by (cases r) auto

text \<open>\<open>d["key"]\<close> on a dictionary whose key may be missing.\<close>

definition need :: "string \<Rightarrow> 'a option \<Rightarrow> 'a result" where
  "need k v = (case v of None \<Rightarrow> Inl (KeyError k) | Some x \<Rightarrow> Inr x)"

lemma need_simps [simp]:
  "need k None = Inl (KeyError k)"
  "need k (Some x) = Inr x"
  "need k v = Inr y \<longleftrightarrow> v = Some y"
  by (simp_all add: need_def split: option.splits)

text \<open>\<open>[f(x) for x in xs]\<close> where \<open>f\<close> may raise: the first exception wins.\<close>

fun try_map :: "('a \<Rightarrow> 'e + 'b) \<Rightarrow> 'a list \<Rightarrow> 'e + 'b list" where
  "try_map f [] = Inr []"
| "try_map f (x # xs) = try_bind (f x) (\<lambda>y. try_bind (try_map f xs) (\<lambda>ys. Inr (y # ys)))"

lemma try_map_Inr:
  "try_map f xs = Inr ys \<longleftrightarrow> list_all2 (\<lambda>x y. f x = Inr y) xs ys"
  by (induction xs arbitrary: ys) (auto simp: list_all2_Cons1)

lemma try_map_Inl:
  "try_map f xs = Inl e \<longleftrightarrow>
     (\<exists>us x vs. xs = us @ x # vs \<and> (\<forall>u \<in> set us. \<not> isl (f u)) \<and> f x = Inl e)"
proof (induction xs)
  case Nil
  then show ?case by simp
next
  case (Cons a xs)
  have split: "(\<exists>us x vs. a # xs = us @ x # vs \<and> (\<forall>u \<in> set us. \<not> isl (f u)) \<and> f x = Inl e) \<longleftrightarrow>
      f a = Inl e \<or> \<not> isl (f a) \<and> (\<exists>us x vs. xs = us @ x # vs \<and> (\<forall>u \<in> set us. \<not> isl (f u)) \<and> f x = Inl e)"
    (is "?L \<longleftrightarrow> ?R")
  proof
    assume ?L
    then obtain us x vs where "a # xs = us @ x # vs" "\<forall>u \<in> set us. \<not> isl (f u)" "f x = Inl e"
      by blast
    then show ?R by (cases us) auto
  next
    assume ?R
    then show ?L
    proof
      assume "f a = Inl e"
      then show ?L by (intro exI [of _ "[]"]) auto
    next
      assume "\<not> isl (f a) \<and> (\<exists>us x vs. xs = us @ x # vs \<and> (\<forall>u \<in> set us. \<not> isl (f u)) \<and> f x = Inl e)"
      then obtain us x vs where "\<not> isl (f a)" "xs = us @ x # vs" "\<forall>u \<in> set us. \<not> isl (f u)" "f x = Inl e"
        by blast
      then show ?L by (intro exI [of _ "a # us"]) auto
    qed
  qed
  show ?case
    unfolding split Cons.IH [symmetric] by (cases "f a") (auto simp: try_bind_eq_Inl)
qed

lemma try_map_Inr_mem: "try_map f xs = Inr ys \<Longrightarrow> x \<in> set xs \<Longrightarrow> \<exists>y. f x = Inr y"
  by (induction xs arbitrary: ys) auto

lemma try_map_raises: "x \<in> set xs \<Longrightarrow> f x = Inl e \<Longrightarrow> \<exists>e'. try_map f xs = Inl e'"
  by (cases "try_map f xs") (auto dest: try_map_Inr_mem)

section \<open>Text\<close>

abbreviation newline :: string where
  "newline \<equiv> [CHR 0x0A]"

definition em_dash :: string where
  "em_dash = [CHR 0xE2, CHR 0x80, CHR 0x94]"

definition right_arrow :: string where
  "right_arrow = [CHR 0xE2, CHR 0x86, CHR 0x92]"

definition ordc :: "char \<Rightarrow> nat" where
  "ordc c = of_char c"

definition is_upper :: "char \<Rightarrow> bool" where
  "is_upper c \<longleftrightarrow> 65 \<le> ordc c \<and> ordc c \<le> 90"

definition is_lower :: "char \<Rightarrow> bool" where
  "is_lower c \<longleftrightarrow> 97 \<le> ordc c \<and> ordc c \<le> 122"

definition is_digit :: "char \<Rightarrow> bool" where
  "is_digit c \<longleftrightarrow> 48 \<le> ordc c \<and> ordc c \<le> 57"

text \<open>The explicit class \<open>[A-Za-z0-9]\<close>.\<close>

definition is_alnum :: "char \<Rightarrow> bool" where
  "is_alnum c \<longleftrightarrow> is_upper c \<or> is_lower c \<or> is_digit c"

text \<open>The class \<open>\w\<close>: on \<open>str\<close> patterns it also takes letters and numbers beyond ASCII.\<close>

definition is_word :: "char \<Rightarrow> bool" where
  "is_word c \<longleftrightarrow> is_alnum c \<or> c = CHR ''_'' \<or>
     ordc c \<in> {0xAA, 0xB2, 0xB3, 0xB5, 0xB9, 0xBA, 0xBC, 0xBD, 0xBE} \<or>
     (0xC0 \<le> ordc c \<and> ordc c \<noteq> 0xD7 \<and> ordc c \<noteq> 0xF7)"

text \<open>The class \<open>\s\<close>.\<close>

definition is_space :: "char \<Rightarrow> bool" where
  "is_space c \<longleftrightarrow> (9 \<le> ordc c \<and> ordc c \<le> 13) \<or> (0x1C \<le> ordc c \<and> ordc c \<le> 0x20) \<or>
     ordc c = 0x85 \<or> ordc c = 0xA0"

definition lower_char :: "char \<Rightarrow> char" where
  "lower_char c =
     (if is_upper c \<or> (0xC0 \<le> ordc c \<and> ordc c \<le> 0xDE \<and> ordc c \<noteq> 0xD7)
      then char_of (ordc c + 32) else c)"

definition py_lower :: "string \<Rightarrow> string" where
  "py_lower s = map lower_char s"

fun str_join :: "string \<Rightarrow> string list \<Rightarrow> string" where
  "str_join sep [] = ''''"
| "str_join sep [s] = s"
| "str_join sep (s # t # ss) = s @ sep @ str_join sep (t # ss)"

text \<open>\<open>s.split(c)\<close> for a one-character separator: never the empty list.\<close>

fun py_split :: "char \<Rightarrow> string \<Rightarrow> string list" where
  "py_split c [] = [[]]"
| "py_split c (x # xs) =
     (if x = c then [] # py_split c xs
      else (case py_split c xs of [] \<Rightarrow> [[x]] | w # ws \<Rightarrow> (x # w) # ws))"

lemma py_split_ne [simp]: "py_split c s \<noteq> []"
  by (cases s) (auto split: list.splits)

lemma py_split_eq_single: "c \<notin> set s \<Longrightarrow> py_split c s = [s]"
  by (induction s) auto

lemma py_split_append:
  "c \<notin> set s \<Longrightarrow> py_split c (s @ c # t) = s # py_split c t"
  by (induction s) auto

lemma join_split [text_simps]: "str_join [c] (py_split c s) = s"
proof (induction s)
  case Nil
  then show ?case by simp
next
  case (Cons x xs)
  obtain w ws where w: "py_split c xs = w # ws"
    by (cases "py_split c xs") auto
  with Cons show ?case
    by (cases ws) auto
qed

lemma split_no_sep: "w \<in> set (py_split c s) \<Longrightarrow> c \<notin> set w"
proof (induction s arbitrary: w)
  case Nil
  then show ?case by simp
next
  case (Cons x xs)
  obtain v vs where v: "py_split c xs = v # vs"
    by (cases "py_split c xs") auto
  with Cons show ?case by (auto split: if_splits)
qed

text \<open>\<open>s.strip(c)\<close>.\<close>

definition py_strip :: "char \<Rightarrow> string \<Rightarrow> string" where
  "py_strip c s = rev (dropWhile (\<lambda>x. x = c) (rev (dropWhile (\<lambda>x. x = c) s)))"

subsection \<open>Decimal numerals\<close>

definition digit_char :: "nat \<Rightarrow> char" where
  "digit_char d = char_of (48 + d)"

fun str_nat :: "nat \<Rightarrow> string" where
  "str_nat n = (if n < 10 then [digit_char n] else str_nat (n div 10) @ [digit_char (n mod 10)])"

declare str_nat.simps [simp del]

definition str_int :: "int \<Rightarrow> string" where
  "str_int i = (if i < 0 then ''-'' @ str_nat (nat (- i)) else str_nat (nat i))"

definition value_of_digits :: "string \<Rightarrow> nat" where
  "value_of_digits s = foldl (\<lambda>a c. 10 * a + (ordc c - 48)) 0 s"

lemma ordc_digit_char: "d < 10 \<Longrightarrow> ordc (digit_char d) = 48 + d"
  by (simp add: ordc_def digit_char_def)

lemma value_of_str_nat: "value_of_digits (str_nat n) = n"
proof (induction n rule: str_nat.induct)
  case (1 n)
  show ?case
  proof (cases "n < 10")
    case True
    then show ?thesis
      by (subst str_nat.simps) (simp add: value_of_digits_def ordc_digit_char)
  next
    case False
    with 1 have "value_of_digits (str_nat (n div 10)) = n div 10" by simp
    with False show ?thesis
      by (subst str_nat.simps) (simp add: value_of_digits_def ordc_digit_char)
  qed
qed

lemma str_nat_inj [simp]: "str_nat m = str_nat n \<longleftrightarrow> m = n"
  by (metis value_of_str_nat)

lemma str_nat_ne [simp]: "str_nat n \<noteq> []"
  by (subst str_nat.simps) simp

subsection \<open>repr of a string\<close>

definition hex_char :: "nat \<Rightarrow> char" where
  "hex_char d = (if d < 10 then char_of (48 + d) else char_of (87 + d))"

definition printable :: "char \<Rightarrow> bool" where
  "printable c \<longleftrightarrow> 32 \<le> ordc c \<and> ordc c \<noteq> 127 \<and> \<not> (128 \<le> ordc c \<and> ordc c \<le> 160) \<and> ordc c \<noteq> 0xAD"

definition repr_char :: "char \<Rightarrow> char \<Rightarrow> string" where
  "repr_char q c =
     (if c = q \<or> c = CHR 0x5C then [CHR 0x5C, c]
      else if c = CHR 0x0A then [CHR 0x5C, CHR ''n'']
      else if c = CHR 0x0D then [CHR 0x5C, CHR ''r'']
      else if c = CHR 0x09 then [CHR 0x5C, CHR ''t'']
      else if printable c then [c]
      else [CHR 0x5C, CHR ''x'', hex_char (ordc c div 16), hex_char (ordc c mod 16)])"

definition py_repr :: "string \<Rightarrow> string" where
  "py_repr s =
     (let q = (if CHR 0x27 \<in> set s \<and> CHR 0x22 \<notin> set s then CHR 0x22 else CHR 0x27)
      in [q] @ concat (map (repr_char q) s) @ [q])"

text \<open>\<open>str(exc)\<close> and \<open>repr(exc)\<close>; a \<open>KeyError\<close> prints the representation of its key.\<close>

fun exn_str :: "py_exn \<Rightarrow> string" where
  "exn_str (KeyError k) = py_repr k"
| "exn_str (ValueError m) = m"
| "exn_str (RuntimeError m) = m"
| "exn_str (ZeroDivisionError m) = m"
| "exn_str (UnsafeDiffPathError m) = m"
| "exn_str (UnpublishablePathError m) = m"
| "exn_str (SandboxTimeoutError m) = m"
| "exn_str (ForeignError c m) = m"

fun exn_repr :: "py_exn \<Rightarrow> string" where
  "exn_repr (KeyError k) = ''KeyError('' @ py_repr k @ '')''"
| "exn_repr (ValueError m) = ''ValueError('' @ py_repr m @ '')''"
| "exn_repr (RuntimeError m) = ''RuntimeError('' @ py_repr m @ '')''"
| "exn_repr (ZeroDivisionError m) = ''ZeroDivisionError('' @ py_repr m @ '')''"
| "exn_repr (UnsafeDiffPathError m) = ''UnsafeDiffPathError('' @ py_repr m @ '')''"
| "exn_repr (UnpublishablePathError m) = ''UnpublishablePathError('' @ py_repr m @ '')''"
| "exn_repr (SandboxTimeoutError m) = ''SandboxTimeoutError('' @ py_repr m @ '')''"
| "exn_repr (ForeignError c m) = c @ ''('' @ py_repr m @ '')''"

section \<open>Dictionaries built by loops\<close>

text \<open>The elements of a list in the order of their first occurrence.\<close>

fun first_seen :: "'a list \<Rightarrow> 'a list" where
  "first_seen [] = []"
| "first_seen (x # xs) = x # filter (\<lambda>y. y \<noteq> x) (first_seen xs)"

lemma set_first_seen [simp]: "set (first_seen xs) = set xs"
  by (induction xs) auto

lemma distinct_first_seen [simp]: "distinct (first_seen xs)"
  by (induction xs) auto

lemma first_seen_distinct: "distinct xs \<Longrightarrow> first_seen xs = xs"
  by (induction xs) (auto intro: filter_True)

lemma first_seen_snoc:
  "first_seen (xs @ [x]) = (if x \<in> set xs then first_seen xs else first_seen xs @ [x])"
  by (induction xs) auto

lemma filter_first_seen: "first_seen (filter P xs) = filter P (first_seen xs)"
  by (induction xs) (auto intro: filter_cong)

lemma first_seen_append:
  "first_seen (xs @ ys) = first_seen xs @ filter (\<lambda>y. y \<notin> set xs) (first_seen ys)"
  by (induction xs) (auto intro: filter_cong)

lemma first_seen_append_first_seen: "first_seen (first_seen xs @ ys) = first_seen (xs @ ys)"
  by (simp add: first_seen_append first_seen_distinct)

text \<open>The last element of a list that satisfies a test: what a sequence of overwrites leaves.\<close>

definition find_last :: "('a \<Rightarrow> bool) \<Rightarrow> 'a list \<Rightarrow> 'a option" where
  "find_last P xs = find P (rev xs)"

lemma find_last_Nil [simp]: "find_last P [] = None"
  by (simp add: find_last_def)

lemma find_last_snoc [simp]:
  "find_last P (xs @ [x]) = (if P x then Some x else find_last P xs)"
  by (simp add: find_last_def)

lemma find_last_None: "find_last P xs = None \<longleftrightarrow> (\<forall>x \<in> set xs. \<not> P x)"
  by (auto simp: find_last_def find_None_iff)

lemma find_last_SomeD: "find_last P xs = Some x \<Longrightarrow> x \<in> set xs \<and> P x"
  by (auto simp: find_last_def find_Some_iff in_set_conv_nth) (metis length_rev nth_mem set_rev in_set_conv_nth)

lemma find_last_append:
  "find_last P (xs @ ys) = (case find_last P ys of Some y \<Rightarrow> Some y | None \<Rightarrow> find_last P xs)"
  by (induction ys rule: rev_induct) (auto simp flip: append_assoc)

lemma find_last_Cons:
  "find_last P (x # xs) = (case find_last P xs of Some y \<Rightarrow> Some y | None \<Rightarrow> if P x then Some x else None)"
proof -
  have s: "find_last P [x] = (if P x then Some x else None)" by (simp add: find_last_def)
  show ?thesis using find_last_append [of P "[x]" xs, unfolded s] by simp
qed

lemma find_last_key:
  "distinct (map key xs) \<Longrightarrow> x \<in> set xs \<Longrightarrow> find_last (\<lambda>y. key y = key x) xs = Some x"
  by (induction xs rule: rev_induct) (auto simp: rev_image_eqI)

lemma find_someD: "find P xs = Some x \<Longrightarrow> x \<in> set xs \<and> P x"
  by (induction xs) (auto split: if_splits)

lemma find_app: "find P (xs @ ys) = (case find P xs of Some x \<Rightarrow> Some x | None \<Rightarrow> find P ys)"
  by (induction xs) auto

lemma mem_map_filter: "y \<in> set (List.map_filter g xs) \<longleftrightarrow> (\<exists>x \<in> set xs. g x = Some y)"
  by (induction xs) (auto simp: List.map_filter_simps split: option.splits)

locale py_dict =
  fixes empty :: "'d"
    and get :: "'d \<Rightarrow> 'k \<Rightarrow> 'v option"
    and put :: "'k \<Rightarrow> 'v \<Rightarrow> 'd \<Rightarrow> 'd"
    and keys :: "'d \<Rightarrow> 'k list"
    and vals :: "'d \<Rightarrow> 'v list"
    and ok :: "'d \<Rightarrow> bool"
  assumes ok_empty: "ok empty"
    and ok_put: "ok d \<Longrightarrow> ok (put k v d)"
    and get_put: "get (put k v d) j = (if j = k then Some v else get d j)"
    and keys_empty: "keys empty = []"
    and keys_put: "keys (put k v d) = (if k \<in> set (keys d) then keys d else keys d @ [k])"
    and get_keys: "get d k = None \<longleftrightarrow> k \<notin> set (keys d)"
    and vals_get: "ok d \<Longrightarrow> vals d = map (\<lambda>k. the (get d k)) (keys d)"
    and distinct_keys: "ok d \<Longrightarrow> distinct (keys d)"
begin

lemma get_empty: "get empty k = None"
  by (simp add: get_keys keys_empty)

lemma ok_loop: "ok d \<Longrightarrow> ok (foldl (\<lambda>d x. put (key x) (val x) d) d xs)"
  by (induction xs arbitrary: d) (auto intro: ok_put)

lemma get_loop:
  "get (foldl (\<lambda>d x. put (key x) (val x) d) d xs) k =
     (case find_last (\<lambda>x. key x = k) xs of Some x \<Rightarrow> Some (val x) | None \<Rightarrow> get d k)"
  by (induction xs rule: rev_induct) (auto simp: get_put)

lemma set_keys_loop:
  "set (keys (foldl (\<lambda>d x. put (key x) (val x) d) d xs)) = set (keys d) \<union> key ` set xs"
  by (induction xs rule: rev_induct) (auto simp: keys_put)

lemma keys_loop_empty:
  "keys (foldl (\<lambda>d x. put (key x) (val x) d) empty xs) = first_seen (map key xs)"
proof (induction xs rule: rev_induct)
  case Nil
  then show ?case by (simp add: keys_empty)
next
  case (snoc x xs)
  then show ?case by (simp add: keys_put first_seen_snoc)
qed

lemma vals_loop_empty:
  "vals (foldl (\<lambda>d x. put (key x) (val x) d) empty xs) =
     map (\<lambda>k. val (the (find_last (\<lambda>x. key x = k) xs))) (first_seen (map key xs))"
proof -
  have "get (foldl (\<lambda>d x. put (key x) (val x) d) empty xs) k =
      Some (val (the (find_last (\<lambda>x. key x = k) xs)))"
    if "k \<in> key ` set xs" for k
    using that by (auto simp: get_loop find_last_None split: option.splits)
  then show ?thesis
    by (simp add: vals_get ok_loop ok_empty keys_loop_empty)
qed

lemma set_vals_loop_subset:
  "set (vals (foldl (\<lambda>d x. put (key x) (val x) d) empty xs)) \<subseteq> val ` set xs"
proof -
  have "the (find_last (\<lambda>x. key x = k) xs) \<in> set xs" if k: "k \<in> key ` set xs" for k
  proof -
    have "find_last (\<lambda>x. key x = k) xs \<noteq> None"
      using k by (auto simp: find_last_None)
    then show ?thesis by (auto dest: find_last_SomeD)
  qed
  then show ?thesis
    by (auto simp: vals_loop_empty)
qed

end

abbreviation dict_put :: "'k \<Rightarrow> 'v \<Rightarrow> ('k \<times> 'v) list \<Rightarrow> ('k \<times> 'v) list" where
  "dict_put \<equiv> AList.update"

abbreviation dict_keys :: "('k \<times> 'v) list \<Rightarrow> 'k list" where
  "dict_keys d \<equiv> map fst d"

abbreviation dict_vals :: "('k \<times> 'v) list \<Rightarrow> 'v list" where
  "dict_vals d \<equiv> map snd d"

lemma dict_put_keys:
  "dict_keys (dict_put k v d) = (if k \<in> set (dict_keys d) then dict_keys d else dict_keys d @ [k])"
  by (induction d) auto

interpretation od: py_dict "[]" map_of dict_put dict_keys dict_vals "\<lambda>d. distinct (dict_keys d)"
proof
  fix d :: "('k \<times> 'v) list" and k v j
  show "map_of (dict_put k v d) j = (if j = k then Some v else map_of d j)"
    by (simp add: update_conv)
  show "map_of d k = None \<longleftrightarrow> k \<notin> set (dict_keys d)"
    by (simp add: map_of_eq_None_iff)
  show "distinct (dict_keys d) \<Longrightarrow> dict_vals d = map (\<lambda>k. the (map_of d k)) (dict_keys d)"
    by (auto simp: map_of_is_SomeI)
  show "distinct (dict_keys d) \<Longrightarrow> distinct (dict_keys (dict_put k v d))"
    by (rule distinct_update)
qed (auto simp: dict_put_keys)

lemmas dict_loops [dict_simps] =
  od.get_loop od.set_keys_loop od.keys_loop_empty od.vals_loop_empty

end
