(* ===== verification/Text_Utils.thy ===== *)
theory Text_Utils
  imports Prelude
begin

text \<open>
  \<open>app/core/text.py\<close>: \<open>slugify\<close> (identifiers and module names) and \<open>find_capitalized_tokens\<close>
  (candidate type names in free text), with the regular expressions read as the scanners they are.
  The lemmas describe a slug's shape, its stability under a second \<open>slugify\<close>, and how slugs of paths
  decompose; the synthesis theory rests its task identifiers on them.
\<close>

section \<open>slugify\<close>

text \<open>\<open>re.sub(r"(?<!^)(?=[A-Z])", "_", name)\<close>: an underscore before every capital but a leading one.\<close>

definition mark_capital :: "char \<Rightarrow> string" where
  "mark_capital c = (if is_upper c then [CHR ''_'', c] else [c])"

fun split_camel :: "string \<Rightarrow> string" where
  "split_camel [] = []"
| "split_camel (c # cs) = c # concat (map mark_capital cs)"

text \<open>\<open>re.sub(r"[^A-Za-z0-9]+", "_", s)\<close>; the flag says that the previous character was in a run.\<close>

fun squeeze :: "bool \<Rightarrow> string \<Rightarrow> string" where
  "squeeze inrun [] = []"
| "squeeze inrun (c # cs) =
     (if is_alnum c then c # squeeze False cs
      else if inrun then squeeze True cs
      else CHR ''_'' # squeeze True cs)"

definition slugify :: "string \<Rightarrow> string" where
  "slugify name = py_lower (py_strip (CHR ''_'') (squeeze False (split_camel name)))"

section \<open>find_capitalized_tokens\<close>

text \<open>
  \<open>re.findall(r"\b[A-Z][A-Za-z0-9]{2,}\b", text)\<close>. The first argument says whether the character
  before the current position is a word character. A match starts at a capital after a non-word
  character; the greedy run of letters and digits is the only length at which the closing \<open>\b\<close> can
  hold, since a shorter one would end between two word characters.
\<close>

function findall_capitalized :: "bool \<Rightarrow> string \<Rightarrow> string list" where
  "findall_capitalized prev [] = []"
| "findall_capitalized prev (c # cs) =
     (let run = takeWhile is_alnum cs; rest = dropWhile is_alnum cs
      in if \<not> prev \<and> is_upper c \<and> 2 \<le> length run \<and> (rest = [] \<or> \<not> is_word (hd rest))
         then (c # run) # findall_capitalized True rest
         else findall_capitalized (is_word c) cs)"
  by pat_completeness auto
termination
  by (relation "measure (\<lambda>(prev, s). length s)") (auto simp: le_imp_less_Suc length_dropWhile_le)

definition find_capitalized_tokens :: "string \<Rightarrow> string list" where
  "find_capitalized_tokens text = findall_capitalized False text"

section \<open>The shape of a slug\<close>

definition slug_char :: "char \<Rightarrow> bool" where
  "slug_char c \<longleftrightarrow> is_lower c \<or> is_digit c"

text \<open>Words of lower-case letters and digits, separated by single underscores.\<close>

fun single_us :: "string \<Rightarrow> bool" where
  "single_us [] \<longleftrightarrow> True"
| "single_us [c] \<longleftrightarrow> True"
| "single_us (c # d # cs) \<longleftrightarrow> (c \<noteq> CHR ''_'' \<or> d \<noteq> CHR ''_'') \<and> single_us (d # cs)"

definition is_slug :: "string \<Rightarrow> bool" where
  "is_slug s \<longleftrightarrow> (\<forall>c \<in> set s. slug_char c \<or> c = CHR ''_'') \<and>
     (s \<noteq> [] \<longrightarrow> hd s \<noteq> CHR ''_'' \<and> last s \<noteq> CHR ''_'') \<and> single_us s"

lemma us_classes [simp]:
  "\<not> is_alnum (CHR ''_'')" "\<not> slug_char (CHR ''_'')" "\<not> is_upper (CHR ''_'')"
  "is_word (CHR ''_'')" "lower_char (CHR ''_'') = CHR ''_''"
  by (simp_all add: is_alnum_def is_upper_def is_lower_def is_digit_def slug_char_def is_word_def
      lower_char_def ordc_def)

lemma upper_alnum [simp]: "is_upper c \<Longrightarrow> is_alnum c"
  by (simp add: is_alnum_def)

lemma alnum_word [simp]: "is_alnum c \<Longrightarrow> is_word c"
  by (simp add: is_word_def)

lemma ordc_lower_upper: "is_upper c \<Longrightarrow> ordc (lower_char c) = ordc c + 32"
  by (auto simp: lower_char_def is_upper_def ordc_def of_char_of)

lemma lower_alnum: "is_alnum c \<Longrightarrow> slug_char (lower_char c)"
proof (cases "is_upper c")
  case True
  then show ?thesis
    using ordc_lower_upper [OF True] by (auto simp: slug_char_def is_lower_def is_upper_def)
next
  case False
  assume "is_alnum c"
  with False have "lower_char c = c" "slug_char c"
    by (auto simp: is_alnum_def slug_char_def lower_char_def is_lower_def is_digit_def)
  then show ?thesis by simp
qed

lemma slug_char_alnum: "slug_char c \<Longrightarrow> is_alnum c \<and> \<not> is_upper c \<and> lower_char c = c"
  by (auto simp: slug_char_def is_alnum_def is_lower_def is_digit_def is_upper_def lower_char_def)

lemma slug_char_us: "slug_char c \<Longrightarrow> c \<noteq> CHR ''_''"
  by (auto simp: slug_char_def is_lower_def is_digit_def ordc_def)

lemma squeeze_chars: "c \<in> set (squeeze b s) \<Longrightarrow> is_alnum c \<or> c = CHR ''_''"
  by (induction b s rule: squeeze.induct) (auto split: if_splits)

lemma squeeze_True_hd: "squeeze True s = [] \<or> hd (squeeze True s) \<noteq> CHR ''_''"
  by (induction s) auto

lemma single_us_Cons:
  "single_us (c # s) \<longleftrightarrow> single_us s \<and> (s = [] \<or> c \<noteq> CHR ''_'' \<or> hd s \<noteq> CHR ''_'')"
  by (cases s) auto

lemma squeeze_single: "single_us (squeeze b s)"
proof (induction b s rule: squeeze.induct)
  case (2 b c cs)
  then show ?case
    using squeeze_True_hd [of cs] by (auto simp: single_us_Cons)
qed simp

lemma single_us_append:
  "single_us (s @ t) \<longleftrightarrow> single_us s \<and> single_us t \<and>
     (s = [] \<or> t = [] \<or> last s \<noteq> CHR ''_'' \<or> hd t \<noteq> CHR ''_'')"
  by (induction s) (auto simp: single_us_Cons)

lemma single_us_rev: "single_us (rev s) = single_us s"
  by (induction s) (auto simp: single_us_append single_us_Cons last_rev)

lemma single_us_dropWhile: "single_us s \<Longrightarrow> single_us (dropWhile P s)"
  by (metis single_us_append takeWhile_dropWhile_id)

lemma single_us_lower: "single_us s \<Longrightarrow> \<forall>c \<in> set s. is_alnum c \<or> c = CHR ''_'' \<Longrightarrow> single_us (py_lower s)"
proof (induction s)
  case (Cons c s)
  have "lower_char d \<noteq> CHR ''_''" if "is_alnum d" for d
    using lower_alnum [OF that] slug_char_us by blast
  with Cons show ?case
    by (cases s) (auto simp: py_lower_def single_us_Cons)
qed (simp add: py_lower_def)

lemma strip_ends:
  "py_strip c s \<noteq> [] \<Longrightarrow> hd (py_strip c s) \<noteq> c \<and> last (py_strip c s) \<noteq> c"
proof -
  assume ne: "py_strip c s \<noteq> []"
  let ?t = "dropWhile (\<lambda>x. x = c) s" and ?P = "\<lambda>x. x = c"
  have r: "rev (py_strip c s) = dropWhile ?P (rev ?t)" by (simp add: py_strip_def)
  have l: "last (py_strip c s) \<noteq> c"
    using hd_dropWhile [of ?P "rev ?t"] ne r by (metis hd_rev rev_is_Nil_conv)
  have "?t = py_strip c s @ rev (takeWhile ?P (rev ?t))"
    by (metis r rev_append rev_rev_ident takeWhile_dropWhile_id)
  then have "hd ?t = hd (py_strip c s)" "?t \<noteq> []"
    using ne by (metis hd_append2, metis append_is_Nil_conv)
  then show ?thesis using l hd_dropWhile [of ?P s] by auto
qed

lemma strip_set: "set (py_strip c s) \<subseteq> set s"
  by (auto simp: py_strip_def dest!: set_dropWhileD)

lemma strip_id: "s = [] \<or> hd s \<noteq> c \<and> last s \<noteq> c \<Longrightarrow> py_strip c s = s"
  by (auto simp: py_strip_def dropWhile_eq_self_iff [THEN iffD2] hd_rev)

lemma slugify_is_slug: "is_slug (slugify name)"
proof -
  let ?q = "squeeze False (split_camel name)"
  let ?s = "py_strip (CHR ''_'') ?q"
  have chars: "\<forall>c \<in> set ?s. is_alnum c \<or> c = CHR ''_''"
    using strip_set squeeze_chars by blast
  have "single_us ?s"
    unfolding py_strip_def by (intro single_us_dropWhile squeeze_single
        | simp add: single_us_rev single_us_dropWhile squeeze_single)+
  then have one: "single_us (py_lower ?s)" using chars by (rule single_us_lower)
  have set: "\<forall>c \<in> set (py_lower ?s). slug_char c \<or> c = CHR ''_''"
    using chars lower_alnum by (auto simp: py_lower_def)
  have "hd (py_lower ?s) \<noteq> CHR ''_'' \<and> last (py_lower ?s) \<noteq> CHR ''_''" if "?s \<noteq> []"
  proof -
    have "hd ?s \<noteq> CHR ''_''" "last ?s \<noteq> CHR ''_''" using strip_ends [OF that] by auto
    with that chars have "slug_char (lower_char (hd ?s))" "slug_char (lower_char (last ?s))"
      by (metis hd_in_set lower_alnum, metis last_in_set lower_alnum)
    with that show ?thesis by (auto simp: py_lower_def hd_map last_map dest: slug_char_us)
  qed
  with one set show ?thesis
    by (auto simp: is_slug_def slugify_def py_lower_def)
qed

lemma squeeze_clean: "\<forall>c \<in> set s. is_alnum c \<or> c = CHR ''_'' \<Longrightarrow> single_us s \<Longrightarrow>
    (b \<longrightarrow> s = [] \<or> hd s \<noteq> CHR ''_'') \<Longrightarrow> squeeze b s = s"
  by (induction b s rule: squeeze.induct) (auto simp: single_us_Cons)

lemma mark_no_capital: "\<forall>c \<in> set s. \<not> is_upper c \<Longrightarrow> concat (map mark_capital s) = s"
  by (induction s) (auto simp: mark_capital_def)

lemma split_camel_lower: "\<forall>c \<in> set s. \<not> is_upper c \<Longrightarrow> split_camel s = s"
  by (cases s) (auto simp: mark_no_capital)

lemma slug_chars:
  assumes "is_slug s" "c \<in> set s"
  shows "is_alnum c \<or> c = CHR ''_''" "\<not> is_upper c" "lower_char c = c"
proof -
  have "slug_char c \<or> c = CHR ''_''" using assms by (simp add: is_slug_def)
  then show "is_alnum c \<or> c = CHR ''_''" "\<not> is_upper c" "lower_char c = c"
    using slug_char_alnum [of c] us_classes by blast+
qed

lemma slugify_slug:
  assumes "is_slug s"
  shows "slugify s = s"
proof -
  have c: "\<forall>c \<in> set s. is_alnum c \<or> c = CHR ''_''" "\<forall>c \<in> set s. \<not> is_upper c"
    "\<forall>c \<in> set s. lower_char c = c"
    using slug_chars [OF assms] by blast+
  have "squeeze False (split_camel s) = s"
    using c assms by (simp add: split_camel_lower squeeze_clean is_slug_def)
  moreover have "py_strip (CHR ''_'') s = s"
    using assms by (intro strip_id) (auto simp: is_slug_def)
  ultimately show ?thesis
    using c(3) by (simp add: slugify_def py_lower_def map_idI)
qed

lemma slugify_idem [text_simps]: "slugify (slugify name) = slugify name"
  by (intro slugify_slug slugify_is_slug)

section \<open>What the token scanner finds\<close>

text \<open>
  The reference reading of the pattern: cut the text into its maximal runs of word characters and
  keep the runs that are capitalised, consist of ASCII letters and digits and have at least three
  characters.
\<close>

function word_runs :: "string \<Rightarrow> string list" where
  "word_runs [] = []"
| "word_runs (c # cs) =
     (if is_word c then (c # takeWhile is_word cs) # word_runs (dropWhile is_word cs)
      else word_runs cs)"
  by pat_completeness auto
termination
  by (relation "measure length") (auto simp: le_imp_less_Suc length_dropWhile_le)

definition is_type_name :: "string \<Rightarrow> bool" where
  "is_type_name w \<longleftrightarrow> 3 \<le> length w \<and> is_upper (hd w) \<and> (\<forall>c \<in> set w. is_alnum c)"

lemma alnum_run_is_word_run:
  assumes "dropWhile is_alnum cs = [] \<or> \<not> is_word (hd (dropWhile is_alnum cs))"
  shows "takeWhile is_word cs = takeWhile is_alnum cs \<and> dropWhile is_word cs = dropWhile is_alnum cs"
  using assms by (induction cs) (auto split: if_splits)

lemma alnum_word_run:
  assumes "\<forall>c \<in> set (takeWhile is_word cs). is_alnum c"
  shows "takeWhile is_alnum cs = takeWhile is_word cs \<and>
    (dropWhile is_alnum cs = [] \<or> \<not> is_word (hd (dropWhile is_alnum cs)))"
  using assms
proof (induction cs)
  case (Cons c cs)
  show ?case
  proof (cases "is_word c")
    case True
    with Cons.prems have c: "is_alnum c" and "\<forall>c \<in> set (takeWhile is_word cs). is_alnum c"
      by simp_all
    from Cons.IH [OF this(2)] c True show ?thesis
      by (simp only: takeWhile.simps dropWhile.simps if_True)
  next
    case False
    then have "\<not> is_alnum c" using alnum_word by blast
    with False show ?thesis by simp
  qed
qed simp

lemma findall_capitalized_runs:
  "findall_capitalized prev s =
     filter is_type_name (word_runs (if prev then dropWhile is_word s else s))"
proof (induction prev s rule: findall_capitalized.induct)
  case (1 prev)
  then show ?case by simp
next
  case (2 prev c cs)
  let ?run = "takeWhile is_alnum cs" and ?rest = "dropWhile is_alnum cs"
  let ?hit = "\<not> prev \<and> is_upper c \<and> 2 \<le> length ?run \<and> (?rest = [] \<or> \<not> is_word (hd ?rest))"
  show ?case
  proof (cases ?hit)
    case True
    then have w: "takeWhile is_word cs = ?run" "dropWhile is_word cs = ?rest"
      using alnum_run_is_word_run by blast+
    have "is_type_name (c # ?run)"
      using True by (auto simp: is_type_name_def dest: set_takeWhileD)
    moreover have "dropWhile is_word ?rest = ?rest"
      using True by (simp add: dropWhile_eq_self_iff)
    ultimately show ?thesis
      using True 2(1) w by (simp add: Let_def)
  next
    case False
    have miss: "\<not> is_type_name (c # takeWhile is_word cs)" if "\<not> prev"
    proof
      assume t: "is_type_name (c # takeWhile is_word cs)"
      then have "\<forall>c \<in> set (takeWhile is_word cs). is_alnum c" by (simp add: is_type_name_def)
      from alnum_word_run [OF this] t that False show False
        by (auto simp: is_type_name_def)
    qed
    have "findall_capitalized prev (c # cs) = findall_capitalized (is_word c) cs"
      by (simp only: findall_capitalized.simps Let_def if_not_P [OF False])
    moreover have "findall_capitalized (is_word c) cs =
        filter is_type_name (word_runs (if is_word c then dropWhile is_word cs else cs))"
      using 2(2) [OF refl refl False] .
    ultimately show ?thesis
      using miss by (cases prev; cases "is_word c") simp_all
  qed
qed

end
