(* ===== verification/Floats.thy ===== *)
theory Floats
  imports Prelude Complex_Main "HOL-Library.Log_Nat"
begin

text \<open>
  The \<open>float\<close>s of the sources (dollar amounts, times in seconds). A finite \<open>float\<close> is modelled by
  its exact rational value, and an arithmetic operation is the exact rational operation followed by
  the rounding \<open>fl\<close> to 53 significant bits, ties to even. The exponent is unbounded: overflow to
  infinity and gradual underflow are outside the model (amounts are dollars, times are epoch
  seconds). Integers and literals enter a computation through \<open>fl\<close>, comparisons are exact, and
  \<open>//\<close> is the floor of the exact quotient, which is what CPython computes from an exact remainder.

  The locale \<open>rounding\<close> is the interface the accounting code is verified against (rounding is
  monotone, idempotent and fixes 0); \<open>fl\<close> interprets it.
\<close>

named_theorems float_simps "evaluation and algebra of rounded arithmetic"

section \<open>The interface of a rounding\<close>

locale rounding =
  fixes rnd :: "rat \<Rightarrow> rat"
  assumes rnd_mono: "x \<le> y \<Longrightarrow> rnd x \<le> rnd y"
    and rnd_idem: "rnd (rnd x) = rnd x"
    and rnd_zero: "rnd 0 = 0"
begin

lemma rnd_nonneg: "0 \<le> x \<Longrightarrow> 0 \<le> rnd x"
  using rnd_mono [of 0 x] by (simp add: rnd_zero)

lemma add_ge: "rnd x = x \<Longrightarrow> 0 \<le> y \<Longrightarrow> x \<le> rnd (x + y)"
  using rnd_mono [of x "x + y"] by simp

lemma add_mono: "x \<le> x' \<Longrightarrow> y \<le> y' \<Longrightarrow> rnd (x + y) \<le> rnd (x' + y')"
  by (rule rnd_mono) simp

lemma diff_nonneg_iff_le: "rnd x = x \<Longrightarrow> rnd y = y \<Longrightarrow> 0 < rnd (x - y) \<Longrightarrow> y < x"
  using rnd_mono [of "x - y" 0] by (force simp: rnd_zero)

text \<open>Adding up a list from the left, as a loop of \<open>+=\<close> does.\<close>

lemma sum_loop_float:
  "rnd s = s \<Longrightarrow> rnd (foldl (\<lambda>s x. rnd (s + x)) s xs) = foldl (\<lambda>s x. rnd (s + x)) s xs"
  by (induction xs arbitrary: s) (auto simp: rnd_idem)

lemma sum_loop_ge:
  assumes "rnd s = s" and "\<forall>x \<in> set xs. 0 \<le> x"
  shows "s \<le> foldl (\<lambda>s x. rnd (s + x)) s xs"
  using assms
proof (induction xs arbitrary: s)
  case Nil
  then show ?case by simp
next
  case (Cons x xs)
  then have "s \<le> rnd (s + x)" by (simp add: add_ge)
  also have "\<dots> \<le> foldl (\<lambda>s x. rnd (s + x)) (rnd (s + x)) xs"
    using Cons by (simp add: rnd_idem)
  finally show ?case by simp
qed

end

section \<open>Round to nearest, ties to even, 53 bits\<close>

definition round_even :: "rat \<Rightarrow> int" where
  "round_even x =
     (let f = \<lfloor>x\<rfloor>; d = x - of_int f
      in if d < 1 / 2 then f else if 1 / 2 < d then f + 1 else if even f then f else f + 1)"

definition binade :: "rat \<Rightarrow> int" where
  "binade x =
     (if 1 \<le> x then int (floorlog 2 (nat \<lfloor>x\<rfloor>)) - 1
      else - int (floorlog 2 (nat (\<lceil>1 / x\<rceil> - 1))))"

text \<open>The same, computed on binary integers.\<close>

function ilog :: "int \<Rightarrow> int" where
  "ilog m = (if m \<le> 1 then 0 else 1 + ilog (m div 2))"
  by auto
termination by (relation "measure nat") auto
declare ilog.simps [simp del]

lemma ilog_floorlog: "1 \<le> m \<Longrightarrow> ilog m = int (floorlog 2 (nat m)) - 1"
proof (induction m rule: ilog.induct)
  case (1 m)
  have f: "floorlog 2 (nat m) = floorlog 2 (nat m div 2) + 1"
    using 1(2) by (subst compute_floorlog) simp
  show ?case
  proof (cases "m \<le> 1")
    case True
    then have "m = 1" using 1(2) by simp
    then show ?thesis by (simp add: ilog.simps [of 1] compute_floorlog)
  next
    case False
    then have "1 \<le> m div 2" by simp
    then have "ilog m = 1 + (int (floorlog 2 (nat (m div 2))) - 1)"
      using 1(1) [OF False] False by (simp add: ilog.simps [of m])
    moreover have "nat (m div 2) = nat m div 2" using 1(2) by (simp add: nat_div_distrib)
    ultimately show ?thesis using f by simp
  qed
qed

lemma binade_code [code]:
  "binade x = (if 1 \<le> x then ilog \<lfloor>x\<rfloor> else if 0 < x then - 1 - ilog (\<lceil>1 / x\<rceil> - 1) else 0)"
proof (cases "0 < x")
  case True
  then show ?thesis by (auto simp: binade_def ilog_floorlog le_floor_iff ceiling_le_iff)
next
  case False
  then have "1 / x \<le> 0" by simp
  then have "\<lceil>1 / x\<rceil> \<le> 0" by (simp only: ceiling_le_iff of_int_0)
  then have "nat (\<lceil>1 / x\<rceil> - 1) = 0" by (intro nat_0_iff [THEN iffD2]) linarith
  with False show ?thesis by (simp add: binade_def floorlog_def)
qed

definition fl_pos :: "rat \<Rightarrow> rat" where
  "fl_pos x = (let u = 2 powi (binade x - 52) in of_int (round_even (x / u)) * u)"

definition fl :: "rat \<Rightarrow> rat" where
  "fl x = (if x = 0 then 0 else if x < 0 then - fl_pos (- x) else fl_pos x)"

lemma round_even_int [simp]: "round_even (of_int i) = i"
  by (simp add: round_even_def)

lemma round_even_mono:
  assumes "x \<le> y"
  shows "round_even x \<le> round_even y"
proof (cases "\<lfloor>x\<rfloor> = \<lfloor>y\<rfloor>")
  case True
  then show ?thesis using assms by (auto simp: round_even_def Let_def)
next
  case False
  with floor_mono [OF assms] have "\<lfloor>x\<rfloor> + 1 \<le> \<lfloor>y\<rfloor>" by simp
  moreover have "round_even x \<le> \<lfloor>x\<rfloor> + 1" "\<lfloor>y\<rfloor> \<le> round_even y"
    by (auto simp: round_even_def Let_def)
  ultimately show ?thesis by linarith
qed

lemma two_powi_pos [simp]: "(0::rat) < 2 powi n"
  by simp

lemma floorlog_int_bounds:
  assumes "1 \<le> m"
  shows "(2::rat) ^ (floorlog 2 (nat m) - 1) \<le> of_int m"
    and "of_int m + 1 \<le> (2::rat) ^ floorlog 2 (nat m)"
    and "1 \<le> floorlog 2 (nat m)"
proof -
  let ?k = "floorlog 2 (nat m)"
  have b: "2 ^ (?k - 1) \<le> nat m \<and> nat m < 2 ^ ?k"
    using assms by (intro floorlog_bounds) auto
  then have "(2::int) ^ (?k - 1) \<le> m" "m + 1 \<le> 2 ^ ?k"
    using assms by (auto simp: nat_less_iff le_nat_iff nat_power_eq)
  then have "(of_int (2 ^ (?k - 1)) :: rat) \<le> of_int m" "(of_int (m + 1) :: rat) \<le> of_int (2 ^ ?k)"
    by (simp_all only: of_int_le_iff)
  then show "(2::rat) ^ (?k - 1) \<le> of_int m" "of_int m + 1 \<le> (2::rat) ^ ?k"
    by simp_all
  show "1 \<le> ?k"
    using b assms by (cases ?k) auto
qed

lemma binade_bounds:
  assumes "0 < x"
  shows "2 powi binade x \<le> x" and "x < 2 powi (binade x + 1)"
proof -
  have "2 powi binade x \<le> x \<and> x < 2 powi (binade x + 1)"
  proof (cases "1 \<le> x")
    case True
    let ?k = "floorlog 2 (nat \<lfloor>x\<rfloor>)"
    have m: "1 \<le> \<lfloor>x\<rfloor>" using True by simp
    note b = floorlog_int_bounds [OF m]
    have e: "binade x = int (?k - 1)" "binade x + 1 = int ?k"
      using True b(3) by (auto simp: binade_def)
    show ?thesis
      unfolding e(2) unfolding e(1) power_int_of_nat
      using b(1,2) floor_correct [of x] by linarith
  next
    case False
    let ?y = "1 / x"
    let ?k = "floorlog 2 (nat (\<lceil>?y\<rceil> - 1))"
    have y: "1 < ?y" using assms False by simp
    have m: "1 \<le> \<lceil>?y\<rceil> - 1" using y by linarith
    note b = floorlog_int_bounds [OF m]
    have e: "binade x = - int ?k" "binade x + 1 = - int (?k - 1)"
      using False b(3) by (auto simp: binade_def)
    have c: "of_int (\<lceil>?y\<rceil> - 1) < ?y" "?y \<le> of_int (\<lceil>?y\<rceil> - 1) + 1"
      using ceiling_correct [of ?y] by auto
    have "?y \<le> 2 ^ ?k" "2 ^ (?k - 1) < ?y"
      using b(1,2) c by linarith+
    then have "inverse (2 ^ ?k) \<le> x" "x < inverse (2 ^ (?k - 1))"
      using assms by (auto simp: field_simps)
    then show ?thesis
      unfolding e(2) unfolding e(1) power_int_minus power_int_of_nat by simp
  qed
  then show "2 powi binade x \<le> x" "x < 2 powi (binade x + 1)" by auto
qed

lemma binade_unique:
  assumes "0 < x" "2 powi e \<le> x" "x < 2 powi (e + 1)"
  shows "binade x = e"
proof (rule antisym; rule ccontr)
  assume "\<not> binade x \<le> e"
  then have "(2::rat) powi (e + 1) \<le> 2 powi binade x" by (intro power_int_increasing) auto
  then show False using binade_bounds(1) [OF assms(1)] assms(3) by linarith
next
  assume "\<not> e \<le> binade x"
  then have "(2::rat) powi (binade x + 1) \<le> 2 powi e" by (intro power_int_increasing) auto
  then show False using binade_bounds(2) [OF assms(1)] assms(2) by linarith
qed

lemma binade_mono:
  assumes "0 < x" "x \<le> y"
  shows "binade x \<le> binade y"
proof (rule ccontr)
  assume "\<not> ?thesis"
  then have "(2::rat) powi (binade y + 1) \<le> 2 powi binade x" by (intro power_int_increasing) auto
  then show False
    using binade_bounds(2) [of y] binade_bounds(1) [of x] assms by linarith
qed

text \<open>The scaled value lies between \<open>2 ^ 52\<close> and \<open>2 ^ 53\<close>, and so does its rounding.\<close>

lemma scaled_bounds:
  assumes "0 < x"
  shows "2 ^ 52 \<le> x / 2 powi (binade x - 52)" and "x / 2 powi (binade x - 52) < 2 ^ 53"
proof -
  have u: "(2::rat) powi binade x = 2 ^ 52 * 2 powi (binade x - 52)"
    by (simp add: power_int_diff)
  have v: "(2::rat) powi (binade x + 1) = 2 ^ 53 * 2 powi (binade x - 52)"
    by (simp add: power_int_diff power_int_add)
  show "2 ^ 52 \<le> x / 2 powi (binade x - 52)" "x / 2 powi (binade x - 52) < 2 ^ 53"
    using binade_bounds [OF assms] unfolding u v by (simp_all add: pos_le_divide_eq pos_divide_less_eq)
qed

lemma fl_pos_bounds:
  assumes "0 < x"
  shows "2 powi binade x \<le> fl_pos x" and "fl_pos x \<le> 2 powi (binade x + 1)"
proof -
  let ?u = "2 powi (binade x - 52) :: rat"
  have "round_even (of_int (2 ^ 52)) \<le> round_even (x / ?u)"
    using scaled_bounds(1) [OF assms] by (intro round_even_mono) simp
  moreover have "round_even (x / ?u) \<le> round_even (of_int (2 ^ 53))"
    using scaled_bounds(2) [OF assms] by (intro round_even_mono) simp
  ultimately have r: "2 ^ 52 \<le> round_even (x / ?u)" "round_even (x / ?u) \<le> 2 ^ 53"
    by (simp_all only: round_even_int)
  then have "(of_int (2 ^ 52) :: rat) \<le> of_int (round_even (x / ?u))"
    "(of_int (round_even (x / ?u)) :: rat) \<le> of_int (2 ^ 53)"
    by (simp_all only: of_int_le_iff)
  then have "of_int (2 ^ 52) * ?u \<le> of_int (round_even (x / ?u)) * ?u"
    "of_int (round_even (x / ?u)) * ?u \<le> of_int (2 ^ 53) * ?u"
    by (auto intro: mult_right_mono)
  moreover have "of_int (2 ^ 52) * ?u = 2 powi binade x" "of_int (2 ^ 53) * ?u = 2 powi (binade x + 1)"
    by (simp_all add: power_int_diff power_int_add)
  ultimately show "2 powi binade x \<le> fl_pos x" "fl_pos x \<le> 2 powi (binade x + 1)"
    unfolding fl_pos_def Let_def by (simp_all only:)
qed

lemma fl_pos_pos: "0 < x \<Longrightarrow> 0 < fl_pos x"
  using fl_pos_bounds(1) [of x] two_powi_pos [of "binade x"] by linarith

lemma fl_pos_mono:
  assumes "0 < x" "x \<le> y"
  shows "fl_pos x \<le> fl_pos y"
proof (cases "binade x = binade y")
  case True
  have "round_even (x / 2 powi (binade y - 52)) \<le> round_even (y / 2 powi (binade y - 52))"
    using assms by (intro round_even_mono divide_right_mono) auto
  then show ?thesis
    unfolding fl_pos_def Let_def True by (intro mult_right_mono) auto
next
  case False
  with binade_mono [OF assms] have "(2::rat) powi (binade x + 1) \<le> 2 powi binade y"
    by (intro power_int_increasing) auto
  then show ?thesis
    using fl_pos_bounds(2) [OF assms(1)] fl_pos_bounds(1) [of y] assms by linarith
qed

text \<open>An integer of at most 53 bits times a power of two is a float.\<close>

lemma fl_pos_representable:
  assumes m: "0 < m" "m \<le> 2 ^ 53"
  shows "fl_pos (of_int m * 2 powi e) = of_int m * 2 powi e"
proof -
  let ?x = "of_int m * 2 powi e :: rat"
  have x: "0 < ?x" using m by simp
  have "(of_int m :: rat) \<le> of_int (2 ^ 53)" using m(2) by (simp only: of_int_le_iff)
  then have "?x \<le> 2 powi (53 + e)"
    by (simp add: power_int_add mult_right_mono)
  then have "2 powi binade ?x \<le> (2::rat) powi (53 + e)"
    using binade_bounds(1) [OF x] by linarith
  then have le: "binade ?x \<le> 53 + e"
    using power_int_strict_increasing [of "53 + e" "binade ?x" "2::rat"] by force
  show ?thesis
  proof (cases "binade ?x = 53 + e")
    case True
    then have "?x = 2 powi (53 + e)"
      using binade_bounds(1) [OF x] \<open>?x \<le> 2 powi (53 + e)\<close> by simp
    then have "?x / 2 powi (binade ?x - 52) = of_int (2 ^ 52)"
      unfolding True by (simp add: power_int_add power_int_diff)
    then show ?thesis
      unfolding fl_pos_def Let_def by (simp only: round_even_int) (metis
        \<open>?x / 2 powi (binade ?x - 52) = of_int (2 ^ 52)\<close> nonzero_eq_divide_eq power_int_not_zero
        zero_neq_numeral)
  next
    case False
    with le have "0 \<le> e - (binade ?x - 52)" by simp
    then obtain k where k: "e - (binade ?x - 52) = int k" using nonneg_int_cases by blast
    have "?x / 2 powi (binade ?x - 52) = of_int m * 2 powi (e - (binade ?x - 52))"
      by (simp add: power_int_diff)
    also have "\<dots> = of_int (m * 2 ^ k)" by (simp add: k power_int_of_nat)
    finally have q: "?x / 2 powi (binade ?x - 52) = of_int (m * 2 ^ k)" .
    then show ?thesis
      unfolding fl_pos_def Let_def by (simp only: round_even_int) (metis q nonzero_eq_divide_eq
        power_int_not_zero zero_neq_numeral)
  qed
qed

lemma fl_pos_idem:
  assumes "0 < x"
  shows "fl_pos (fl_pos x) = fl_pos x"
proof -
  let ?u = "2 powi (binade x - 52) :: rat" and ?m = "round_even (x / 2 powi (binade x - 52))"
  have e: "fl_pos x = of_int ?m * ?u" by (simp add: fl_pos_def Let_def)
  have "0 < (of_int ?m :: rat)"
    using fl_pos_pos [OF assms] two_powi_pos [of "binade x - 52"] unfolding e
    by (metis mult_pos_pos zero_less_mult_pos2)
  moreover have "?m \<le> round_even (of_int (2 ^ 53))"
    using scaled_bounds(2) [OF assms] by (intro round_even_mono) simp
  ultimately show ?thesis
    unfolding e by (intro fl_pos_representable) (simp_all only: of_int_0_less_iff round_even_int)
qed

lemma fl_representable [float_simps]:
  assumes "\<bar>m\<bar> \<le> 2 ^ 53"
  shows "fl (of_int m * 2 powi e) = of_int m * 2 powi e"
proof -
  consider "m = 0" | "0 < m" | "m < 0" by linarith
  then show ?thesis
  proof cases
    case 1
    then show ?thesis by (simp add: fl_def)
  next
    case 2
    then have p: "(0::rat) < of_int m * 2 powi e" by simp
    have r: "fl_pos (of_int m * 2 powi e) = of_int m * 2 powi e"
      using 2 assms by (intro fl_pos_representable) auto
    show ?thesis
      using p by (simp add: fl_def r less_asym)
  next
    case 3
    then have n: "of_int m * 2 powi e < (0::rat)" by (simp add: mult_neg_pos)
    have r: "fl_pos (of_int (- m) * 2 powi e) = of_int (- m) * 2 powi e"
      using 3 assms by (intro fl_pos_representable) auto
    have "fl (of_int m * 2 powi e) = - fl_pos (of_int (- m) * 2 powi e)"
      using n 3 by (simp add: fl_def)
    also have "\<dots> = of_int m * 2 powi e" unfolding r by simp
    finally show ?thesis .
  qed
qed

lemma fl_of_int: "\<bar>m\<bar> \<le> 2 ^ 53 \<Longrightarrow> fl (of_int m) = of_int m"
  using fl_representable [of m 0] by simp

lemma fl_zero [simp]: "fl 0 = 0"
  by (simp add: fl_def)

lemma fl_mono:
  assumes "x \<le> y"
  shows "fl x \<le> fl y"
proof -
  consider "x < 0" "y < 0" | "x \<le> 0" "0 \<le> y" | "0 < x" "0 < y" using assms by linarith
  then show ?thesis
  proof cases
    case 1
    then show ?thesis using fl_pos_mono [of "- y" "- x"] assms by (simp add: fl_def)
  next
    case 2
    then show ?thesis
      using fl_pos_pos [of "- x"] fl_pos_pos [of y] by (auto simp: fl_def)
  next
    case 3
    then show ?thesis using fl_pos_mono [of x y] assms by (simp add: fl_def)
  qed
qed

lemma fl_idem [simp]: "fl (fl x) = fl x"
proof -
  consider "x = 0" | "0 < x" | "x < 0" by linarith
  then show ?thesis
  proof cases
    case 2
    then show ?thesis
      using fl_pos_idem [of x] fl_pos_pos [of x] by (simp add: fl_def less_asym)
  next
    case 3
    then show ?thesis
      using fl_pos_idem [of "- x"] fl_pos_pos [of "- x"] by (simp add: fl_def less_asym)
  qed simp
qed

interpretation fl: rounding fl
  by unfold_locales (auto intro: fl_mono)

section \<open>Operations on floats\<close>

definition is_float :: "rat \<Rightarrow> bool" where
  "is_float x \<longleftrightarrow> fl x = x"

lemma is_float_fl [simp]: "is_float (fl x)"
  by (simp add: is_float_def)

lemma is_float_0 [simp]: "is_float 0"
  by (simp add: is_float_def)

definition fadd :: "rat \<Rightarrow> rat \<Rightarrow> rat" where
  "fadd x y = fl (x + y)"

definition fsub :: "rat \<Rightarrow> rat \<Rightarrow> rat" where
  "fsub x y = fl (x - y)"

definition fmul :: "rat \<Rightarrow> rat \<Rightarrow> rat" where
  "fmul x y = fl (x * y)"

definition fdiv :: "rat \<Rightarrow> rat \<Rightarrow> rat" where
  "fdiv x y = fl (x / y)"

text \<open>\<open>int(x // y)\<close>.\<close>

definition floordiv :: "rat \<Rightarrow> rat \<Rightarrow> int" where
  "floordiv x y = \<lfloor>x / y\<rfloor>"

lemma is_float_ops [simp]:
  "is_float (fadd x y)" "is_float (fsub x y)" "is_float (fmul x y)" "is_float (fdiv x y)"
  by (simp_all add: fadd_def fsub_def fmul_def fdiv_def)

lemma fadd_ge: "is_float x \<Longrightarrow> 0 \<le> y \<Longrightarrow> x \<le> fadd x y"
  unfolding fadd_def is_float_def by (rule fl.add_ge)

lemma fadd_0_right [simp]: "is_float x \<Longrightarrow> fadd x 0 = x"
  by (simp add: fadd_def is_float_def)

lemma fdiv_1 [simp]: "is_float x \<Longrightarrow> fdiv x 1 = x"
  by (simp add: fdiv_def is_float_def)

lemma fdiv_nonneg: "0 \<le> x \<Longrightarrow> 0 \<le> y \<Longrightarrow> 0 \<le> fdiv x y"
  unfolding fdiv_def by (rule fl.rnd_nonneg) simp

lemma fmul_nonneg: "0 \<le> x \<Longrightarrow> 0 \<le> y \<Longrightarrow> 0 \<le> fmul x y"
  unfolding fmul_def by (rule fl.rnd_nonneg) simp

lemma fadd_nonneg: "0 \<le> x \<Longrightarrow> 0 \<le> y \<Longrightarrow> 0 \<le> fadd x y"
  unfolding fadd_def by (rule fl.rnd_nonneg) simp

section \<open>Formatting\<close>

text \<open>\<open>f"{x:.nf}"\<close>: the exact value rounded half-even to \<open>n\<close> decimals.\<close>

definition zero_pad :: "nat \<Rightarrow> string \<Rightarrow> string" where
  "zero_pad n s = replicate (n - length s) (CHR ''0'') @ s"

definition format_fixed :: "nat \<Rightarrow> rat \<Rightarrow> string" where
  "format_fixed n x =
     (let m = nat (round_even (\<bar>x\<bar> * 10 ^ n));
          body = (if n = 0 then str_nat m
                  else str_nat (m div 10 ^ n) @ ''.'' @ zero_pad n (str_nat (m mod 10 ^ n)))
      in (if x < 0 then ''-'' else '''') @ body)"

end
