(* ===== verification/Graph_State.thy ===== *)
theory Graph_State
  imports Floats
begin

text \<open>
  \<open>app/graph/state\<close>: the enums, the intermediate representation, the task-level records, the pull
  request draft, the graph state and its reducers. A pydantic model is a record, an enum a datatype
  with its string values; field names carry a prefix where Python classes share a name.

  \<open>GraphState\<close> is a \<open>TypedDict\<close> with \<open>total=False\<close>: a key that may be missing is an option, and a
  key whose reader supplies a default holds that default. A node returns a partial dictionary; its
  keys are the \<open>Some\<close> fields of \<open>state_update\<close>, and \<open>apply_update\<close> merges them with the reducer
  that \<open>GraphState\<close> declares for each key. The locale \<open>reducer\<close> states what the parallel fanout
  needs from such a reducer; list concatenation and the task merge interpret it.
\<close>

section \<open>Enums (\<open>enums.py\<close>)\<close>

datatype semantic_unit_kind =
  Kind_ENDPOINT | Kind_SERVICE | Kind_DATA_MODEL | Kind_REPOSITORY | Kind_MIDDLEWARE
  | Kind_CONFIG | Kind_UTILITY

fun kind_value :: "semantic_unit_kind \<Rightarrow> string" where
  "kind_value Kind_ENDPOINT = ''endpoint''"
| "kind_value Kind_SERVICE = ''service''"
| "kind_value Kind_DATA_MODEL = ''data_model''"
| "kind_value Kind_REPOSITORY = ''repository''"
| "kind_value Kind_MIDDLEWARE = ''middleware''"
| "kind_value Kind_CONFIG = ''config''"
| "kind_value Kind_UTILITY = ''utility''"

datatype task_status =
  St_PENDING | St_IN_PROGRESS | St_SUCCEEDED | St_FAILED | St_RETRYING | St_SKIPPED | St_NEEDS_HUMAN

fun status_value :: "task_status \<Rightarrow> string" where
  "status_value St_PENDING = ''pending''"
| "status_value St_IN_PROGRESS = ''in_progress''"
| "status_value St_SUCCEEDED = ''succeeded''"
| "status_value St_FAILED = ''failed''"
| "status_value St_RETRYING = ''retrying''"
| "status_value St_SKIPPED = ''skipped''"
| "status_value St_NEEDS_HUMAN = ''needs_human''"

datatype test_outcome = Out_PASSED | Out_FAILED | Out_ERROR | Out_TIMEOUT | Out_NOT_RUN

fun outcome_value :: "test_outcome \<Rightarrow> string" where
  "outcome_value Out_PASSED = ''passed''"
| "outcome_value Out_FAILED = ''failed''"
| "outcome_value Out_ERROR = ''error''"
| "outcome_value Out_TIMEOUT = ''timeout''"
| "outcome_value Out_NOT_RUN = ''not_run''"

datatype migration_phase =
  Ph_COMPREHENSION | Ph_SYNTHESIS_PLANNING | Ph_EDITING | Ph_TESTING | Ph_ERROR_ANALYSIS
  | Ph_AGGREGATING | Ph_AWAITING_APPROVAL | Ph_PR_GENERATION | Ph_DONE | Ph_REJECTED | Ph_FAILED
  | Ph_ABORTED_BUDGET | Ph_NEEDS_HUMAN

fun phase_value :: "migration_phase \<Rightarrow> string" where
  "phase_value Ph_COMPREHENSION = ''comprehension''"
| "phase_value Ph_SYNTHESIS_PLANNING = ''synthesis_planning''"
| "phase_value Ph_EDITING = ''editing''"
| "phase_value Ph_TESTING = ''testing''"
| "phase_value Ph_ERROR_ANALYSIS = ''error_analysis''"
| "phase_value Ph_AGGREGATING = ''aggregating''"
| "phase_value Ph_AWAITING_APPROVAL = ''awaiting_approval''"
| "phase_value Ph_PR_GENERATION = ''pr_generation''"
| "phase_value Ph_DONE = ''done''"
| "phase_value Ph_REJECTED = ''rejected''"
| "phase_value Ph_FAILED = ''failed''"
| "phase_value Ph_ABORTED_BUDGET = ''aborted_budget''"
| "phase_value Ph_NEEDS_HUMAN = ''needs_human''"

section \<open>The intermediate representation (\<open>ir.py\<close>)\<close>

record parameter_spec =
  ps_name :: string
  ps_type_description :: string
  ps_source_location :: string

record field_spec =
  fs_name :: string
  fs_type_description :: string
  fs_constraints :: "string list"

record data_model_unit =
  dm_name :: string
  dm_description :: string
  dm_fields :: "field_spec list"
  dm_relationships :: "string list"

record endpoint_unit =
  ep_name :: string
  ep_http_method :: string
  ep_path :: string
  ep_description :: string
  ep_parameters :: "parameter_spec list"
  ep_request_body_model :: "string option"
  ep_response_model :: "string option"
  ep_auth_requirement :: "string option"
  ep_calls_services :: "string list"
  ep_business_logic_summary :: string

record service_unit =
  sv_name :: string
  sv_description :: string
  sv_depends_on :: "string list"
  sv_business_logic_summary :: string

record repository_unit =
  rp_name :: string
  rp_description :: string
  rp_target_data_model :: string
  rp_operations :: "string list"

record middleware_unit =
  mw_name :: string
  mw_description :: string
  mw_trigger_scope :: string
  mw_behavior_summary :: string

text \<open>The payload union; a plain \<open>dict\<close> is kept as its printed form, the only use made of it.\<close>

datatype payload =
    Endpoint_Unit endpoint_unit
  | Service_Unit service_unit
  | Data_Model_Unit data_model_unit
  | Repository_Unit repository_unit
  | Middleware_Unit middleware_unit
  | Dict_Payload string

text \<open>\<open>getattr(payload, "name", None)\<close>: a \<open>dict\<close> has no such attribute.\<close>

fun payload_name :: "payload \<Rightarrow> string option" where
  "payload_name (Endpoint_Unit p) = Some (ep_name p)"
| "payload_name (Service_Unit p) = Some (sv_name p)"
| "payload_name (Data_Model_Unit p) = Some (dm_name p)"
| "payload_name (Repository_Unit p) = Some (rp_name p)"
| "payload_name (Middleware_Unit p) = Some (mw_name p)"
| "payload_name (Dict_Payload d) = None"

type_synonym hints = "(string \<times> string) list"

record semantic_unit =
  su_id :: string
  su_kind :: semantic_unit_kind
  su_source_files :: "string list"
  su_depends_on_unit_ids :: "string list"
  su_payload :: payload
  su_stack_specific_hints :: hints

record comprehension_result =
  cr_source_stack :: string
  cr_repo_root :: string
  cr_units :: "semantic_unit list"
  cr_global_notes :: "string list"
  cr_unresolved_ambiguities :: "string list"

section \<open>Tasks and results (\<open>tasks.py\<close>, \<open>pr.py\<close>)\<close>

record target_file_spec =
  tf_path :: string
  tf_purpose :: string

record migration_task =
  mt_id :: string
  mt_source_unit_ids :: "string list"
  mt_target_files :: "target_file_spec list"
  mt_depends_on_task_ids :: "string list"
  mt_synthesis_instructions :: string
  mt_status :: task_status
  mt_retry_count :: int
  mt_max_retries :: int

record file_diff =
  fd_path :: string
  fd_content :: string
  fd_is_new_file :: bool

record editor_result =
  er_task_id :: string
  er_diffs :: "file_diff list"
  er_editor_notes :: string
  er_tokens_used :: int
  er_produced_at :: rat

record test_result =
  tr_task_id :: "string option"
  tr_outcome :: test_outcome
  tr_raw_output :: string
  tr_failing_tests :: "string list"
  tr_duration_seconds :: rat

record error_analysis =
  ea_task_id :: string
  ea_root_cause_summary :: string
  ea_is_retryable :: bool
  ea_suggested_fix_instructions :: "string option"
  ea_requires_replan :: bool

record pr_draft =
  pd_title :: string
  pd_body :: string
  pd_branch_name :: string
  pd_commit_message :: string

section \<open>The budget record (\<open>budget.py\<close>; its methods are in the theory \<open>Budget\<close>)\<close>

record budget_state =
  bs_max_usd :: rat
  bs_spent_usd :: rat
  bs_max_llm_calls :: int
  bs_llm_calls_made :: int
  bs_max_wall_clock_seconds :: int
  bs_started_at :: rat
  bs_max_call_cost_usd :: rat
  bs_default_call_reserve_usd :: rat

section \<open>The graph state (\<open>graph_state.py\<close>)\<close>

text \<open>
  The approval flag and the base branch are read with defaults (\<open>config.get(key, default)\<close>), so
  the model keeps whether the key is present.
\<close>

record run_config =
  rc_run_id :: string
  rc_source_repo_url :: string
  rc_source_ref :: string
  rc_source_stack :: string
  rc_target_stack :: string
  rc_scope_description :: string
  rc_github_target_repo :: "string option"
  rc_require_human_approval_before_pr :: "bool option"
  rc_local_checkout_path :: string
  rc_target_workspace_path :: string
  rc_target_base_branch :: "string option"

record graph_state =
  gs_config :: "run_config option"
  gs_phase :: "migration_phase option"
  gs_comprehension :: "comprehension_result option"
  gs_tasks :: "migration_task list"
  gs_editor_results :: "editor_result list"
  gs_test_results :: "test_result list"
  gs_error_analyses :: "error_analysis list"
  gs_current_task :: "migration_task option"
  gs_budget_deltas :: "rat list"
  gs_budget_deltas_consumed :: nat
  gs_aggregated_diff_paths :: "string list"
  gs_full_suite_result :: "test_result option"
  gs_pr_draft :: "pr_draft option"
  gs_pr_url :: "string option"
  gs_pr_branch_name :: "string option"
  gs_approval_status :: "string option"
  gs_budget :: "budget_state option"
  gs_retry_round :: int
  gs_max_retry_rounds :: "int option"
  gs_human_feedback :: "string option"
  gs_error_log :: "string list"

definition empty_state :: graph_state where
  "empty_state = \<lparr>gs_config = None, gs_phase = None, gs_comprehension = None, gs_tasks = [],
     gs_editor_results = [], gs_test_results = [], gs_error_analyses = [], gs_current_task = None,
     gs_budget_deltas = [], gs_budget_deltas_consumed = 0, gs_aggregated_diff_paths = [],
     gs_full_suite_result = None, gs_pr_draft = None, gs_pr_url = None, gs_pr_branch_name = None,
     gs_approval_status = None, gs_budget = None, gs_retry_round = 0, gs_max_retry_rounds = None,
     gs_human_feedback = None, gs_error_log = []\<rparr>"

text \<open>The dictionary a node returns: \<open>None\<close> is an absent key.\<close>

record state_update =
  up_phase :: "migration_phase option"
  up_comprehension :: "comprehension_result option"
  up_tasks :: "migration_task list option"
  up_editor_results :: "editor_result list option"
  up_test_results :: "test_result list option"
  up_budget_deltas :: "rat list option"
  up_budget_deltas_consumed :: "nat option"
  up_aggregated_diff_paths :: "string list option"
  up_full_suite_result :: "test_result option"
  up_pr_draft :: "pr_draft option"
  up_pr_url :: "string option"
  up_pr_branch_name :: "string option"
  up_approval_status :: "string option"
  up_budget :: "budget_state option"
  up_retry_round :: "int option"
  up_human_feedback :: "string option option"
  up_error_log :: "string list option"

definition no_update :: state_update where
  "no_update = \<lparr>up_phase = None, up_comprehension = None, up_tasks = None, up_editor_results = None,
     up_test_results = None, up_budget_deltas = None, up_budget_deltas_consumed = None,
     up_aggregated_diff_paths = None, up_full_suite_result = None, up_pr_draft = None,
     up_pr_url = None, up_pr_branch_name = None, up_approval_status = None, up_budget = None,
     up_retry_round = None, up_human_feedback = None, up_error_log = None\<rparr>"

lemmas state_defs = empty_state_def no_update_def

subsection \<open>Reducers\<close>

definition merge_task_lists :: "migration_task list \<Rightarrow> migration_task list \<Rightarrow> migration_task list" where
  "merge_task_lists existing new =
     (let by_id = foldl (\<lambda>d t. dict_put (mt_id t) t d) [] existing;
          by_id = foldl (\<lambda>d t. dict_put (mt_id t) t d) by_id new
      in dict_vals by_id)"

text \<open>An absent key leaves a channel alone; a present one overwrites it or goes through the reducer.\<close>

definition overwrite :: "'a \<Rightarrow> 'a option \<Rightarrow> 'a" where
  "overwrite old new = (case new of None \<Rightarrow> old | Some v \<Rightarrow> v)"

definition overwrite_opt :: "'a option \<Rightarrow> 'a option \<Rightarrow> 'a option" where
  "overwrite_opt old new = (case new of None \<Rightarrow> old | Some v \<Rightarrow> Some v)"

definition reduce_with :: "('a \<Rightarrow> 'b \<Rightarrow> 'a) \<Rightarrow> 'a \<Rightarrow> 'b option \<Rightarrow> 'a" where
  "reduce_with f old new = (case new of None \<Rightarrow> old | Some v \<Rightarrow> f old v)"

lemma channel_simps [simp]:
  "overwrite x None = x" "overwrite x (Some y) = y"
  "overwrite_opt ox None = ox" "overwrite_opt ox (Some z) = Some z"
  "reduce_with f x None = x" "reduce_with f x (Some b) = f x b"
  by (simp_all add: overwrite_def overwrite_opt_def reduce_with_def)

definition apply_update :: "graph_state \<Rightarrow> state_update \<Rightarrow> graph_state" where
  "apply_update s u = s\<lparr>
     gs_phase := overwrite_opt (gs_phase s) (up_phase u),
     gs_comprehension := overwrite_opt (gs_comprehension s) (up_comprehension u),
     gs_tasks := reduce_with merge_task_lists (gs_tasks s) (up_tasks u),
     gs_editor_results := reduce_with (@) (gs_editor_results s) (up_editor_results u),
     gs_test_results := reduce_with (@) (gs_test_results s) (up_test_results u),
     gs_budget_deltas := reduce_with (@) (gs_budget_deltas s) (up_budget_deltas u),
     gs_budget_deltas_consumed := overwrite (gs_budget_deltas_consumed s) (up_budget_deltas_consumed u),
     gs_aggregated_diff_paths := overwrite (gs_aggregated_diff_paths s) (up_aggregated_diff_paths u),
     gs_full_suite_result := overwrite_opt (gs_full_suite_result s) (up_full_suite_result u),
     gs_pr_draft := overwrite_opt (gs_pr_draft s) (up_pr_draft u),
     gs_pr_url := overwrite_opt (gs_pr_url s) (up_pr_url u),
     gs_pr_branch_name := overwrite_opt (gs_pr_branch_name s) (up_pr_branch_name u),
     gs_approval_status := overwrite_opt (gs_approval_status s) (up_approval_status u),
     gs_budget := overwrite_opt (gs_budget s) (up_budget u),
     gs_retry_round := overwrite (gs_retry_round s) (up_retry_round u),
     gs_human_feedback := overwrite (gs_human_feedback s) (up_human_feedback u),
     gs_error_log := reduce_with (@) (gs_error_log s) (up_error_log u)\<rparr>"

end
