(* ===== verification/Workspace.thy ===== *)
theory Workspace
  imports Graph_State
begin

text \<open>
  \<open>app/sandbox/workspace.py\<close>: resolving untrusted paths, removing superseded files and applying
  diffs. The file system is an association list from absolute paths to nodes, and the operating
  system calls of the source are written out on it: \<open>os.makedirs(p, exist_ok=True)\<close>,
  \<open>open(p, "w").write\<close>, \<open>os.path.isfile\<close>, \<open>os.path.islink\<close>, \<open>os.remove\<close>. \<open>os.path.realpath\<close>
  depends on the symbolic links of the machine and is the parameter \<open>realpath\<close>; \<open>plain_realpath\<close> is
  what it computes on a file system without symbolic links.
\<close>

section \<open>Paths\<close>

definition path_join :: "string \<Rightarrow> string \<Rightarrow> string" where
  "path_join a b =
     (if prefix ''/'' b then b
      else if a = [] \<or> suffix ''/'' a then a @ b
      else a @ ''/'' @ b)"

text \<open>\<open>os.path.dirname\<close>: everything before the last slash (trailing slashes removed, unless all).\<close>

definition dirname :: "string \<Rightarrow> string" where
  "dirname p =
     (let head = rev (dropWhile (\<lambda>c. c \<noteq> CHR ''/'') (rev p));
          stripped = rev (dropWhile (\<lambda>c. c = CHR ''/'') (rev head))
      in if stripped = [] then head else stripped)"

fun resolve_dots :: "string list \<Rightarrow> string list \<Rightarrow> string list" where
  "resolve_dots acc [] = rev acc"
| "resolve_dots acc (seg # segs) =
     (if seg = [] \<or> seg = ''.'' then resolve_dots acc segs
      else if seg = ''..'' then resolve_dots (tl acc) segs
      else resolve_dots (seg # acc) segs)"

definition plain_realpath :: "string \<Rightarrow> string" where
  "plain_realpath p = ''/'' @ str_join ''/'' (resolve_dots [] (py_split (CHR ''/'') p))"

section \<open>The file system\<close>

datatype fs_node = File string | Dir | Link

type_synonym fs = "(string \<times> fs_node) list"

text \<open>\<open>p\<close> and its ancestors, the outermost first.\<close>

definition ancestors :: "string \<Rightarrow> string list" where
  "ancestors p = map (\<lambda>n. take n p)
     (filter (\<lambda>n. n = length p \<or> p ! n = CHR ''/'') [1..<Suc (length p)])"

fun make_dirs :: "string list \<Rightarrow> fs \<Rightarrow> fs result" where
  "make_dirs [] f = Inr f"
| "make_dirs (d # ds) f =
     (case map_of f d of
        None \<Rightarrow> make_dirs ds (dict_put d Dir f)
      | Some Dir \<Rightarrow> make_dirs ds f
      | Some _ \<Rightarrow> Inl (ForeignError ''FileExistsError'' d))"

definition makedirs :: "string \<Rightarrow> fs \<Rightarrow> fs result" where
  "makedirs p f = make_dirs (ancestors p) f"

definition write_file :: "string \<Rightarrow> string \<Rightarrow> fs \<Rightarrow> fs result" where
  "write_file p content f =
     (if map_of f p = Some Dir then Inl (ForeignError ''IsADirectoryError'' p)
      else Inr (dict_put p (File content) f))"

definition is_file :: "fs \<Rightarrow> string \<Rightarrow> bool" where
  "is_file f p \<longleftrightarrow> (case map_of f p of Some (File _) \<Rightarrow> True | _ \<Rightarrow> False)"

definition is_link :: "fs \<Rightarrow> string \<Rightarrow> bool" where
  "is_link f p \<longleftrightarrow> map_of f p = Some Link"

definition remove_file :: "string \<Rightarrow> fs \<Rightarrow> fs" where
  "remove_file p f = AList.delete p f"

section \<open>Operations of the workspace\<close>

definition resolve_safe_path :: "(string \<Rightarrow> string) \<Rightarrow> string \<Rightarrow> string \<Rightarrow> string result" where
  "resolve_safe_path realpath workspace_root relative_path =
     (if prefix ''/'' relative_path
      then Inl (UnsafeDiffPathError
             (''Diff path must be relative, got absolute path: '' @ py_repr relative_path))
      else let workspace_root_real = realpath workspace_root;
               candidate = realpath (path_join workspace_root_real relative_path)
           in if candidate \<noteq> workspace_root_real \<and> \<not> prefix (workspace_root_real @ ''/'') candidate
              then Inl (UnsafeDiffPathError (''Diff path '' @ py_repr relative_path
                     @ '' resolves outside the workspace root ('' @ workspace_root @ '')''))
              else Inr candidate)"

fun remove_resolved :: "(string \<times> string) list \<Rightarrow> fs \<Rightarrow> fs \<times> string list" where
  "remove_resolved [] f = (f, [])"
| "remove_resolved ((rel, full) # rest) f =
     (if is_file f full \<or> is_link f full
      then let (f', removed) = remove_resolved rest (remove_file full f) in (f', rel # removed)
      else remove_resolved rest f)"

definition remove_paths ::
  "(string \<Rightarrow> string) \<Rightarrow> string \<Rightarrow> string list \<Rightarrow> fs \<Rightarrow> (fs \<times> string list) result" where
  "remove_paths realpath workspace_root paths f =
     try_bind (try_map (\<lambda>p. try_bind (resolve_safe_path realpath workspace_root p) (\<lambda>full. Inr (p, full))) paths)
       (\<lambda>resolved. Inr (remove_resolved resolved f))"

fun write_resolved :: "(string \<times> file_diff) list \<Rightarrow> fs \<Rightarrow> fs \<times> string list result" where
  "write_resolved [] f = (f, Inr [])"
| "write_resolved ((full_path, diff) # rest) f =
     (case makedirs (dirname full_path) f of
        Inl e \<Rightarrow> (f, Inl e)
      | Inr f1 \<Rightarrow>
          (case write_file full_path (fd_content diff) f1 of
             Inl e \<Rightarrow> (f1, Inl e)
           | Inr f2 \<Rightarrow> (let (f3, written) = write_resolved rest f2
                        in (f3, try_bind written (\<lambda>ws. Inr (fd_path diff # ws))))))"

text \<open>An exception leaves whatever was written so far, so the file system is returned with it.\<close>

definition apply_diffs ::
  "(string \<Rightarrow> string) \<Rightarrow> string \<Rightarrow> file_diff list \<Rightarrow> fs \<Rightarrow> fs \<times> string list result" where
  "apply_diffs realpath workspace_root file_diffs f =
     (case makedirs workspace_root f of
        Inl e \<Rightarrow> (f, Inl e)
      | Inr f1 \<Rightarrow>
          (case try_map (\<lambda>d. try_bind (resolve_safe_path realpath workspace_root (fd_path d))
                                (\<lambda>full. Inr (full, d))) file_diffs of
             Inl e \<Rightarrow> (f1, Inl e)
           | Inr resolved \<Rightarrow> write_resolved resolved f1))"

section \<open>What the operations do to files\<close>

named_theorems fs_simps "contents of files after an operation"

definition file_at :: "fs \<Rightarrow> string \<Rightarrow> string option" where
  "file_at f p = (case map_of f p of Some (File c) \<Rightarrow> Some c | _ \<Rightarrow> None)"

lemma new_dir_file_at: "map_of f d = None \<Longrightarrow> file_at (dict_put d Dir f) q = file_at f q"
  by (auto simp: file_at_def update_conv)

lemma make_dirs_file_at: "make_dirs ds f = Inr f' \<Longrightarrow> file_at f' q = file_at f q"
  by (induction ds f rule: make_dirs.induct)
    (auto simp: new_dir_file_at split: option.splits fs_node.splits)

lemma makedirs_file_at [fs_simps]: "makedirs p f = Inr f' \<Longrightarrow> file_at f' q = file_at f q"
  unfolding makedirs_def by (rule make_dirs_file_at)

lemma write_file_at [fs_simps]:
  "write_file p c f = Inr f' \<Longrightarrow> file_at f' q = (if q = p then Some c else file_at f q)"
  by (auto simp: write_file_def file_at_def update_conv split: if_splits)

lemma remove_file_at [fs_simps]: "file_at (remove_file p f) q = (if q = p then None else file_at f q)"
  by (simp add: remove_file_def file_at_def delete_conv)


lemma write_resolved_Inr:
  "write_resolved rs f = (f', Inr ws) \<Longrightarrow>
     ws = map (fd_path \<circ> snd) rs \<and>
     file_at f' q = (case find_last (\<lambda>r. fst r = q) rs of
                       Some r \<Rightarrow> Some (fd_content (snd r)) | None \<Rightarrow> file_at f q)"
proof (induction rs f arbitrary: f' ws rule: write_resolved.induct)
  case (1 f)
  then show ?case by simp
next
  case (2 full diff rest f)
  from 2(2) obtain f1 f2 ws' where
    f1: "makedirs (dirname full) f = Inr f1" and f2: "write_file full (fd_content diff) f1 = Inr f2"
    and rest: "write_resolved rest f2 = (f', Inr ws')" and ws: "ws = fd_path diff # ws'"
    by (auto split: sum.splits prod.splits)
  from 2(1) [OF f1 f2 rest] ws show ?case
    by (auto simp: find_last_Cons makedirs_file_at [OF f1] write_file_at [OF f2] split: option.splits)
qed

text \<open>Whether it succeeds or fails half way, only resolved paths change.\<close>

lemma write_resolved_frame:
  "q \<notin> fst ` set rs \<Longrightarrow> file_at (fst (write_resolved rs f)) q = file_at f q"
proof (induction rs f rule: write_resolved.induct)
  case (1 f)
  then show ?case by simp
next
  case (2 full diff rest f)
  show ?case
  proof (cases "makedirs (dirname full) f")
    case (Inr f1)
    note f1 = Inr
    show ?thesis
    proof (cases "write_file full (fd_content diff) f1")
      case (Inr f2)
      have q: "q \<noteq> full" "q \<notin> fst ` set rest" using 2(2) by auto
      have "fst (write_resolved ((full, diff) # rest) f) = fst (write_resolved rest f2)"
        using f1 Inr by (simp add: case_prod_beta)
      then show ?thesis
        using 2(1) [OF f1 Inr q(2)] q(1) by (simp add: makedirs_file_at [OF f1] write_file_at [OF Inr])
    qed (use f1 in \<open>simp add: makedirs_file_at [OF f1]\<close>)
  qed simp
qed

lemma remove_resolved_file_at:
  "file_at (fst (remove_resolved rs f)) q = (if q \<in> snd ` set rs then None else file_at f q)"
proof (induction rs f rule: remove_resolved.induct)
  case (1 f)
  then show ?case by simp
next
  case (2 rel full rest f)
  show ?case
  proof (cases "is_file f full \<or> is_link f full")
    case True
    then have "fst (remove_resolved ((rel, full) # rest) f) =
        fst (remove_resolved rest (remove_file full f))"
      by (simp add: case_prod_beta)
    then show ?thesis using 2(1) [OF True] by (simp add: remove_file_at)
  next
    case False
    then have "file_at f full = None"
      by (auto simp: file_at_def is_file_def split: option.splits fs_node.splits)
    then show ?thesis using 2(2) [OF False] False by simp
  qed
qed

section \<open>Safety of resolution\<close>

definition inside :: "string \<Rightarrow> string \<Rightarrow> bool" where
  "inside base p \<longleftrightarrow> p = base \<or> prefix (base @ ''/'') p"

lemma resolve_inside: "resolve_safe_path realpath ws p = Inr full \<Longrightarrow> inside (realpath ws) full"
  by (auto simp: resolve_safe_path_def inside_def Let_def split: if_splits)

lemma resolve_Inl_unsafe:
  "resolve_safe_path realpath ws p = Inl e \<Longrightarrow> \<exists>m. e = UnsafeDiffPathError m"
  by (auto simp: resolve_safe_path_def Let_def split: if_splits)

abbreviation resolve_diff ::
  "(string \<Rightarrow> string) \<Rightarrow> string \<Rightarrow> file_diff \<Rightarrow> (string \<times> file_diff) result" where
  "resolve_diff realpath ws d \<equiv>
     try_bind (resolve_safe_path realpath ws (fd_path d)) (\<lambda>full. Inr (full, d))"

lemma resolved_pairs:
  assumes "try_map (resolve_diff realpath ws) ds = Inr rs"
  shows "map snd rs = ds" and "\<forall>(full, d) \<in> set rs. resolve_safe_path realpath ws (fd_path d) = Inr full"
  using assms unfolding try_map_Inr by (induction rule: list_all2_induct) auto

lemma removed_pairs:
  assumes "try_map (\<lambda>p. try_bind (resolve_safe_path realpath ws p) (\<lambda>full. Inr (p, full))) ps = Inr rs"
  shows "map fst rs = ps" and "\<forall>(p, full) \<in> set rs. resolve_safe_path realpath ws p = Inr full"
  using assms unfolding try_map_Inr by (induction rule: list_all2_induct) auto

lemma apply_diffs_outside:
  assumes "\<not> inside (realpath ws) q"
  shows "file_at (fst (apply_diffs realpath ws ds f)) q = file_at f q"
proof (cases "makedirs ws f")
  case (Inr f1)
  note f1 = Inr
  show ?thesis
  proof (cases "try_map (resolve_diff realpath ws) ds")
    case (Inr rs)
    have "q \<notin> fst ` set rs"
      using resolved_pairs(2) [OF Inr] resolve_inside assms by fastforce
    then show ?thesis
      using f1 Inr by (simp add: apply_diffs_def write_resolved_frame makedirs_file_at [OF f1])
  qed (use f1 in \<open>simp add: apply_diffs_def makedirs_file_at [OF f1]\<close>)
qed (simp add: apply_diffs_def)

text \<open>One unsafe path and no file is touched.\<close>

lemma apply_diffs_all_or_nothing:
  assumes "d \<in> set ds" "resolve_safe_path realpath ws (fd_path d) = Inl e"
  shows "file_at (fst (apply_diffs realpath ws ds f)) q = file_at f q"
    and "\<exists>e'. snd (apply_diffs realpath ws ds f) = Inl e'"
proof -
  have bad: "resolve_diff realpath ws d = Inl e" using assms(2) by simp
  obtain e' where "try_map (resolve_diff realpath ws) ds = Inl e'"
    using try_map_raises [of d ds "resolve_diff realpath ws", OF assms(1) bad] by (elim exE)
  then show "file_at (fst (apply_diffs realpath ws ds f)) q = file_at f q"
    and "\<exists>e'. snd (apply_diffs realpath ws ds f) = Inl e'"
    by (auto simp: apply_diffs_def makedirs_file_at split: sum.splits)
qed

section \<open>Resolution without symbolic links\<close>

lemma split_append: "py_split c (s @ c # t) = py_split c s @ py_split c t"
  by (induction s) (auto split: list.splits)

lemma resolve_dots_append:
  "resolve_dots acc (xs @ ys) = resolve_dots (rev (resolve_dots acc xs)) ys"
  by (induction xs arbitrary: acc) simp_all

definition plain_segments :: "string list \<Rightarrow> bool" where
  "plain_segments segs \<longleftrightarrow>
     (\<forall>seg \<in> set segs. seg \<notin> {'''', ''.'', ''..''} \<and> CHR ''/'' \<notin> set seg)"

lemma resolve_dots_plain: "plain_segments segs \<Longrightarrow> resolve_dots acc segs = rev acc @ segs"
  by (induction segs arbitrary: acc) (simp_all add: plain_segments_def)

lemma resolve_dots_result:
  assumes "plain_segments (rev acc)" "\<forall>seg \<in> set segs. CHR ''/'' \<notin> set seg"
  shows "plain_segments (resolve_dots acc segs)"
  using assms
proof (induction segs arbitrary: acc)
  case Nil
  then show ?case by simp
next
  case (Cons seg segs)
  have rest: "\<forall>seg \<in> set segs. CHR ''/'' \<notin> set seg" and seg: "CHR ''/'' \<notin> set seg"
    using Cons.prems(2) by simp_all
  have "plain_segments (rev (tl acc))"
    using Cons.prems(1) by (cases acc) (simp_all add: plain_segments_def)
  moreover have "plain_segments (rev (seg # acc))" if "seg \<notin> {'''', ''.'', ''..''}"
    using Cons.prems(1) seg that by (simp add: plain_segments_def)
  ultimately show ?case
    using Cons.IH [OF _ rest] Cons.prems(1) by (simp del: rev.simps)
qed

lemma join_append:
  "xs \<noteq> [] \<Longrightarrow> ys \<noteq> [] \<Longrightarrow> str_join sep (xs @ ys) = str_join sep xs @ sep @ str_join sep ys"
proof (induction sep xs rule: str_join.induct)
  case (2 sep s)
  then show ?case by (cases ys) auto
qed auto

lemma split_join_plain:
  "plain_segments segs \<Longrightarrow> segs \<noteq> [] \<Longrightarrow> py_split (CHR ''/'') (str_join ''/'' segs) = segs"
proof (induction "''/''" segs rule: str_join.induct)
  case (3 s t ss)
  then show ?case
    by (simp add: plain_segments_def py_split_append)
qed (auto simp: plain_segments_def py_split_eq_single)

text \<open>The segments of a resolved path, and why it does not end in a slash.\<close>

abbreviation real_segments :: "string \<Rightarrow> string list" where
  "real_segments ws \<equiv> resolve_dots [] (py_split (CHR ''/'') ws)"

lemma real_segments_plain: "plain_segments (real_segments ws)"
  by (rule resolve_dots_result) (auto simp: plain_segments_def split_no_sep)

lemma real_segments_ne: "plain_realpath ws \<noteq> ''/'' \<Longrightarrow> real_segments ws \<noteq> []"
  by (auto simp: plain_realpath_def)

lemma split_plain_realpath:
  "plain_realpath ws \<noteq> ''/'' \<Longrightarrow> py_split (CHR ''/'') (plain_realpath ws) = [] # real_segments ws"
  using split_join_plain [OF real_segments_plain real_segments_ne] by (simp add: plain_realpath_def)

lemma plain_realpath_no_slash_end:
  assumes "plain_realpath ws \<noteq> ''/''"
  shows "\<not> suffix ''/'' (plain_realpath ws)"
proof
  assume "suffix ''/'' (plain_realpath ws)"
  then obtain t where "plain_realpath ws = t @ CHR ''/'' # []" by (auto simp: suffix_def)
  then have "last (py_split (CHR ''/'') (plain_realpath ws)) = []" by (simp add: split_append)
  then have "last (real_segments ws) = []"
    using real_segments_ne [OF assms] by (simp add: split_plain_realpath [OF assms])
  moreover have "last (real_segments ws) \<in> set (real_segments ws)"
    using real_segments_ne [OF assms] by simp
  ultimately show False using real_segments_plain [of ws] by (auto simp: plain_segments_def)
qed

text \<open>A relative path of plain segments resolves to itself below the root.\<close>

lemma plain_not_absolute: "plain_segments (py_split (CHR ''/'') p) \<Longrightarrow> \<not> prefix ''/'' p"
proof
  assume p: "plain_segments (py_split (CHR ''/'') p)" and "prefix ''/'' p"
  then obtain q where "p = CHR ''/'' # q" unfolding prefix_def by force
  then have "[] \<in> set (py_split (CHR ''/'') p)" by simp
  with p show False unfolding plain_segments_def by blast
qed

lemma plain_realpath_below:
  assumes root: "plain_realpath ws \<noteq> ''/''" and p: "plain_segments (py_split (CHR ''/'') p)"
  shows "plain_realpath (path_join (plain_realpath ws) p) = plain_realpath ws @ ''/'' @ p"
proof -
  let ?L = "real_segments ws"
  have "py_split (CHR ''/'') (path_join (plain_realpath ws) p) = ([] # ?L) @ py_split (CHR ''/'') p"
    using plain_not_absolute [OF p] plain_realpath_no_slash_end [OF root]
      split_append [of "CHR ''/''" "plain_realpath ws" p]
    by (simp add: path_join_def split_plain_realpath [OF root]) (simp add: plain_realpath_def)
  then have "resolve_dots [] (py_split (CHR ''/'') (path_join (plain_realpath ws) p)) =
      ?L @ py_split (CHR ''/'') p"
    using real_segments_plain [of ws] p by (simp add: resolve_dots_append resolve_dots_plain)
  then show ?thesis
    using real_segments_ne [OF root] by (simp add: plain_realpath_def join_append join_split)
qed

lemma resolve_plain:
  assumes "plain_realpath ws \<noteq> ''/''" and "plain_segments (py_split (CHR ''/'') p)"
  shows "resolve_safe_path plain_realpath ws p = Inr (plain_realpath ws @ ''/'' @ p)"
  using plain_realpath_below [OF assms] plain_not_absolute [OF assms(2)]
  by (simp add: resolve_safe_path_def Let_def)

end
