(* ===== verification/Adapters.thy ===== *)
theory Adapters
  imports Text_Utils Workspace
begin

text \<open>
  \<open>app/adapters\<close>: the Spring Boot source adapter (file discovery under a scope, the extraction
  prompt, naming), the FastAPI target adapters (paths and conventions for synthesis, commands and
  result parsing for tests) and the registries. A source tree is a \<open>dir_tree\<close> in the order
  \<open>os.walk\<close> visits it; a file whose text cannot be read or decoded has content \<open>None\<close>. The abstract
  adapter classes are records of operations; the locale \<open>test_adapter\<close> states the contract of a
  target test adapter that the sandbox runner relies on.
\<close>

section \<open>Discovered files and the source adapter interface (\<open>base.py\<close>)\<close>

record discovered_file =
  df_path :: string
  df_relative_path :: string
  df_likely_kind :: "semantic_unit_kind option"
  df_content :: string

datatype dir_tree = Dir_Tree "(string \<times> string option) list" "(string \<times> dir_tree) list"

fun tree_files :: "dir_tree \<Rightarrow> (string \<times> string option) list" where
  "tree_files (Dir_Tree files dirs) = files"

fun tree_dirs :: "dir_tree \<Rightarrow> (string \<times> dir_tree) list" where
  "tree_dirs (Dir_Tree files dirs) = dirs"

text \<open>\<open>discover_files\<close> gets the path of the repository root and the tree found there.\<close>

record source_adapter =
  sa_stack_key :: string
  sa_display_name :: string
  sa_discover_files :: "string \<Rightarrow> dir_tree \<Rightarrow> string \<Rightarrow> discovered_file list"
  sa_build_extraction_prompt :: "discovered_file \<Rightarrow> string"
  sa_guess_unit_name :: "discovered_file \<Rightarrow> string"

section \<open>Spring Boot (\<open>springboot/source_adapter.py\<close>)\<close>

definition annotation_to_kind :: "(string \<times> semantic_unit_kind) list" where
  "annotation_to_kind =
    [(''@RestController'', Kind_ENDPOINT), (''@Controller'', Kind_ENDPOINT),
     (''@Service'', Kind_SERVICE), (''@Component'', Kind_SERVICE),
     (''@Repository'', Kind_REPOSITORY),
     (''@Entity'', Kind_DATA_MODEL), (''@Embeddable'', Kind_DATA_MODEL),
     (''@ConfigurationProperties'', Kind_CONFIG), (''@Configuration'', Kind_CONFIG),
     (''@Aspect'', Kind_MIDDLEWARE), (''@Interceptor'', Kind_MIDDLEWARE)]"

definition skip_dir_names :: "string list" where
  "skip_dir_names = [''target'', ''build'', ''.git'', ''node_modules'', ''test'', ''tests'']"

definition guess_kind :: "string \<Rightarrow> semantic_unit_kind option" where
  "guess_kind content = map_option snd (find (\<lambda>(annotation, kind). sublist annotation content) annotation_to_kind)"

fun subdir :: "string list \<Rightarrow> dir_tree \<Rightarrow> dir_tree option" where
  "subdir [] t = Some t"
| "subdir (d # ds) t = (case map_of (tree_dirs t) d of None \<Rightarrow> None | Some u \<Rightarrow> subdir ds u)"

definition find_java_source_root :: "dir_tree \<Rightarrow> dir_tree option" where
  "find_java_source_root t = subdir [''src'', ''main'', ''java''] t"

definition extract_scope_terms :: "string \<Rightarrow> string list" where
  "extract_scope_terms scope_description = findall_capitalized False scope_description"

definition matches_scope :: "string \<Rightarrow> string list \<Rightarrow> bool" where
  "matches_scope relative_path scope_terms =
     (\<exists>term \<in> set scope_terms. sublist (py_lower term) (py_lower relative_path))"

text \<open>
  One candidate: its full path, its path relative to the repository, its directory and its content.
\<close>

record candidate =
  cd_full_path :: string
  cd_relative_path :: string
  cd_dir :: string
  cd_content :: "string option"

text \<open>The top-down walk: a directory's Java files, then its subdirectories that are not skipped.\<close>

fun walk :: "string \<Rightarrow> string \<Rightarrow> dir_tree \<Rightarrow> candidate list" where
  "walk dirpath rel (Dir_Tree files dirs) =
     map (\<lambda>(filename, content). \<lparr>cd_full_path = path_join dirpath filename,
            cd_relative_path = path_join rel filename, cd_dir = dirpath, cd_content = content\<rparr>)
       (filter (\<lambda>(filename, content). suffix ''.java'' filename) files)
     @ concat (map (\<lambda>(d, t). if py_lower d \<in> set skip_dir_names then []
                             else walk (path_join dirpath d) (path_join rel d) t) dirs)"

definition spring_discover_files :: "string \<Rightarrow> dir_tree \<Rightarrow> string \<Rightarrow> discovered_file list" where
  "spring_discover_files repo_root tree scope_description =
     (case find_java_source_root tree of
        None \<Rightarrow> []
      | Some java_tree \<Rightarrow>
          let scope_terms = extract_scope_terms scope_description;
              candidates = walk (path_join (path_join (path_join repo_root ''src'') ''main'') ''java'')
                             ''src/main/java'' java_tree;
              anchor_dirs = map cd_dir (filter (\<lambda>c. matches_scope (cd_relative_path c) scope_terms) candidates);
              selected_paths = map cd_full_path
                (if scope_terms = [] then candidates
                 else filter (\<lambda>c. cd_dir c \<in> set anchor_dirs) candidates)
          in List.map_filter (\<lambda>c.
               if cd_full_path c \<in> set selected_paths
               then map_option (\<lambda>content. \<lparr>df_path = cd_full_path c, df_relative_path = cd_relative_path c,
                      df_likely_kind = guess_kind content, df_content = content\<rparr>) (cd_content c)
               else None) candidates)"

subsection \<open>Guessing a unit's name\<close>

text \<open>
  \<open>\b(?:public\s+)?(?:class|interface|record|enum)\s+(\w+)\<close>: the keyword part at the current
  position, then the search for the leftmost position where it matches.
\<close>

definition match_spaces_then_word :: "string \<Rightarrow> string option" where
  "match_spaces_then_word s =
     (let w = takeWhile is_word (dropWhile is_space s)
      in if s = [] \<or> \<not> is_space (hd s) \<or> w = [] then None else Some w)"

definition match_keyword :: "string \<Rightarrow> string option" where
  "match_keyword s =
     (case find (\<lambda>k. prefix k s) [''class'', ''interface'', ''record'', ''enum''] of
        None \<Rightarrow> None
      | Some k \<Rightarrow> match_spaces_then_word (drop (length k) s))"

definition match_class_decl :: "string \<Rightarrow> string option" where
  "match_class_decl s =
     (if prefix ''public'' s
      then (let rest = drop 6 s
            in if rest = [] \<or> \<not> is_space (hd rest) then None
               else match_keyword (dropWhile is_space rest))
      else match_keyword s)"

fun search_class_decl :: "bool \<Rightarrow> string \<Rightarrow> string option" where
  "search_class_decl prev [] = None"
| "search_class_decl prev (c # cs) =
     (if \<not> prev \<and> is_word c \<and> match_class_decl (c # cs) \<noteq> None then match_class_decl (c # cs)
      else search_class_decl (is_word c) cs)"

text \<open>\<open>os.path.basename\<close>, and \<open>os.path.splitext(name)[0]\<close> for a name without slashes.\<close>

definition basename :: "string \<Rightarrow> string" where
  "basename p = last (py_split (CHR ''/'') p)"

definition splitext_root :: "string \<Rightarrow> string" where
  "splitext_root name =
     (let leading = takeWhile (\<lambda>c. c = CHR ''.'') name; rest = dropWhile (\<lambda>c. c = CHR ''.'') name
      in if CHR ''.'' \<in> set rest
         then leading @ str_join ''.'' (butlast (py_split (CHR ''.'') rest)) else name)"

definition spring_guess_unit_name :: "discovered_file \<Rightarrow> string" where
  "spring_guess_unit_name file =
     (case search_class_decl False (df_content file) of
        Some name \<Rightarrow> name
      | None \<Rightarrow> splitext_root (basename (df_path file)))"

subsection \<open>The extraction prompt\<close>

definition spring_prompt_head :: string where
  "spring_prompt_head =
str_join newline
    [''You are analyzing a Spring Boot source file. Extract its semantic'',
     ''content into the IR schema. Spring-specific mapping notes:'',
     '''',
     ''- `@RestController` / `@RequestMapping` methods -> one EndpointUnit per HTTP-mapped'',
     ''  method (`@GetMapping`, `@PostMapping`, etc). The class-level `@RequestMapping`'',
     ''  path prefix must be combined with the method-level path.'',
     ''- `@PathVariable` -> parameter source_location '' @ [CHR 0x22] @ ''path param'' @ [CHR 0x22] @ ''.'',
     ''  `@RequestParam` -> '' @ [CHR 0x22] @ ''query param'' @ [CHR 0x22] @ ''. `@RequestBody` -> the request_body_model.'',
     ''- `@PreAuthorize` / `@Secured` / Spring Security method annotations -> populate'',
     ''  `auth_requirement` in plain language (e.g. '' @ [CHR 0x22] @ ''requires ROLE_ADMIN'' @ [CHR 0x22] @ '').'',
     ''- `@Service` / `@Component` classes -> ServiceUnit. List constructor-injected'',
     ''  dependencies (other services/repositories) in `depends_on`.'',
     ''- `@Repository` interfaces (including Spring Data JPA interfaces like'',
     ''  `JpaRepository<Order, Long>`) -> RepositoryUnit. Derived query methods'',
     ''  (e.g. `findByEmailAndActiveTrue`) should each become one plain-language entry'',
     ''  in `operations`.'',
     ''- `@Entity` classes -> DataModelUnit. JPA relationship annotations'',
     ''  (`@OneToMany`, `@ManyToOne`, etc) -> plain-language entries in `relationships`,'',
     ''  e.g. '' @ [CHR 0x22] @ ''has many OrderItem'' @ [CHR 0x22] @ '' / '' @ [CHR 0x22] @ ''belongs to Account'' @ [CHR 0x22] @ ''. Bean Validation annotations'',
     ''  (`@NotNull`, `@Size`, etc) -> entries in the field'' @ [CHR 0x27] @ ''s `constraints`.'',
     ''- Put anything Spring-idiomatic that doesn'' @ [CHR 0x27] @ ''t map cleanly onto the IR schema'',
     ''  (e.g. `@Transactional` isolation level, `@Async`, AOP details) into'',
     ''  `stack_specific_hints` rather than forcing it into a first-class field.'',
     ''- If a referenced type (e.g. a service this class calls, or a repository'' @ [CHR 0x27] @ ''s'',
     ''  target entity) is defined in another file you haven'' @ [CHR 0x27] @ ''t seen, refer to it by'',
     ''  its plain class name in the relevant field (e.g. `calls_services: ['' @ [CHR 0x22] @ ''OrderService'' @ [CHR 0x22] @ '']`)'',
     ''  '' @ em_dash @ '' a later resolution pass links these by name, you don'' @ [CHR 0x27] @ ''t need to resolve them.'',
     '''',
     ''File: '']"

definition spring_build_extraction_prompt :: "discovered_file \<Rightarrow> string" where
  "spring_build_extraction_prompt file =
     spring_prompt_head @ df_relative_path file @ newline @ newline @ ''```java'' @ newline
     @ df_content file @ newline @ ''```'' @ newline"

definition spring_boot_source_adapter :: source_adapter where
  "spring_boot_source_adapter =
     \<lparr>sa_stack_key = ''springboot'', sa_display_name = ''Spring Boot'',
      sa_discover_files = spring_discover_files,
      sa_build_extraction_prompt = spring_build_extraction_prompt,
      sa_guess_unit_name = spring_guess_unit_name\<rparr>"

section \<open>FastAPI, synthesis side (\<open>fastapi_target/synthesis_adapter.py\<close>)\<close>

record target_synthesis_adapter =
  ts_stack_key :: string
  ts_display_name :: string
  ts_suggest_target_path :: "semantic_unit \<Rightarrow> string"
  ts_convention_notes :: "semantic_unit_kind \<Rightarrow> string"

fun kind_to_dir :: "semantic_unit_kind \<Rightarrow> string" where
  "kind_to_dir Kind_ENDPOINT = ''app/routers''"
| "kind_to_dir Kind_SERVICE = ''app/services''"
| "kind_to_dir Kind_REPOSITORY = ''app/repositories''"
| "kind_to_dir Kind_DATA_MODEL = ''app/schemas''"
| "kind_to_dir Kind_MIDDLEWARE = ''app/middleware''"
| "kind_to_dir Kind_CONFIG = ''app/core''"
| "kind_to_dir Kind_UTILITY = ''app/utils''"

fun convention_notes :: "semantic_unit_kind \<Rightarrow> string" where
  "convention_notes Kind_ENDPOINT = str_join newline
    [''- Define an `APIRouter` (or add to the module'' @ [CHR 0x27] @ ''s existing one) with a sensible `prefix`.'',
     ''- Handlers are `async def`, take request data via Pydantic models (body) or typed'',
     ''  function parameters (path/query params), and return a Pydantic response model or'',
     ''  a plain serializable type.'',
     ''- Auth requirements become a `Depends(...)` dependency (e.g. `Depends(require_role('' @ [CHR 0x22] @ ''ADMIN'' @ [CHR 0x22] @ ''))`),'',
     ''  never inline logic in the handler body.'',
     ''- Raise `HTTPException` for error responses; don'' @ [CHR 0x27] @ ''t invent a custom error envelope'',
     ''  unless the IR'' @ [CHR 0x27] @ ''s `global_notes` says the source app has one worth preserving.'']"
| "convention_notes Kind_SERVICE = str_join newline
    [''- A plain async (or sync, if no I/O) function or a small class with injected'',
     ''  dependencies passed as constructor/function arguments '' @ em_dash @ '' not a framework-managed'',
     ''  singleton the way Spring `@Service` beans are. FastAPI has no DI container of its'',
     ''  own; dependencies are threaded through via `Depends(...)` at the router layer.'']"
| "convention_notes Kind_REPOSITORY = str_join newline
    [''- A function-per-operation module (or small class) using SQLAlchemy (async session)'',
     ''  for data access. Each `operations` entry in the IR becomes one function, named'',
     ''  descriptively (e.g. '' @ [CHR 0x22] @ ''find by email and active true'' @ [CHR 0x22] @ '' -> `find_by_email_and_active`).'']"
| "convention_notes Kind_DATA_MODEL = str_join newline
    [''- A Pydantic `BaseModel` subclass. Use `Field(...)` for constraints (max length,'',
     ''  required/optional) rather than custom validators where a Field constraint suffices.'',
     ''  Relationships described in plain language become typed references to other schema'',
     ''  classes (e.g. '' @ [CHR 0x22] @ ''has many OrderItem'' @ [CHR 0x22] @ '' -> `items: list[OrderItemSchema]`).'']"
| "convention_notes Kind_MIDDLEWARE = str_join newline
    [''- Prefer a FastAPI dependency (`Depends(...)`) over raw ASGI middleware when the'',
     ''  behavior is scoped to specific routes (this covers most Spring interceptor/filter'',
     ''  cases). Only use actual ASGI middleware for behavior that must apply globally'',
     ''  before routing even happens.'']"
| "convention_notes Kind_CONFIG = str_join newline
    [''- A `pydantic-settings` `BaseSettings` subclass for environment-driven config,'',
     ''  or a small module of constructor functions for wiring (FastAPI has no DI'',
     ''  container/config-class equivalent to Spring `@Configuration`).'']"
| "convention_notes Kind_UTILITY = str_join newline
    [''- A plain module-level function. No framework coupling expected or desired here.'']"

text \<open>\<open>s.rsplit(".", 1)[0]\<close>.\<close>

definition before_last_dot :: "string \<Rightarrow> string" where
  "before_last_dot s =
     (if CHR ''.'' \<in> set s then str_join ''.'' (butlast (py_split (CHR ''.'') s)) else s)"

definition module_name_for :: "semantic_unit \<Rightarrow> string \<Rightarrow> string" where
  "module_name_for unit name =
     (if su_kind unit = Kind_ENDPOINT \<and> su_source_files unit \<noteq> []
      then let stem = before_last_dot (last (py_split (CHR ''/'') (hd (su_source_files unit))));
               stem = (if suffix ''Controller'' stem then take (length stem - 10) stem else stem);
               s = slugify stem
           in if s = '''' then ''router'' else s
      else slugify name)"

definition suggest_target_path :: "semantic_unit \<Rightarrow> string" where
  "suggest_target_path unit =
     (let directory = kind_to_dir (su_kind unit);
          name = (case payload_name (su_payload unit) of
                    Some n \<Rightarrow> if n = '''' then su_id unit else n
                  | None \<Rightarrow> su_id unit)
      in directory @ ''/'' @ module_name_for unit name @ ''.py'')"

definition fastapi_synthesis_adapter :: target_synthesis_adapter where
  "fastapi_synthesis_adapter =
     \<lparr>ts_stack_key = ''fastapi'', ts_display_name = ''FastAPI'',
      ts_suggest_target_path = suggest_target_path, ts_convention_notes = convention_notes\<rparr>"

section \<open>FastAPI, test side (\<open>fastapi_target/test_adapter.py\<close>)\<close>

record target_test_adapter =
  ta_stack_key :: string
  ta_display_name :: string
  ta_base_docker_image :: string
  ta_install_command :: "string list"
  ta_test_command :: "string list"
  ta_parse_test_output :: "string \<Rightarrow> int \<Rightarrow> test_outcome \<times> string list"

text \<open>\<open>^FAILED (\S+)\<close> with \<open>MULTILINE\<close>: at most one match per line.\<close>

definition failed_line :: "string \<Rightarrow> string option" where
  "failed_line line =
     (if prefix ''FAILED '' line
      then (let name = takeWhile (\<lambda>c. \<not> is_space c) (drop 7 line)
            in if name = [] then None else Some name)
      else None)"

definition failed_lines :: "string \<Rightarrow> string list" where
  "failed_lines stdout = List.map_filter failed_line (py_split (CHR 0x0A) stdout)"

definition parse_test_output :: "string \<Rightarrow> int \<Rightarrow> test_outcome \<times> string list" where
  "parse_test_output stdout exit_code =
     (let failing = failed_lines stdout
      in if exit_code = 0 then (Out_PASSED, [])
         else if exit_code = 5 then (Out_ERROR, [])
         else if exit_code \<in> {2, 3, 4} then (Out_ERROR, failing)
         else (Out_FAILED, failing))"

definition fastapi_test_adapter :: target_test_adapter where
  "fastapi_test_adapter =
     \<lparr>ta_stack_key = ''fastapi'', ta_display_name = ''FastAPI'',
      ta_base_docker_image = ''python:3.12-slim'',
      ta_install_command = [''pip'', ''install'', ''--no-cache-dir'', ''-r'', ''requirements.txt''],
      ta_test_command = [''pytest'', ''-q'', ''--tb=short''],
      ta_parse_test_output = parse_test_output\<rparr>"

section \<open>Registries (\<open>registry.py\<close>, \<open>target_registry.py\<close>)\<close>

definition SOURCE_ADAPTERS :: "(string \<times> source_adapter) list" where
  "SOURCE_ADAPTERS = [(''springboot'', spring_boot_source_adapter)]"

definition TARGET_TEST_ADAPTERS :: "(string \<times> target_test_adapter) list" where
  "TARGET_TEST_ADAPTERS = [(''fastapi'', fastapi_test_adapter)]"

definition TARGET_SYNTHESIS_ADAPTERS :: "(string \<times> target_synthesis_adapter) list" where
  "TARGET_SYNTHESIS_ADAPTERS = [(''fastapi'', fastapi_synthesis_adapter)]"

definition lookup_adapter :: "string \<Rightarrow> (string \<times> 'a) list \<Rightarrow> string \<Rightarrow> 'a result" where
  "lookup_adapter what registry stack_key =
     (case map_of registry stack_key of
        Some a \<Rightarrow> Inr a
      | None \<Rightarrow>
          let available = str_join '', '' (sort (dict_keys registry));
              available = (if available = '''' then ''(none registered)'' else available)
          in Inl (ValueError (''No '' @ what @ '' adapter registered for stack '' @ [CHR 0x27]
               @ stack_key @ [CHR 0x27] @ ''. Available: '' @ available)))"

definition get_source_adapter :: "string \<Rightarrow> source_adapter result" where
  "get_source_adapter = lookup_adapter ''source'' SOURCE_ADAPTERS"

definition get_target_test_adapter :: "string \<Rightarrow> target_test_adapter result" where
  "get_target_test_adapter = lookup_adapter ''target test'' TARGET_TEST_ADAPTERS"

definition get_target_synthesis_adapter :: "string \<Rightarrow> target_synthesis_adapter result" where
  "get_target_synthesis_adapter = lookup_adapter ''target synthesis'' TARGET_SYNTHESIS_ADAPTERS"

section \<open>The contract of a test adapter\<close>

locale test_adapter =
  fixes parse :: "string \<Rightarrow> int \<Rightarrow> test_outcome \<times> string list"
  assumes passed_iff: "fst (parse out exit_code) = Out_PASSED \<longleftrightarrow> exit_code = 0"
    and passed_no_failures: "snd (parse out 0) = []"
    and always_ran: "fst (parse out exit_code) \<noteq> Out_NOT_RUN" "fst (parse out exit_code) \<noteq> Out_TIMEOUT"
begin

lemma nonzero_not_passed: "exit_code \<noteq> 0 \<Longrightarrow> fst (parse out exit_code) \<in> {Out_FAILED, Out_ERROR}"
  using always_ran [of out exit_code] passed_iff [of out exit_code] by (cases "fst (parse out exit_code)") auto

end

interpretation fastapi_tests: test_adapter parse_test_output
  by unfold_locales (auto simp: parse_test_output_def Let_def)

section \<open>Facts about discovery and paths\<close>

lemma kind_to_dir_inj: "kind_to_dir k = kind_to_dir k' \<Longrightarrow> k = k'"
  by (cases k; cases k') simp_all

lemma slash_notin_slug: "is_slug s \<Longrightarrow> CHR ''/'' \<notin> set s"
  by (auto simp: is_slug_def slug_char_def is_lower_def is_digit_def ordc_def)

lemma module_name_slug: "is_slug (module_name_for unit name)"
proof -
  have "is_slug ''router''"
    by (simp add: is_slug_def slug_char_def is_lower_def is_digit_def ordc_def)
  then show ?thesis by (simp add: module_name_for_def Let_def slugify_is_slug)
qed

lemma suffix_path_join: "suffix s b \<Longrightarrow> suffix s (path_join a b)"
  by (auto simp: path_join_def suffix_def)

lemma walk_java: "c \<in> set (walk dirpath rel t) \<Longrightarrow> suffix ''.java'' (cd_relative_path c)"
proof (induction dirpath rel t rule: walk.induct)
  case (1 dirpath rel files dirs)
  consider f where "f \<in> set files" "suffix ''.java'' (fst f)" "cd_relative_path c = path_join rel (fst f)"
    | d t where "(d, t) \<in> set dirs" "py_lower d \<notin> set skip_dir_names"
        "c \<in> set (walk (path_join dirpath d) (path_join rel d) t)"
    using 1(2) by (auto split: if_splits)
  then show ?case
  proof cases
    case 1
    then show ?thesis by (simp add: suffix_path_join)
  next
    case 2
    then show ?thesis using 1(1) by blast
  qed
qed

text \<open>
  A discovered file is a readable Java file of the source tree, and under a scope with at least one
  term its package directory holds a file whose path contains a scope term.
\<close>

lemma discovered_file_origin:
  assumes "f \<in> set (spring_discover_files base tree scope)"
  obtains java c where "find_java_source_root tree = Some java"
    "c \<in> set (walk (path_join (path_join (path_join base ''src'') ''main'') ''java'') ''src/main/java'' java)"
    "df_path f = cd_full_path c" "df_relative_path f = cd_relative_path c"
    "cd_content c = Some (df_content f)" "df_likely_kind f = guess_kind (df_content f)"
proof (cases "find_java_source_root tree")
  case None
  with assms show ?thesis by (simp add: spring_discover_files_def)
next
  case (Some java)
  let ?cs = "walk (path_join (path_join (path_join base ''src'') ''main'') ''java'') ''src/main/java'' java"
  have "\<exists>c \<in> set ?cs. df_path f = cd_full_path c \<and> df_relative_path f = cd_relative_path c \<and>
      cd_content c = Some (df_content f) \<and> df_likely_kind f = guess_kind (df_content f)"
    using assms unfolding spring_discover_files_def Some option.case Let_def mem_map_filter
    by (elim bexE) (rule bexI, simp split: if_splits, auto)
  then show ?thesis using that [OF Some] by blast
qed

lemma discovered_file_scoped:
  assumes "f \<in> set (spring_discover_files base tree scope)" "extract_scope_terms scope \<noteq> []"
  shows "\<exists>java c anchor. find_java_source_root tree = Some java \<and>
    {c, anchor} \<subseteq> set (walk (path_join (path_join (path_join base ''src'') ''main'') ''java'') ''src/main/java'' java) \<and>
    df_path f = cd_full_path c \<and> cd_dir c = cd_dir anchor \<and>
    matches_scope (cd_relative_path anchor) (extract_scope_terms scope)"
proof -
  obtain java where java: "find_java_source_root tree = Some java"
    using discovered_file_origin [OF assms(1)] by blast
  let ?cs = "walk (path_join (path_join (path_join base ''src'') ''main'') ''java'') ''src/main/java'' java"
  let ?m = "\<lambda>c. matches_scope (cd_relative_path c) (extract_scope_terms scope)"
  have "df_path f \<in> cd_full_path ` {c \<in> set ?cs. cd_dir c \<in> cd_dir ` {a \<in> set ?cs. ?m a}}"
    using assms by (auto simp: spring_discover_files_def java Let_def List.map_filter_def
        split: option.splits if_splits)
  then obtain c a where "c \<in> set ?cs" "a \<in> set ?cs" "?m a" "cd_dir c = cd_dir a" "df_path f = cd_full_path c"
    by auto
  then show ?thesis using java by blast
qed

end
