(* ===== verification/Reducers.thy ===== *)
theory Reducers
  imports Graph_State
begin

text \<open>
  Laws of the reducers of \<open>graph_state.py\<close>. A wave of parallel editor branches hands the engine a
  list of partial updates; the locale \<open>reducer\<close> states when merging them one by one is one merge of
  their concatenation. Appending lists and \<open>_merge_task_lists\<close> interpret it. The merge of tasks is
  characterised by the last version of every identifier in order of first appearance.
\<close>

named_theorems merge_simps "the effect of the task reducer"

locale reducer =
  fixes red :: "'s \<Rightarrow> 'u list \<Rightarrow> 's"
    and ok :: "'s \<Rightarrow> bool"
  assumes red_nil: "ok s \<Longrightarrow> red s [] = s"
    and red_append: "red s (xs @ ys) = red (red s xs) ys"
    and ok_red: "ok (red s xs)"
begin

lemma foldl_red: "ok s \<Longrightarrow> foldl red s xss = red s (concat xss)"
proof (induction xss arbitrary: s)
  case Nil
  then show ?case by (simp add: red_nil)
next
  case (Cons xs xss)
  then show ?case by (simp add: ok_red red_append)
qed

end

text \<open>The value of the merge.\<close>

lemma merge_task_lists_eq:
  "merge_task_lists ts xs =
     map (\<lambda>k. the (find_last (\<lambda>t. mt_id t = k) (ts @ xs))) (first_seen (map mt_id (ts @ xs)))"
  using od.vals_loop_empty [of mt_id "\<lambda>t. t" "ts @ xs"]
  by (simp add: merge_task_lists_def)

lemma last_version_id:
  assumes "k \<in> mt_id ` set xs"
  shows "mt_id (the (find_last (\<lambda>t. mt_id t = k) xs)) = k"
    and "the (find_last (\<lambda>t. mt_id t = k) xs) \<in> set xs"
proof -
  obtain t where "find_last (\<lambda>t. mt_id t = k) xs = Some t"
    using assms by (cases "find_last (\<lambda>t. mt_id t = k) xs") (auto simp: find_last_None)
  with find_last_SomeD [OF this]
  show "mt_id (the (find_last (\<lambda>t. mt_id t = k) xs)) = k"
    and "the (find_last (\<lambda>t. mt_id t = k) xs) \<in> set xs" by simp_all
qed

lemma map_id_merge [merge_simps]:
  "map mt_id (merge_task_lists ts xs) = first_seen (map mt_id (ts @ xs))"
proof -
  have "map mt_id (merge_task_lists ts xs) =
      map (\<lambda>k. mt_id (the (find_last (\<lambda>t. mt_id t = k) (ts @ xs)))) (first_seen (map mt_id (ts @ xs)))"
    by (simp add: merge_task_lists_eq)
  also have "\<dots> = map (\<lambda>k. k) (first_seen (map mt_id (ts @ xs)))"
  proof (rule map_cong)
    fix k
    assume "k \<in> set (first_seen (map mt_id (ts @ xs)))"
    then have "k \<in> mt_id ` set (ts @ xs)" by auto
    then show "mt_id (the (find_last (\<lambda>t. mt_id t = k) (ts @ xs))) = k" by (rule last_version_id)
  qed simp
  finally show ?thesis by simp
qed

lemma distinct_merge [merge_simps]: "distinct (map mt_id (merge_task_lists ts xs))"
  by (simp add: map_id_merge)

lemma ids_merge [merge_simps]:
  "mt_id ` set (merge_task_lists ts xs) = mt_id ` set ts \<union> mt_id ` set xs"
proof -
  have "set (map mt_id (merge_task_lists ts xs)) = set (map mt_id (ts @ xs))"
    by (simp only: map_id_merge set_first_seen)
  then show ?thesis by (simp add: image_Un)
qed

lemma set_merge_subset: "set (merge_task_lists ts xs) \<subseteq> set ts \<union> set xs"
proof -
  have "the (find_last (\<lambda>t. mt_id t = k) (ts @ xs)) \<in> set (ts @ xs)" if "k \<in> mt_id ` set (ts @ xs)" for k
    using that by (rule last_version_id)
  then show ?thesis by (auto simp: merge_task_lists_eq)
qed

text \<open>With distinct identifiers a task is the last (and only) version of itself.\<close>

lemma find_last_distinct:
  "distinct (map mt_id ts) \<Longrightarrow> t \<in> set ts \<Longrightarrow> find_last (\<lambda>x. mt_id x = mt_id t) ts = Some t"
  by (rule find_last_key)

lemma find_last_merge:
  "find_last (\<lambda>t. mt_id t = k) (merge_task_lists ts xs) = find_last (\<lambda>t. mt_id t = k) (ts @ xs)"
proof (cases "k \<in> mt_id ` set (ts @ xs)")
  case True
  let ?t = "the (find_last (\<lambda>t. mt_id t = k) (ts @ xs))"
  have "?t \<in> set (merge_task_lists ts xs)"
    using True by (auto simp: merge_task_lists_eq)
  moreover have "mt_id ?t = k" using True by (rule last_version_id)
  ultimately have "find_last (\<lambda>t. mt_id t = k) (merge_task_lists ts xs) = Some ?t"
    using find_last_distinct [OF distinct_merge] by metis
  moreover have "find_last (\<lambda>t. mt_id t = k) (ts @ xs) \<noteq> None"
    using True by (auto simp: find_last_None)
  ultimately show ?thesis by auto
next
  case False
  then have "find_last (\<lambda>t. mt_id t = k) (ts @ xs) = None"
    by (auto simp: find_last_None)
  moreover have "find_last (\<lambda>t. mt_id t = k) (merge_task_lists ts xs) = None"
    using False ids_merge [of ts xs] by (auto simp: find_last_None)
  ultimately show ?thesis by simp
qed

lemma merge_append: "merge_task_lists ts (xs @ ys) = merge_task_lists (merge_task_lists ts xs) ys"
proof -
  have keys: "first_seen (map mt_id (merge_task_lists ts xs @ ys)) = first_seen (map mt_id (ts @ xs @ ys))"
    by (simp add: map_id_merge) (simp add: first_seen_append_first_seen flip: map_append append_assoc)
  have vals: "find_last (\<lambda>t. mt_id t = k) (merge_task_lists ts xs @ ys) =
      find_last (\<lambda>t. mt_id t = k) (ts @ xs @ ys)" for k
    by (simp add: find_last_append find_last_merge split: option.split)
  show ?thesis
    by (simp only: merge_task_lists_eq [of ts "xs @ ys"] merge_task_lists_eq [of "merge_task_lists ts xs"]
        keys vals)
qed

lemma merge_nil: "distinct (map mt_id ts) \<Longrightarrow> merge_task_lists ts [] = ts"
proof -
  assume d: "distinct (map mt_id ts)"
  have "map (\<lambda>k. the (find_last (\<lambda>t. mt_id t = k) ts)) (map mt_id ts) = map (\<lambda>t. t) ts"
    unfolding map_map by (rule map_cong) (simp_all add: find_last_distinct [OF d])
  then show ?thesis by (simp add: merge_task_lists_eq first_seen_distinct [OF d])
qed

interpretation task_reducer: reducer merge_task_lists "\<lambda>ts. distinct (map mt_id ts)"
  by unfold_locales (simp_all add: merge_nil merge_append distinct_merge)

interpretation append_reducer: reducer "(@)" "\<lambda>_. True"
  by unfold_locales simp_all

text \<open>Updating tasks the list already holds replaces them in place.\<close>

lemma merge_known:
  assumes "distinct (map mt_id ts)" and "mt_id ` set xs \<subseteq> mt_id ` set ts"
  shows "merge_task_lists ts xs =
    map (\<lambda>t. case find_last (\<lambda>x. mt_id x = mt_id t) xs of Some x \<Rightarrow> x | None \<Rightarrow> t) ts"
proof -
  have "first_seen (map mt_id (ts @ xs)) = map mt_id ts"
    using assms by (induction xs rule: rev_induct)
      (auto simp: first_seen_distinct first_seen_snoc simp flip: append_assoc)
  then have "merge_task_lists ts xs =
      map (\<lambda>t. the (find_last (\<lambda>x. mt_id x = mt_id t) (ts @ xs))) ts"
    by (simp add: merge_task_lists_eq)
  also have "\<dots> = map (\<lambda>t. case find_last (\<lambda>x. mt_id x = mt_id t) xs of Some x \<Rightarrow> x | None \<Rightarrow> t) ts"
    by (rule map_cong) (auto simp: find_last_append find_last_distinct [OF assms(1)] split: option.splits)
  finally show ?thesis .
qed

text \<open>Branches that update different tasks may report in any order.\<close>

lemma find_last_perm:
  assumes "distinct (map mt_id xs)" "mset xs = mset ys"
  shows "find_last (\<lambda>t. mt_id t = k) xs = find_last (\<lambda>t. mt_id t = k) ys"
proof -
  have d: "distinct (map mt_id ys)"
    using assms by (metis mset_eq_imp_distinct_iff mset_map)
  have s: "set xs = set ys" using assms(2) by (rule mset_eq_setD)
  show ?thesis
  proof (cases "k \<in> mt_id ` set xs")
    case True
    then obtain t where "t \<in> set xs" "mt_id t = k" by auto
    then show ?thesis
      using find_last_distinct [OF assms(1)] find_last_distinct [OF d] s by metis
  next
    case False
    then have "\<forall>t \<in> set xs. mt_id t \<noteq> k" "\<forall>t \<in> set ys. mt_id t \<noteq> k"
      using s by auto
    then show ?thesis
      using find_last_None [of "\<lambda>t. mt_id t = k"] by metis
  qed
qed

lemma merge_order_irrelevant:
  assumes "distinct (map mt_id ts)" "mt_id ` set xs \<subseteq> mt_id ` set ts"
    and "distinct (map mt_id xs)" "mset xs = mset ys"
  shows "merge_task_lists ts xs = merge_task_lists ts ys"
proof -
  have "mt_id ` set ys \<subseteq> mt_id ` set ts"
    using assms(2) mset_eq_setD [OF assms(4)] by simp
  then show ?thesis
    using assms by (simp add: merge_known find_last_perm [OF assms(3,4)])
qed

end
