(* ===== verification/Synthesis.thy ===== *)
theory Synthesis
  imports Adapters Reducers
begin

text \<open>
  \<open>app/core/ir_describe.py\<close> and \<open>app/graph/nodes/synthesis.py\<close>: the plain-text description of a unit and
  the deterministic plan that turns units into tasks, one task per target file. The locale
  \<open>target_layout\<close> states what the plan needs of a target adapter (different paths keep different
  slugs, a path holds one kind of unit); the FastAPI adapter interprets it. The lemmas say what the
  plan is: a partition of the units by target path, with distinct task identifiers and with
  dependencies between tasks exactly where units depend on each other.
\<close>

section \<open>Describing a unit (\<open>ir_describe.py\<close>)\<close>

definition or_none :: "string \<Rightarrow> string" where
  "or_none s = (if s = '''' then ''none'' else s)"

definition opt_or_none :: "string option \<Rightarrow> string" where
  "opt_or_none v = (case v of None \<Rightarrow> ''none'' | Some s \<Rightarrow> or_none s)"

definition quoted :: "string \<Rightarrow> string" where
  "quoted s = [CHR 0x27] @ s @ [CHR 0x27]"

definition dash :: string where
  "dash = '' '' @ em_dash @ '' ''"

definition describe_unit :: "semantic_unit \<Rightarrow> string" where
  "describe_unit unit =
     (let tag = ''['' @ su_id unit @ ''] ''
      in case su_payload unit of
        Endpoint_Unit p \<Rightarrow>
          (let params = or_none (str_join '', '' (map (\<lambda>q. ps_name q @ '' ('' @ ps_type_description q
                  @ '', '' @ ps_source_location q @ '')'') (ep_parameters p)))
           in tag @ ep_http_method p @ '' '' @ ep_path p @ dash @ ep_description p @ newline
              @ ''    Parameters: '' @ params @ newline
              @ ''    Request body: '' @ opt_or_none (ep_request_body_model p) @ ''; ''
              @ ''Response: '' @ opt_or_none (ep_response_model p) @ newline
              @ ''    Auth: '' @ opt_or_none (ep_auth_requirement p) @ newline
              @ ''    Logic: '' @ ep_business_logic_summary p)
      | Service_Unit p \<Rightarrow>
          tag @ ''Service '' @ quoted (sv_name p) @ dash @ sv_description p @ newline
          @ ''    Depends on: '' @ or_none (str_join '', '' (sv_depends_on p)) @ newline
          @ ''    Logic: '' @ sv_business_logic_summary p
      | Repository_Unit p \<Rightarrow>
          tag @ ''Repository '' @ quoted (rp_name p) @ '' for '' @ quoted (rp_target_data_model p)
          @ dash @ rp_description p @ newline
          @ ''    Operations: '' @ or_none (str_join ''; '' (rp_operations p))
      | Data_Model_Unit p \<Rightarrow>
          (let fields = or_none (str_join ''; '' (map (\<lambda>f. fs_name f @ '': '' @ fs_type_description f
                  @ (if fs_constraints f \<noteq> [] then '' ['' @ str_join '', '' (fs_constraints f) @ '']'' else ''''))
                  (dm_fields p)));
               rels = or_none (str_join ''; '' (dm_relationships p))
           in tag @ ''Data model '' @ quoted (dm_name p) @ dash @ dm_description p @ newline
              @ ''    Fields: '' @ fields @ newline
              @ ''    Relationships: '' @ rels)
      | Middleware_Unit p \<Rightarrow>
          tag @ ''Middleware '' @ quoted (mw_name p) @ '' (scope: '' @ mw_trigger_scope p @ '')'' @ dash
          @ mw_behavior_summary p
      | Dict_Payload d \<Rightarrow> tag @ d)"

section \<open>The plan (\<open>synthesis.py\<close>)\<close>

text \<open>The task's fields that \<open>run_synthesis\<close> does not set keep the defaults of \<open>MigrationTask\<close>.\<close>

definition new_task ::
  "string \<Rightarrow> string list \<Rightarrow> target_file_spec list \<Rightarrow> string list \<Rightarrow> string \<Rightarrow> migration_task" where
  "new_task task_id units files deps instructions =
     \<lparr>mt_id = task_id, mt_source_unit_ids = units, mt_target_files = files, mt_depends_on_task_ids = deps,
      mt_synthesis_instructions = instructions, mt_status = St_PENDING, mt_retry_count = 0,
      mt_max_retries = 3\<rparr>"

text \<open>\<open>units[0]\<close> is the head of a group, which is never empty.\<close>

definition build_instructions :: "semantic_unit list \<Rightarrow> target_synthesis_adapter \<Rightarrow> string" where
  "build_instructions units adapter =
     str_join newline ([ts_convention_notes adapter (su_kind (hd units)), '''',
        ''Unit(s) to implement in this file:''] @ map (\<lambda>unit. ''- '' @ describe_unit unit) units)"

text \<open>The \<open>defaultdict(list)\<close> of the first loop.\<close>

definition group_units ::
  "target_synthesis_adapter \<Rightarrow> semantic_unit list \<Rightarrow> (string \<times> semantic_unit list) list" where
  "group_units adapter units =
     foldl (\<lambda>d unit. let path = ts_suggest_target_path adapter unit
              in dict_put path ((case map_of d path of None \<Rightarrow> [] | Some us \<Rightarrow> us) @ [unit]) d) [] units"

definition synthesis_task_id :: "string \<Rightarrow> string" where
  "synthesis_task_id path = ''task::'' @ slugify path"

definition plan_task ::
  "target_synthesis_adapter \<Rightarrow> (string \<times> string) list \<Rightarrow> (string \<times> string) list \<Rightarrow>
     string \<times> semantic_unit list \<Rightarrow> migration_task result" where
  "plan_task adapter path_to_task_id unit_to_task_id entry =
     (case entry of (path, units) \<Rightarrow>
       try_bind (need path (map_of path_to_task_id path)) (\<lambda>task_id.
         let depends_on_task_ids = sort (remdups (concat (map (\<lambda>unit.
                 List.map_filter (\<lambda>dep_id. case map_of unit_to_task_id dep_id of
                     None \<Rightarrow> None | Some t \<Rightarrow> if t \<noteq> task_id then Some t else None)
                   (su_depends_on_unit_ids unit)) units)));
             names = map (\<lambda>u. case payload_name (su_payload u) of None \<Rightarrow> su_id u | Some n \<Rightarrow> n) units
         in Inr (new_task task_id (map su_id units)
              [\<lparr>tf_path = path, tf_purpose = kind_value (su_kind (hd units)) @ '': '' @ str_join '', '' names\<rparr>]
              depends_on_task_ids (build_instructions units adapter))))"

definition run_synthesis ::
  "comprehension_result \<Rightarrow> string \<Rightarrow> target_synthesis_adapter option \<Rightarrow> migration_task list result" where
  "run_synthesis comprehension target_stack adapter =
     try_bind (case adapter of Some a \<Rightarrow> Inr a | None \<Rightarrow> get_target_synthesis_adapter target_stack) (\<lambda>adapter.
       let units = cr_units comprehension;
           path_to_units = group_units adapter units;
           unit_to_path = foldl (\<lambda>d unit. dict_put (su_id unit) (ts_suggest_target_path adapter unit) d) [] units;
           path_to_task_id = map (\<lambda>(path, us). (path, synthesis_task_id path)) path_to_units
       in try_bind (try_map (\<lambda>unit.
              try_bind (need (su_id unit) (map_of unit_to_path (su_id unit))) (\<lambda>path.
              try_bind (need path (map_of path_to_task_id path)) (\<lambda>task_id. Inr (su_id unit, task_id)))) units)
            (\<lambda>pairs.
              let unit_to_task_id = foldl (\<lambda>d p. dict_put (fst p) (snd p) d) [] pairs
              in try_map (plan_task adapter path_to_task_id unit_to_task_id) path_to_units))"

definition synthesis_node :: "graph_state \<Rightarrow> state_update result" where
  "synthesis_node s =
     (case gs_comprehension s of
        None \<Rightarrow> Inr (no_update\<lparr>up_phase := Some Ph_FAILED, up_error_log := Some
                  [''Synthesis skipped: no comprehension result (or zero units) to plan from.'']\<rparr>)
      | Some comprehension \<Rightarrow>
          if cr_units comprehension = []
          then Inr (no_update\<lparr>up_phase := Some Ph_FAILED, up_error_log := Some
                  [''Synthesis skipped: no comprehension result (or zero units) to plan from.'']\<rparr>)
          else try_bind (need ''config'' (gs_config s)) (\<lambda>config.
               try_bind (run_synthesis comprehension (rc_target_stack config) None) (\<lambda>tasks.
                 Inr (no_update\<lparr>up_tasks := Some tasks, up_phase := Some Ph_EDITING\<rparr>))))"

section \<open>Grouping\<close>

lemma map_of_tabulate: "map_of (map (\<lambda>k. (k, f k)) ks) j = (if j \<in> set ks then Some (f j) else None)"
  by (induction ks) auto

lemma dict_put_tabulate:
  "distinct ks \<Longrightarrow> dict_put k v (map (\<lambda>j. (j, f j)) ks) =
     map (\<lambda>j. (j, if j = k then v else f j)) (if k \<in> set ks then ks else ks @ [k])"
  by (induction ks) auto

text \<open>The loop groups the units by path, paths and units in the order of the input.\<close>

lemma group_units_eq:
  "group_units adapter units =
     map (\<lambda>path. (path, filter (\<lambda>u. ts_suggest_target_path adapter u = path) units))
       (first_seen (map (ts_suggest_target_path adapter) units))"
proof (induction units rule: rev_induct)
  case Nil
  then show ?case by (simp add: group_units_def)
next
  case (snoc u units)
  let ?p = "ts_suggest_target_path adapter"
  let ?F = "\<lambda>us path. filter (\<lambda>u. ?p u = path) us"
  have "group_units adapter (units @ [u]) =
      dict_put (?p u) ((case map_of (group_units adapter units) (?p u) of None \<Rightarrow> [] | Some us \<Rightarrow> us) @ [u])
        (group_units adapter units)"
    by (simp add: group_units_def Let_def)
  also have "(case map_of (group_units adapter units) (?p u) of None \<Rightarrow> [] | Some us \<Rightarrow> us) = ?F units (?p u)"
    unfolding snoc.IH by (auto simp: map_of_tabulate empty_filter_conv) (metis imageI)
  also have "dict_put (?p u) (?F units (?p u) @ [u]) (group_units adapter units)
      = map (\<lambda>path. (path, ?F (units @ [u]) path)) (first_seen (map ?p (units @ [u])))"
    unfolding snoc.IH by (subst dict_put_tabulate) (auto simp: first_seen_snoc)
  finally show ?case .
qed

text \<open>Cutting a list by a key loses and duplicates nothing.\<close>

lemma mset_groups:
  "distinct ks \<Longrightarrow> set (map f xs) \<subseteq> set ks \<Longrightarrow>
     mset (concat (map (\<lambda>k. filter (\<lambda>x. f x = k) xs) ks)) = mset xs"
proof (induction ks arbitrary: xs)
  case Nil
  then show ?case by simp
next
  case (Cons k ks)
  let ?ys = "filter (\<lambda>x. f x \<noteq> k) xs"
  have "filter (\<lambda>x. f x = j) ?ys = filter (\<lambda>x. f x = j) xs" if "j \<noteq> k" for j
    using that by (auto intro: filter_cong)
  with Cons.prems(1) have e: "map (\<lambda>j. filter (\<lambda>x. f x = j) ?ys) ks = map (\<lambda>j. filter (\<lambda>x. f x = j) xs) ks"
    by (intro map_cong) (metis distinct.simps(2))+
  have "mset (concat (map (\<lambda>j. filter (\<lambda>x. f x = j) ?ys) ks)) = mset ?ys"
    by (rule Cons.IH) (use Cons.prems in auto)
  then have "mset (concat (map (\<lambda>j. filter (\<lambda>x. f x = j) xs) ks)) = mset ?ys"
    unfolding e .
  then have "mset (concat (map (\<lambda>j. filter (\<lambda>x. f x = j) xs) (k # ks))) =
      mset (filter (\<lambda>x. f x = k) xs) + mset (filter (\<lambda>x. f x \<noteq> k) xs)"
    by simp
  also have "\<dots> = mset xs"
    by (induction xs) auto
  finally show ?case .
qed

text \<open>The dictionaries of \<open>run_synthesis\<close>, in closed form.\<close>

definition unit_path :: "target_synthesis_adapter \<Rightarrow> semantic_unit list \<Rightarrow> string \<Rightarrow> string option" where
  "unit_path adapter units unit_id =
     map_option (ts_suggest_target_path adapter) (find_last (\<lambda>u. su_id u = unit_id) units)"

text \<open>The task of one target path, with the unit table given as a function.\<close>

definition planned_task ::
  "target_synthesis_adapter \<Rightarrow> semantic_unit list \<Rightarrow> string \<Rightarrow> migration_task" where
  "planned_task adapter units path =
     (let us = filter (\<lambda>u. ts_suggest_target_path adapter u = path) units;
          task_id = synthesis_task_id path
      in new_task task_id (map su_id us)
           [\<lparr>tf_path = path, tf_purpose = kind_value (su_kind (hd us)) @ '': '' @ str_join '', ''
               (map (\<lambda>u. case payload_name (su_payload u) of None \<Rightarrow> su_id u | Some n \<Rightarrow> n) us)\<rparr>]
           (sort (remdups (concat (map (\<lambda>unit. List.map_filter (\<lambda>dep_id.
                case map_option synthesis_task_id (unit_path adapter units dep_id) of
                  None \<Rightarrow> None | Some t \<Rightarrow> if t \<noteq> task_id then Some t else None)
              (su_depends_on_unit_ids unit)) us))))
           (build_instructions us adapter))"

lemma unit_to_path_lookup:
  "map_of (foldl (\<lambda>d unit. dict_put (su_id unit) (ts_suggest_target_path adapter unit) d) [] units) i =
     unit_path adapter units i"
  by (simp add: unit_path_def dict_simps split: option.splits)

lemma unit_path_mem: "u \<in> set units \<Longrightarrow> \<exists>v \<in> set units. unit_path adapter units (su_id u) =
    Some (ts_suggest_target_path adapter v)"
  by (cases "find_last (\<lambda>v. su_id v = su_id u) units")
    (auto simp: unit_path_def find_last_None dest: find_last_SomeD)

text \<open>No lookup of the plan can fail: the result is one planned task per path.\<close>

lemma run_synthesis_eq:
  "run_synthesis c stack (Some adapter) =
     Inr (map (planned_task adapter (cr_units c))
       (first_seen (map (ts_suggest_target_path adapter) (cr_units c))))"
proof -
  let ?us = "cr_units c" and ?p = "ts_suggest_target_path adapter"
  let ?paths = "first_seen (map ?p ?us)"
  let ?ids = "map (\<lambda>(path, us). (path, synthesis_task_id path)) (group_units adapter ?us)"
  have ids: "?ids = map (\<lambda>path. (path, synthesis_task_id path)) ?paths"
    by (simp add: group_units_eq)
  have path_id: "map_of ?ids path = (if path \<in> ?p ` set ?us then Some (synthesis_task_id path) else None)" for path
    by (simp add: ids map_of_tabulate)
  let ?step = "\<lambda>unit. try_bind (need (su_id unit) (map_of (foldl (\<lambda>d unit. dict_put (su_id unit) (?p unit) d) [] ?us)
      (su_id unit))) (\<lambda>path. try_bind (need path (map_of ?ids path)) (\<lambda>task_id. Inr (su_id unit, task_id)))"
  let ?t = "\<lambda>i. synthesis_task_id (the (unit_path adapter ?us i))"
  have "?step u = Inr (su_id u, ?t (su_id u))" if "u \<in> set ?us" for u
    using unit_path_mem [OF that, of adapter] by (auto simp: unit_to_path_lookup path_id)
  then have step: "try_map ?step ?us = Inr (map (\<lambda>u. (su_id u, ?t (su_id u))) ?us)"
    by (auto simp: try_map_Inr list_all2_map2 intro: list.rel_refl_strong)
  let ?table = "foldl (\<lambda>d p. dict_put (fst p) (snd p) d) [] (map (\<lambda>u. (su_id u, ?t (su_id u))) ?us)"
  have table: "map_of ?table i = map_option synthesis_task_id (unit_path adapter ?us i)" for i
  proof (cases "find_last (\<lambda>u. su_id u = i) ?us")
    case (Some a)
    then have "su_id a = i" by (auto dest: find_last_SomeD)
    with Some show ?thesis by (simp add: foldl_map dict_simps unit_path_def)
  qed (simp add: foldl_map dict_simps unit_path_def)
  have "plan_task adapter ?ids ?table (path, filter (\<lambda>u. ?p u = path) ?us) = Inr (planned_task adapter ?us path)"
    if "path \<in> set ?paths" for path
    using that by (simp add: plan_task_def path_id table planned_task_def Let_def)
  then have "try_map (plan_task adapter ?ids ?table) (group_units adapter ?us) =
      Inr (map (planned_task adapter ?us) ?paths)"
    by (auto simp: try_map_Inr group_units_eq list_all2_map1 list_all2_map2 intro: list.rel_refl_strong)
  then show ?thesis
    by (simp add: run_synthesis_def Let_def step)
qed

section \<open>What the plan guarantees\<close>

lemma planned_task_fields [simp]:
  "mt_id (planned_task a units path) = synthesis_task_id path"
  "map tf_path (mt_target_files (planned_task a units path)) = [path]"
  "mt_source_unit_ids (planned_task a units path) =
     map su_id (filter (\<lambda>u. ts_suggest_target_path a u = path) units)"
  "mt_status (planned_task a units path) = St_PENDING"
  "mt_retry_count (planned_task a units path) = 0"
  "mt_max_retries (planned_task a units path) = 3"
  by (simp_all add: planned_task_def new_task_def Let_def)

lemma case_other:
  "(case v of None \<Rightarrow> None | Some t \<Rightarrow> if t \<noteq> i then Some t else None) = Some x \<longleftrightarrow> v = Some x \<and> x \<noteq> i"
  "(case w of None \<Rightarrow> None | Some y \<Rightarrow> ((\<lambda>t. if t \<noteq> i then Some t else None) \<circ> f) y) = Some x \<longleftrightarrow>
     map_option f w = Some x \<and> x \<noteq> i"
  by (auto split: option.splits)

lemma planned_deps:
  "t \<in> set (mt_depends_on_task_ids (planned_task a units path)) \<longleftrightarrow>
     t \<noteq> synthesis_task_id path \<and>
     (\<exists>u \<in> set units. ts_suggest_target_path a u = path \<and>
        (\<exists>d \<in> set (su_depends_on_unit_ids u).
           map_option synthesis_task_id (unit_path a units d) = Some t))"
  unfolding planned_task_def new_task_def Let_def by (auto simp: mem_map_filter case_other)

lemma unit_path_distinct:
  assumes "distinct (map su_id units)" "v \<in> set units"
  shows "unit_path a units (su_id v) = Some (ts_suggest_target_path a v)"
  using find_last_key [of su_id units v] assms by (simp add: unit_path_def)

locale target_layout =
  fixes adapter :: target_synthesis_adapter
  assumes slug_separates: "slugify (ts_suggest_target_path adapter u) = slugify (ts_suggest_target_path adapter v)
      \<Longrightarrow> ts_suggest_target_path adapter u = ts_suggest_target_path adapter v"
    and path_kind: "ts_suggest_target_path adapter u = ts_suggest_target_path adapter v \<Longrightarrow> su_kind u = su_kind v"
begin

abbreviation path_of :: "semantic_unit \<Rightarrow> string" where
  "path_of \<equiv> ts_suggest_target_path adapter"

lemma task_id_inj: "inj_on synthesis_task_id (path_of ` set units)"
  by (auto simp: inj_on_def synthesis_task_id_def intro: slug_separates)

text \<open>Tasks have distinct identifiers and distinct single target files.\<close>

lemma plan_distinct:
  assumes "run_synthesis c stack (Some adapter) = Inr tasks"
  shows "distinct (map mt_id tasks)" "distinct (concat (map (\<lambda>t. map tf_path (mt_target_files t)) tasks))"
    "t \<in> set tasks \<Longrightarrow> length (mt_target_files t) = 1"
proof -
  let ?paths = "first_seen (map path_of (cr_units c))"
  have tasks: "tasks = map (planned_task adapter (cr_units c)) ?paths"
    using assms by (simp add: run_synthesis_eq)
  have "distinct (map synthesis_task_id ?paths)"
    using task_id_inj by (simp add: distinct_map)
  then show "distinct (map mt_id tasks)" by (simp add: tasks comp_def)
  have "concat (map (\<lambda>t. map tf_path (mt_target_files t)) tasks) = ?paths"
    by (simp add: tasks comp_def)
  then show "distinct (concat (map (\<lambda>t. map tf_path (mt_target_files t)) tasks))" by simp
  show "length (mt_target_files t) = 1" if "t \<in> set tasks"
    using that by (auto simp: tasks planned_task_def new_task_def Let_def)
qed

text \<open>Every unit is in exactly one task.\<close>

lemma plan_partition:
  assumes "run_synthesis c stack (Some adapter) = Inr tasks"
  shows "mset (concat (map mt_source_unit_ids tasks)) = mset (map su_id (cr_units c))"
proof -
  let ?paths = "first_seen (map path_of (cr_units c))"
  have "concat (map mt_source_unit_ids tasks) =
      map su_id (concat (map (\<lambda>p. filter (\<lambda>u. path_of u = p) (cr_units c)) ?paths))"
    using assms by (auto simp: run_synthesis_eq map_concat comp_def)
  then show ?thesis
    using mset_groups [of ?paths path_of "cr_units c"] by (metis distinct_first_seen mset_map set_first_seen subset_refl)
qed

text \<open>The units of one task have one kind.\<close>

lemma plan_one_kind:
  assumes "distinct (map su_id (cr_units c))" "run_synthesis c stack (Some adapter) = Inr tasks" "t \<in> set tasks"
    "u \<in> set (cr_units c)" "v \<in> set (cr_units c)"
    "su_id u \<in> set (mt_source_unit_ids t)" "su_id v \<in> set (mt_source_unit_ids t)"
  shows "su_kind u = su_kind v"
proof -
  obtain p where "mt_source_unit_ids t = map su_id (filter (\<lambda>u. path_of u = p) (cr_units c))"
    using assms by (auto simp: run_synthesis_eq)
  then have "path_of u = p" "path_of v = p"
    using assms by (auto simp: distinct_map inj_on_def)
  then show ?thesis by (intro path_kind) simp
qed

text \<open>A task depends on exactly the other tasks that hold a unit one of its units depends on.\<close>

lemma plan_dependencies:
  assumes "distinct (map su_id (cr_units c))" "run_synthesis c stack (Some adapter) = Inr tasks"
    "t \<in> set tasks" "t' \<in> set tasks"
  shows "mt_id t' \<in> set (mt_depends_on_task_ids t) \<longleftrightarrow> mt_id t' \<noteq> mt_id t \<and>
    (\<exists>u \<in> set (cr_units c). \<exists>v \<in> set (cr_units c). su_id u \<in> set (mt_source_unit_ids t) \<and>
       su_id v \<in> set (mt_source_unit_ids t') \<and> su_id v \<in> set (su_depends_on_unit_ids u))"
proof -
  let ?us = "cr_units c"
  obtain p p' where t: "t = planned_task adapter ?us p" "p \<in> path_of ` set ?us"
    and t': "t' = planned_task adapter ?us p'" "p' \<in> path_of ` set ?us"
    using assms by (auto simp: run_synthesis_eq)
  have mem: "su_id u \<in> set (mt_source_unit_ids (planned_task adapter ?us q)) \<longleftrightarrow> path_of u = q"
    if "u \<in> set ?us" for u q
    using that assms(1) by (auto simp: distinct_map inj_on_def)
  have mem_both: "(\<exists>u \<in> set ?us. \<exists>v \<in> set ?us. su_id u \<in> set (mt_source_unit_ids (planned_task adapter ?us q)) \<and>
      su_id v \<in> set (mt_source_unit_ids (planned_task adapter ?us q')) \<and> su_id v \<in> set (su_depends_on_unit_ids u)) \<longleftrightarrow>
      (\<exists>u \<in> set ?us. \<exists>v \<in> set ?us. path_of u = q \<and> path_of v = q' \<and> su_id v \<in> set (su_depends_on_unit_ids u))"
    for q q' by (intro bex_cong refl) (simp only: mem)
  have dep: "map_option synthesis_task_id (unit_path adapter ?us d) = Some (synthesis_task_id p') \<longleftrightarrow>
      (\<exists>v \<in> set ?us. su_id v = d \<and> path_of v = p')" for d
  proof (cases "\<exists>v \<in> set ?us. su_id v = d")
    case True
    then obtain v where v: "v \<in> set ?us" "su_id v = d" by blast
    then have "unit_path adapter ?us d = Some (path_of v)"
      using unit_path_distinct [OF assms(1)] by blast
    moreover have "synthesis_task_id (path_of v) = synthesis_task_id p' \<longleftrightarrow> path_of v = p'"
      using task_id_inj [of ?us] v t'(2) by (auto simp: inj_on_def)
    moreover have "(\<exists>w \<in> set ?us. su_id w = d \<and> path_of w = p') \<longleftrightarrow> path_of v = p'"
      using v assms(1) unfolding distinct_map inj_on_def by blast
    ultimately show ?thesis by simp
  next
    case False
    then have "unit_path adapter ?us d = None" by (auto simp: unit_path_def find_last_None)
    with False show ?thesis by auto
  qed
  show ?thesis
    unfolding t(1) t'(1) planned_deps dep planned_task_fields(1) mem_both
    by (intro conj_cong bex_cong refl) (simp; blast)
qed

lemma plan_deps_known:
  assumes "run_synthesis c stack (Some adapter) = Inr tasks" "t \<in> set tasks"
  shows "set (mt_depends_on_task_ids t) \<subseteq> mt_id ` set tasks - {mt_id t}"
proof -
  obtain p where t: "t = planned_task adapter (cr_units c) p"
    using assms by (auto simp: run_synthesis_eq)
  have "i \<in> mt_id ` set tasks" if "i \<in> set (mt_depends_on_task_ids t)" for i
    using that assms(1)
    by (auto simp: t planned_deps unit_path_def run_synthesis_eq image_image dest!: find_last_SomeD)
  then show ?thesis by (auto simp: t planned_deps)
qed

lemma plan_pending:
  assumes "run_synthesis c stack (Some adapter) = Inr tasks" "t \<in> set tasks"
  shows "mt_status t = St_PENDING" "mt_retry_count t = 0" "mt_max_retries t = 3"
  using assms by (auto simp: run_synthesis_eq)

end

section \<open>The FastAPI layout\<close>

lemma squeeze_append:
  "squeeze b (s @ t) = squeeze b s @ squeeze (if s = [] then b else \<not> is_alnum (last s)) t"
  by (induction b s rule: squeeze.induct) auto

lemma ends_py: "\<not> is_upper (CHR ''p'')" "\<not> is_upper (CHR ''y'')" "is_alnum (CHR ''p'')" "is_alnum (CHR ''y'')"
  "\<not> is_upper (CHR ''.'')" "\<not> is_alnum (CHR ''.'')" "\<not> is_upper (CHR ''/'')" "\<not> is_alnum (CHR ''/'')"
  by code_simp+

definition module_slug :: "string \<Rightarrow> string" where
  "module_slug m = (if m = [] then ''py'' else m @ ''_py'')"

lemma module_slug_inj: "module_slug m = module_slug m' \<Longrightarrow> m = m'"
  by (auto simp: module_slug_def dest: arg_cong [of _ _ length] split: if_splits)

fun dir_slug :: "semantic_unit_kind \<Rightarrow> string" where
  "dir_slug Kind_ENDPOINT = ''app_routers_''"
| "dir_slug Kind_SERVICE = ''app_services_''"
| "dir_slug Kind_REPOSITORY = ''app_repositories_''"
| "dir_slug Kind_DATA_MODEL = ''app_schemas_''"
| "dir_slug Kind_MIDDLEWARE = ''app_middleware_''"
| "dir_slug Kind_CONFIG = ''app_core_''"
| "dir_slug Kind_UTILITY = ''app_utils_''"

lemma squeeze_dir: "squeeze False (kind_to_dir k @ ''/'') = dir_slug k"
  by (cases k; hypsubst; code_simp)

lemma dir_chars: "\<forall>c \<in> set (kind_to_dir k @ dir_slug k). \<not> is_upper c \<and> lower_char c = c"
  by (cases k; hypsubst; code_simp)

lemma dir_slug_hd: "dir_slug k \<noteq> []" "hd (dir_slug k) = CHR ''a''"
  by (cases k; simp)+

lemma dir_no_prefix: "prefix (dir_slug k) (dir_slug k') \<Longrightarrow> k = k'"
  by (cases k; cases k') simp_all

lemma slug_of_path:
  assumes m: "is_slug m"
  shows "slugify (kind_to_dir k @ ''/'' @ m @ ''.py'') = dir_slug k @ module_slug m"
proof -
  let ?d = "kind_to_dir k @ ''/''" and ?p = "kind_to_dir k @ ''/'' @ m @ ''.py''"
  let ?s = "dir_slug k @ module_slug m"
  note dir = dir_chars [of k]
  have low: "\<forall>c \<in> set ?p. \<not> is_upper c"
    using dir slug_chars(2) [OF m] by (auto simp: ends_py)
  have "squeeze True m = m"
    using m by (intro squeeze_clean) (auto simp: is_slug_def slug_char_alnum)
  moreover have "is_alnum (last m)" if "m \<noteq> []"
    using m that slug_char_alnum last_in_set [OF that] unfolding is_slug_def by blast
  ultimately have tail: "squeeze True (m @ ''.py'') = module_slug m"
    by (auto simp: squeeze_append module_slug_def ends_py)
  have "squeeze False ?p = squeeze False (?d @ (m @ ''.py''))" by simp
  also have "\<dots> = ?s"
    unfolding squeeze_append [of False ?d] squeeze_dir using tail by (simp add: ends_py)
  finally have sq: "squeeze False ?p = ?s" .
  have "hd ?s = CHR ''a''" "last ?s = CHR ''y''" "?s \<noteq> []"
    using dir_slug_hd [of k] by (auto simp: module_slug_def)
  then have strip: "py_strip (CHR ''_'') ?s = ?s"
    by (intro strip_id) simp
  have "lower_char (CHR ''p'') = CHR ''p'' \<and> lower_char (CHR ''y'') = CHR ''y''" by code_simp
  then have "lower_char c = c" if "c \<in> set ?s" for c
    using that dir slug_chars(3) [OF m] by (auto simp: module_slug_def split: if_splits)
  then have "py_lower ?s = ?s" unfolding py_lower_def by (rule map_idI)
  then show ?thesis
    unfolding slugify_def split_camel_lower [OF low] sq strip .
qed

lemma dir_slug_separates:
  assumes "dir_slug k @ module_slug m = dir_slug k' @ module_slug m'"
  shows "k = k' \<and> m = m'"
proof -
  have "prefix (dir_slug k) (dir_slug k') \<or> prefix (dir_slug k') (dir_slug k)"
    using assms by (metis prefixI prefix_same_cases)
  then have "k = k'" using dir_no_prefix by blast
  with assms show ?thesis by (simp add: module_slug_inj)
qed

lemma suggested_path:
  "\<exists>m. is_slug m \<and> suggest_target_path u = kind_to_dir (su_kind u) @ ''/'' @ m @ ''.py''"
  by (auto simp: suggest_target_path_def Let_def intro: module_name_slug)

interpretation fastapi_layout: target_layout fastapi_synthesis_adapter
proof
  fix u v
  obtain m where m: "is_slug m" "suggest_target_path u = kind_to_dir (su_kind u) @ ''/'' @ m @ ''.py''"
    using suggested_path [of u] by blast
  obtain n where n: "is_slug n" "suggest_target_path v = kind_to_dir (su_kind v) @ ''/'' @ n @ ''.py''"
    using suggested_path [of v] by blast
  have sep: "su_kind u = su_kind v \<and> m = n"
    if "slugify (suggest_target_path u) = slugify (suggest_target_path v)"
    using that unfolding m n slug_of_path [OF m(1)] slug_of_path [OF n(1)] by (rule dir_slug_separates)
  have suggest: "ts_suggest_target_path fastapi_synthesis_adapter = suggest_target_path"
    by (simp add: fastapi_synthesis_adapter_def)
  show "ts_suggest_target_path fastapi_synthesis_adapter u = ts_suggest_target_path fastapi_synthesis_adapter v"
    if "slugify (ts_suggest_target_path fastapi_synthesis_adapter u) =
      slugify (ts_suggest_target_path fastapi_synthesis_adapter v)"
    using sep [OF that [unfolded suggest]] unfolding suggest m(2) n(2) by simp
  show "su_kind u = su_kind v"
    if "ts_suggest_target_path fastapi_synthesis_adapter u = ts_suggest_target_path fastapi_synthesis_adapter v"
    using sep that [unfolded suggest] by simp
qed

text \<open>A migration to a stack without an adapter raises; to FastAPI it never does.\<close>

lemma run_synthesis_fastapi:
  "run_synthesis c ''fastapi'' None = run_synthesis c ''fastapi'' (Some fastapi_synthesis_adapter)"
  by (simp add: run_synthesis_def get_target_synthesis_adapter_def lookup_adapter_def TARGET_SYNTHESIS_ADAPTERS_def)

lemma get_target_synthesis_adapter_Inr:
  "get_target_synthesis_adapter k = Inr a \<longleftrightarrow> k = ''fastapi'' \<and> a = fastapi_synthesis_adapter"
  by (auto simp: get_target_synthesis_adapter_def lookup_adapter_def TARGET_SYNTHESIS_ADAPTERS_def)

end
