(* ===== verification/Numerals.thy ===== *)
theory Numerals
  imports Floats
begin

text \<open>
  Settings are strings of the environment that the sources read with \<open>os.environ.get(key, default)\<close> and
  convert with \<open>int(...)\<close> or \<open>float(...)\<close>. The theory models the two conversions on decimal numerals,
  with white space around them, a sign, underscores between digits, a fraction and an exponent, and
  their \<open>ValueError\<close>s. An integer printed with \<open>str\<close> is read back by both. The names of the infinities
  and of not-a-number are outside the model of floats (theory \<open>Floats\<close>) and count as no numeral; so are
  CPython's limit on the digits of an integer and digits beyond ASCII.
\<close>

section \<open>The environment\<close>

type_synonym environ = "(string \<times> string) list"

definition getenv :: "environ \<Rightarrow> string \<Rightarrow> string \<Rightarrow> string" where
  "getenv environ key alt = (case map_of environ key of None \<Rightarrow> alt | Some v \<Rightarrow> v)"

lemma getenv_simps [simp]:
  "map_of environ key = None \<Longrightarrow> getenv environ key alt = alt"
  "map_of environ key = Some v \<Longrightarrow> getenv environ key alt = v"
  by (simp_all add: getenv_def)

section \<open>Numerals\<close>

definition py_trim :: "string \<Rightarrow> string" where
  "py_trim s = rev (dropWhile is_space (rev (dropWhile is_space s)))"

text \<open>An underscore stands between two digits; the character before the string is passed first.\<close>

fun drop_underscores :: "char \<Rightarrow> string \<Rightarrow> string option" where
  "drop_underscores prev [] = (if prev = CHR ''_'' then None else Some [])"
| "drop_underscores prev (c # cs) =
     (if c = CHR ''_'' then (if is_digit prev then drop_underscores c cs else None)
      else if prev = CHR ''_'' \<and> \<not> is_digit c then None
      else map_option ((#) c) (drop_underscores c cs))"

text \<open>A sign, if any, and the rest.\<close>

definition split_sign :: "string \<Rightarrow> bool \<times> string" where
  "split_sign s =
     (case s of [] \<Rightarrow> (False, [])
      | c # t \<Rightarrow> if c = CHR ''-'' then (True, t) else if c = CHR ''+'' then (False, t) else (False, s))"

definition digits_value :: "string \<Rightarrow> nat option" where
  "digits_value s = (if s \<noteq> [] \<and> list_all is_digit s then Some (value_of_digits s) else None)"

definition signed :: "bool \<Rightarrow> 'a \<Rightarrow> 'a::uminus" where
  "signed neg x = (if neg then - x else x)"

definition int_literal :: "string \<Rightarrow> int option" where
  "int_literal s =
     (let (neg, t) = split_sign (py_trim s)
      in Option.bind (drop_underscores (CHR '' '') t) (\<lambda>u. map_option (\<lambda>n. signed neg (int n)) (digits_value u)))"

text \<open>The exponent of a float literal: nothing, or \<open>e\<close> with a signed integer.\<close>

definition exponent :: "string \<Rightarrow> int option" where
  "exponent s =
     (case s of [] \<Rightarrow> Some 0
      | c # t \<Rightarrow>
          if c = CHR ''e'' \<or> c = CHR ''E''
          then (let (neg, u) = split_sign t in map_option (\<lambda>n. signed neg (int n)) (digits_value u))
          else None)"

definition fraction :: "string \<Rightarrow> string \<times> string" where
  "fraction s =
     (case s of [] \<Rightarrow> ([], [])
      | c # t \<Rightarrow> if c = CHR ''.'' then (takeWhile is_digit t, dropWhile is_digit t) else ([], s))"

definition decimal :: "string \<Rightarrow> rat option" where
  "decimal s =
     (let whole = takeWhile is_digit s; (frac, rest) = fraction (dropWhile is_digit s)
      in if whole @ frac = [] then None
         else map_option (\<lambda>e. of_nat (value_of_digits (whole @ frac)) * 10 powi (e - int (length frac))) (exponent rest))"

definition float_literal :: "string \<Rightarrow> rat option" where
  "float_literal s =
     Option.bind (drop_underscores (CHR '' '') (py_trim s)) (\<lambda>u.
       let (neg, t) = split_sign u in map_option (signed neg) (decimal t))"

section \<open>The conversions\<close>

definition py_int :: "string \<Rightarrow> int result" where
  "py_int s = (case int_literal s of
     None \<Rightarrow> Inl (ValueError (''invalid literal for int() with base 10: '' @ take 200 (py_repr s)))
   | Some i \<Rightarrow> Inr i)"

definition py_float :: "string \<Rightarrow> rat result" where
  "py_float s = (case float_literal s of
     None \<Rightarrow> Inl (ValueError (''could not convert string to float: '' @ py_repr s))
   | Some x \<Rightarrow> Inr (fl x))"

section \<open>Printed integers are read back\<close>

lemma is_digit_space: "is_digit c \<Longrightarrow> \<not> is_space c"
  by (auto simp: is_digit_def is_space_def)

lemma is_digit_char: "d < 10 \<Longrightarrow> is_digit (digit_char d)"
  by (simp add: is_digit_def ordc_digit_char)

lemma str_nat_digits: "list_all is_digit (str_nat n)"
proof (induction n rule: str_nat.induct)
  case (1 n)
  show ?case
  proof (cases "n < 10")
    case True
    then show ?thesis by (subst str_nat.simps) (simp add: is_digit_char)
  next
    case False
    then have "str_nat n = str_nat (n div 10) @ [digit_char (n mod 10)]" by (subst str_nat.simps) simp
    with 1 [OF False] show ?thesis by (simp add: is_digit_char)
  qed
qed

lemma py_trim_id:
  assumes "s \<noteq> []" "\<not> is_space (hd s)" "\<not> is_space (last s)"
  shows "py_trim s = s"
proof -
  have d: "dropWhile is_space t = t" if "t \<noteq> []" "\<not> is_space (hd t)" for t
    using that by (cases t) auto
  show ?thesis unfolding py_trim_def using assms by (simp add: d hd_rev)
qed

lemma is_digit_not_underscore: "is_digit c \<Longrightarrow> c \<noteq> CHR ''_''"
  by (auto simp: is_digit_def ordc_def)

lemma drop_underscores_digits: "list_all is_digit s \<Longrightarrow> prev \<noteq> CHR ''_'' \<Longrightarrow> drop_underscores prev s = Some s"
proof (induction s arbitrary: prev)
  case (Cons c s)
  then show ?case using is_digit_not_underscore [of c] by simp
qed simp

lemma digits_value_str_nat: "digits_value (str_nat n) = Some n"
  by (simp add: digits_value_def str_nat_digits value_of_str_nat)

lemma str_nat_ends: "is_digit (hd (str_nat n))" "is_digit (last (str_nat n))"
  using str_nat_digits [of n] by (simp_all add: list_all_iff)

lemma split_sign_digit: "s \<noteq> [] \<Longrightarrow> is_digit (hd s) \<Longrightarrow> split_sign s = (False, s)"
  by (cases s) (auto simp: split_sign_def is_digit_def ordc_def)

lemma str_int_trim: "py_trim (str_int i) = str_int i"
proof -
  have "\<not> is_space (CHR ''-'')" by (simp add: is_space_def ordc_def)
  then show ?thesis
    by (intro py_trim_id) (auto simp: str_int_def is_digit_space str_nat_ends)
qed

lemma split_str_int: "split_sign (str_int i) = (i < 0, str_nat (nat \<bar>i\<bar>))"
  by (auto simp: str_int_def split_sign_digit str_nat_ends) (simp add: split_sign_def)

lemma signed_abs [simp]: "signed (i < 0) \<bar>i\<bar> = (i::int)"
  by (simp add: signed_def)

lemma py_int_str_int: "py_int (str_int i) = Inr i"
  by (simp add: py_int_def int_literal_def str_int_trim split_str_int drop_underscores_digits str_nat_digits
      digits_value_str_nat)

text \<open>Both conversions agree on printed integers, up to the rounding of the float.\<close>

lemma decimal_str_nat: "decimal (str_nat n) = Some (of_nat n)"
proof -
  have w: "takeWhile is_digit (str_nat n) = str_nat n" "dropWhile is_digit (str_nat n) = []"
    using str_nat_digits [of n] by (auto simp: takeWhile_eq_all_conv dropWhile_eq_Nil_conv list_all_iff)
  show ?thesis by (simp add: decimal_def w fraction_def exponent_def value_of_str_nat Let_def)
qed

lemma str_int_underscores: "drop_underscores (CHR '' '') (str_int i) = Some (str_int i)"
  by (auto simp: str_int_def drop_underscores_digits str_nat_digits)

lemma py_float_str_int: "py_float (str_int i) = Inr (fl (of_int i))"
  by (simp add: py_float_def float_literal_def str_int_trim str_int_underscores split_str_int decimal_str_nat signed_def)

text \<open>A literal for a whole number of at most 53 bits is exact.\<close>

lemma py_float_integer: "float_literal s = Some (of_int m) \<Longrightarrow> \<bar>m\<bar> \<le> 2 ^ 53 \<Longrightarrow> py_float s = Inr (of_int m)"
  by (simp add: py_float_def fl_of_int)

text \<open>A conversion raises a \<open>ValueError\<close> and nothing else, and a float is a float.\<close>

lemma py_int_raises: "py_int s = Inl e \<Longrightarrow> \<exists>m. e = ValueError m"
  by (auto simp: py_int_def split: option.splits)

lemma py_float_raises: "py_float s = Inl e \<Longrightarrow> \<exists>m. e = ValueError m"
  by (auto simp: py_float_def split: option.splits)

lemma py_float_is_float: "py_float s = Inr x \<Longrightarrow> is_float x"
  by (auto simp: py_float_def split: option.splits)

text \<open>A numeral without a minus sign is not negative.\<close>

lemma decimal_nonneg: "decimal s = Some x \<Longrightarrow> 0 \<le> x"
  by (auto simp: decimal_def Let_def split: prod.splits if_splits)

lemma py_float_nonneg:
  assumes "py_float s = Inr x" "CHR ''-'' \<notin> set s"
  shows "0 \<le> x"
proof -
  have sub: "set u \<subseteq> set t" if "drop_underscores p t = Some u" for p t u
    using that by (induction t arbitrary: p u) (auto split: if_splits, blast+)
  have trim: "set (py_trim s) \<subseteq> set s"
    unfolding py_trim_def by (auto dest!: set_dropWhileD)
  obtain u where u: "drop_underscores (CHR '' '') (py_trim s) = Some u"
    and x: "x = fl (the (float_literal s))" "float_literal s \<noteq> None"
    using assms(1) by (auto simp: py_float_def float_literal_def split: option.splits Option.bind_splits)
  have "CHR ''-'' \<notin> set u" using sub [OF u] trim assms(2) by auto
  then have "\<not> fst (split_sign u)" by (auto simp: split_sign_def split: list.splits)
  with u x show ?thesis
    by (auto simp: float_literal_def signed_def dest!: decimal_nonneg intro: fl.rnd_nonneg split: prod.splits)
qed

end
