(* ===== verification/Llm.thy ===== *)
theory Llm
  imports Graph_State Numerals
begin

text \<open>
  \<open>app/core/llm.py\<close>: the settings read from the environment, the data exchanged with the model calls,
  the model a client builds once, and the three clients' wrapping of a reply with its cost. The model itself is a parameter of the nodes: a function from prompts to a reply or an
  exception. With \<open>include_raw=True\<close> the structured-output wrapper reports a reply it cannot parse by
  a missing \<open>parsed\<close> value instead of an exception, so \<open>lr_result\<close> is an option.
\<close>

record raw_extracted_unit =
  ru_kind :: semantic_unit_kind
  ru_name :: string
  ru_payload :: payload
  ru_stack_specific_hints :: hints

record file_extraction_result =
  fx_units :: "raw_extracted_unit list"
  fx_ambiguities :: "string list"

record editor_generation_result =
  eg_files :: "file_diff list"
  eg_notes :: string

record error_analysis_llm_result =
  el_analyses :: "error_analysis list"
  el_unattributable_summary :: string

text \<open>\<open>ExtractionResponse\<close>, \<open>EditorResponse\<close> and \<open>ErrorAnalysisResponse\<close> have the same shape.\<close>

record 'a llm_response =
  lr_result :: "'a option"
  lr_cost_usd :: rat
  lr_input_tokens :: int
  lr_output_tokens :: int

type_synonym extraction_response = "file_extraction_result llm_response"
type_synonym editor_response = "editor_generation_result llm_response"
type_synonym error_analysis_response = "error_analysis_llm_result llm_response"

text \<open>The reply of the wrapped model: \<open>raw["parsed"]\<close> and the usage metadata, if any.\<close>

record 'a raw_reply =
  rr_parsed :: "'a option"
  rr_usage :: "(string \<times> int) list option"

section \<open>Settings, read when the module is imported\<close>

definition DEFAULT_INPUT_COST_PER_MTOK :: "environ \<Rightarrow> rat result" where
  "DEFAULT_INPUT_COST_PER_MTOK environ = py_float (getenv environ ''ANTHROPIC_INPUT_COST_PER_MTOK'' ''3.00'')"

definition DEFAULT_OUTPUT_COST_PER_MTOK :: "environ \<Rightarrow> rat result" where
  "DEFAULT_OUTPUT_COST_PER_MTOK environ = py_float (getenv environ ''ANTHROPIC_OUTPUT_COST_PER_MTOK'' ''15.00'')"

definition DEFAULT_MODEL :: "environ \<Rightarrow> string" where
  "DEFAULT_MODEL environ = getenv environ ''COMPREHENSION_MODEL'' ''claude-sonnet-4-6''"

definition EDITOR_MODEL :: "environ \<Rightarrow> string" where
  "EDITOR_MODEL environ = getenv environ ''EDITOR_MODEL'' ''claude-sonnet-4-6''"

definition ERROR_ANALYSIS_MODEL :: "environ \<Rightarrow> string" where
  "ERROR_ANALYSIS_MODEL environ = getenv environ ''ERROR_ANALYSIS_MODEL'' ''claude-sonnet-4-6''"

text \<open>The two prices per million tokens that the clients see; a setting that is no number fails the import.\<close>

record prices =
  pr_input :: rat
  pr_output :: rat

definition load_prices :: "environ \<Rightarrow> prices result" where
  "load_prices environ =
     try_bind (DEFAULT_INPUT_COST_PER_MTOK environ) (\<lambda>i.
     try_bind (DEFAULT_OUTPUT_COST_PER_MTOK environ) (\<lambda>j. Inr \<lparr>pr_input = i, pr_output = j\<rparr>))"

section \<open>The wrapped model\<close>

text \<open>
  What a client asks of \<open>ChatAnthropic\<close>. The model is built on the first call and kept; what is
  built from the settings is langchain's.
\<close>

record chat_settings =
  ch_model :: string
  ch_timeout :: int
  ch_max_retries :: int
  ch_schema :: string
  ch_include_raw :: bool

definition extraction_settings :: "string \<Rightarrow> chat_settings" where
  "extraction_settings model = \<lparr>ch_model = model, ch_timeout = 120, ch_max_retries = 2,
     ch_schema = ''FileExtractionResult'', ch_include_raw = True\<rparr>"

definition editor_settings :: "string \<Rightarrow> chat_settings" where
  "editor_settings model = \<lparr>ch_model = model, ch_timeout = 180, ch_max_retries = 2,
     ch_schema = ''EditorGenerationResult'', ch_include_raw = True\<rparr>"

definition error_analysis_settings :: "string \<Rightarrow> chat_settings" where
  "error_analysis_settings model = \<lparr>ch_model = model, ch_timeout = 120, ch_max_retries = 2,
     ch_schema = ''ErrorAnalysisLLMResult'', ch_include_raw = True\<rparr>"

record 'm llm_client =
  lc_model_name :: string
  lc_structured_model :: "'m option"

definition new_client :: "string \<Rightarrow> 'm llm_client" where
  "new_client model = \<lparr>lc_model_name = model, lc_structured_model = None\<rparr>"

text \<open>\<open>_get_model\<close>: the model, and the client that now holds it.\<close>

definition get_model ::
  "(chat_settings \<Rightarrow> 'm) \<Rightarrow> (string \<Rightarrow> chat_settings) \<Rightarrow> 'm llm_client \<Rightarrow> 'm \<times> 'm llm_client" where
  "get_model build settings cl =
     (case lc_structured_model cl of
        None \<Rightarrow> (let m = build (settings (lc_model_name cl)) in (m, cl\<lparr>lc_structured_model := Some m\<rparr>))
      | Some m \<Rightarrow> (m, cl))"

text \<open>However often it is asked for, a client has one model: the one its own name and settings describe.\<close>

lemma get_model_stable:
  "fst (get_model build settings (((\<lambda>c. snd (get_model build settings c)) ^^ n) (new_client name))) = build (settings name)"
proof -
  have "((\<lambda>c. snd (get_model build settings c)) ^^ n) (new_client name) \<in>
      {new_client name, \<lparr>lc_model_name = name, lc_structured_model = Some (build (settings name))\<rparr>}"
    by (induction n) (auto simp: get_model_def new_client_def Let_def)
  then show ?thesis by (auto simp: get_model_def new_client_def Let_def)
qed

section \<open>Calls and their cost\<close>

definition token_cost :: "prices \<Rightarrow> int \<Rightarrow> int \<Rightarrow> rat" where
  "token_cost prices input_tokens output_tokens =
     fadd (fmul (fdiv (of_int input_tokens) 1000000) (pr_input prices))
          (fmul (fdiv (of_int output_tokens) 1000000) (pr_output prices))"

definition usage_tokens :: "string \<Rightarrow> (string \<times> int) list option \<Rightarrow> int" where
  "usage_tokens key usage =
     (case usage of None \<Rightarrow> 0 | Some u \<Rightarrow> (case map_of u key of None \<Rightarrow> 0 | Some n \<Rightarrow> n))"

text \<open>The body of \<open>extract\<close>, \<open>generate\<close> and \<open>analyze\<close>.\<close>

definition wrap_reply :: "prices \<Rightarrow> 'a raw_reply \<Rightarrow> 'a llm_response" where
  "wrap_reply prices raw =
     (let input_tokens = usage_tokens ''input_tokens'' (rr_usage raw);
          output_tokens = usage_tokens ''output_tokens'' (rr_usage raw)
      in \<lparr>lr_result = rr_parsed raw, lr_cost_usd = token_cost prices input_tokens output_tokens,
          lr_input_tokens = input_tokens, lr_output_tokens = output_tokens\<rparr>)"

definition client_call :: "prices \<Rightarrow> (string \<Rightarrow> 'a raw_reply result) \<Rightarrow> string \<Rightarrow> 'a llm_response result" where
  "client_call prices model prompt = try_bind (model prompt) (\<lambda>raw. Inr (wrap_reply prices raw))"

text \<open>The three clients differ in the schema they ask for.\<close>

definition extraction_client ::
  "prices \<Rightarrow> (string \<Rightarrow> file_extraction_result raw_reply result) \<Rightarrow> string \<Rightarrow> extraction_response result" where
  "extraction_client prices model prompt = client_call prices model prompt"

definition editor_client ::
  "prices \<Rightarrow> (string \<Rightarrow> editor_generation_result raw_reply result) \<Rightarrow> string \<Rightarrow> editor_response result" where
  "editor_client prices model prompt = client_call prices model prompt"

definition error_analysis_client ::
  "prices \<Rightarrow> (string \<Rightarrow> error_analysis_llm_result raw_reply result) \<Rightarrow> string \<Rightarrow> error_analysis_response result" where
  "error_analysis_client prices model prompt = client_call prices model prompt"

text \<open>\<open>response.result.attr\<close> on a missing result.\<close>

definition attr :: "string \<Rightarrow> 'a option \<Rightarrow> 'a result" where
  "attr name r = (case r of
     None \<Rightarrow> Inl (ForeignError ''AttributeError''
       ([CHR 0x27] @ ''NoneType'' @ [CHR 0x27] @ '' object has no attribute '' @ [CHR 0x27] @ name @ [CHR 0x27]))
   | Some x \<Rightarrow> Inr x)"

lemma attr_simps [simp]: "attr n (Some x) = Inr x" "attr n r = Inr y \<longleftrightarrow> r = Some y"
  by (auto simp: attr_def split: option.splits)

section \<open>Costs are floats and never negative\<close>

lemma token_cost_ok:
  assumes "0 \<le> pr_input p" "0 \<le> pr_output p" "0 \<le> i" "0 \<le> j"
  shows "0 \<le> token_cost p i j" "is_float (token_cost p i j)"
  using assms by (simp_all add: token_cost_def fadd_nonneg fmul_nonneg fdiv_nonneg)

lemma token_cost_mono:
  assumes "0 \<le> pr_input p" "0 \<le> pr_output p" "i \<le> i'" "j \<le> j'"
  shows "token_cost p i j \<le> token_cost p i' j'"
proof -
  have "fmul (fdiv (of_int a) 1000000) r \<le> fmul (fdiv (of_int b) 1000000) r" if "a \<le> b" "0 \<le> r" for a b r
    unfolding fmul_def fdiv_def using that
    by (intro fl_mono mult_right_mono) (auto intro!: divide_right_mono fl_mono)
  from this [OF assms(3,1)] this [OF assms(4,2)] show ?thesis
    unfolding token_cost_def fadd_def by (intro fl.add_mono) simp_all
qed

text \<open>Settings without a minus sign give prices that are not negative; the defaults are 3 and 15 dollars.\<close>

lemma load_prices_nonneg:
  assumes "load_prices environ = Inr p"
    and "\<forall>key \<in> {''ANTHROPIC_INPUT_COST_PER_MTOK'', ''ANTHROPIC_OUTPUT_COST_PER_MTOK''}.
      \<forall>v. map_of environ key = Some v \<longrightarrow> CHR ''-'' \<notin> set v"
  shows "0 \<le> pr_input p" "0 \<le> pr_output p"
proof -
  have "CHR ''-'' \<notin> set (getenv environ key alt)"
    if "key \<in> {''ANTHROPIC_INPUT_COST_PER_MTOK'', ''ANTHROPIC_OUTPUT_COST_PER_MTOK''}" "CHR ''-'' \<notin> set alt" for key alt
    using assms(2) that by (auto simp: getenv_def split: option.split)
  note minus = this
  obtain i j where "py_float (getenv environ ''ANTHROPIC_INPUT_COST_PER_MTOK'' ''3.00'') = Inr i"
    "py_float (getenv environ ''ANTHROPIC_OUTPUT_COST_PER_MTOK'' ''15.00'') = Inr j" "p = \<lparr>pr_input = i, pr_output = j\<rparr>"
    using assms(1) by (auto simp: load_prices_def DEFAULT_INPUT_COST_PER_MTOK_def DEFAULT_OUTPUT_COST_PER_MTOK_def)
  then show "0 \<le> pr_input p" "0 \<le> pr_output p"
    using py_float_nonneg minus by fastforce+
qed

lemma load_prices_defaults: "load_prices [] = Inr \<lparr>pr_input = 3, pr_output = 15\<rparr>"
proof -
  have "float_literal ''3.00'' = Some (of_int 3)" "float_literal ''15.00'' = Some (of_int 15)" by code_simp+
  then show ?thesis
    by (simp add: load_prices_def DEFAULT_INPUT_COST_PER_MTOK_def DEFAULT_OUTPUT_COST_PER_MTOK_def py_float_integer
        del: of_int_numeral)
qed

end
