(* ===== verification/Budget.thy ===== *)
theory Budget
  imports Graph_State
begin

text \<open>
  \<open>BudgetState\<close> of \<open>app/graph/state/budget.py\<close>: the three ceilings, the reasons for exhaustion, the
  accounting of calls and the sizing of a parallel wave. A method that reads the clock takes the
  reading as its argument \<open>now\<close> (\<open>time.time()\<close> in the source), so two reads in one caller are two
  arguments. Amounts are floats (theory \<open>Floats\<close>), counts are unbounded integers.
\<close>

named_theorems budget_simps "the ceilings of a budget"

section \<open>Operations\<close>

definition remaining_usd :: "budget_state \<Rightarrow> rat" where
  "remaining_usd b = max 0 (fsub (bs_max_usd b) (bs_spent_usd b))"

definition elapsed_seconds :: "budget_state \<Rightarrow> rat \<Rightarrow> rat" where
  "elapsed_seconds b now = fsub now (bs_started_at b)"

definition wall_clock_exceeded :: "budget_state \<Rightarrow> rat \<Rightarrow> bool" where
  "wall_clock_exceeded b now \<longleftrightarrow> of_int (bs_max_wall_clock_seconds b) \<le> elapsed_seconds b now"

definition exhausted_reason :: "budget_state \<Rightarrow> rat \<Rightarrow> string option" where
  "exhausted_reason b now =
     (if bs_max_usd b \<le> bs_spent_usd b
      then Some (''cost ceiling reached ($'' @ format_fixed 2 (bs_spent_usd b) @ '' of $''
             @ format_fixed 2 (bs_max_usd b) @ '')'')
      else if bs_max_llm_calls b \<le> bs_llm_calls_made b
      then Some (''LLM call cap reached ('' @ str_int (bs_llm_calls_made b) @ '' of ''
             @ str_int (bs_max_llm_calls b) @ '')'')
      else if wall_clock_exceeded b now
      then Some (''wall-clock limit reached ('' @ format_fixed 0 (elapsed_seconds b now) @ ''s of ''
             @ str_int (bs_max_wall_clock_seconds b) @ ''s)'')
      else None)"

definition is_exhausted :: "budget_state \<Rightarrow> rat \<Rightarrow> bool" where
  "is_exhausted b now \<longleftrightarrow> exhausted_reason b now \<noteq> None"

definition record_call :: "budget_state \<Rightarrow> rat \<Rightarrow> int \<Rightarrow> bool \<Rightarrow> budget_state" where
  "record_call b cost_usd calls track_max =
     (let b = b\<lparr>bs_spent_usd := fadd (bs_spent_usd b) cost_usd,
                bs_llm_calls_made := bs_llm_calls_made b + calls\<rparr>
      in if track_max \<and> 0 < calls
         then b\<lparr>bs_max_call_cost_usd := max (bs_max_call_cost_usd b) (fdiv cost_usd (of_int calls))\<rparr>
         else b)"

text \<open>\<open>self.max_call_cost_usd or self.default_call_reserve_usd\<close>: zero counts as unset.\<close>

definition call_reserve :: "budget_state \<Rightarrow> rat" where
  "call_reserve b =
     (if bs_max_call_cost_usd b \<noteq> 0 then bs_max_call_cost_usd b else bs_default_call_reserve_usd b)"

definition epsilon :: rat where
  "epsilon = fl (1 / 10 ^ 9)"

definition affordable_calls :: "budget_state \<Rightarrow> int \<Rightarrow> rat \<Rightarrow> int result" where
  "affordable_calls b wanted now =
     (if wanted \<le> 0 \<or> is_exhausted b now then Inr 0
      else let reserve = call_reserve b
           in if reserve = 0 then Inl (ZeroDivisionError ''float floor division by zero'')
              else Inr (max 1 (min wanted (floordiv (fadd (remaining_usd b) epsilon) reserve))))"

text \<open>The pydantic defaults of a new budget; \<open>started_at\<close> is the clock at its creation.\<close>

definition new_budget :: "rat \<Rightarrow> int \<Rightarrow> int \<Rightarrow> rat \<Rightarrow> budget_state" where
  "new_budget max_usd max_llm_calls max_wall now =
     \<lparr>bs_max_usd = max_usd, bs_spent_usd = 0, bs_max_llm_calls = max_llm_calls,
      bs_llm_calls_made = 0, bs_max_wall_clock_seconds = max_wall, bs_started_at = now,
      bs_max_call_cost_usd = 0, bs_default_call_reserve_usd = 1 / 4\<rparr>"

section \<open>Ceilings\<close>

lemma not_exhausted_iff [budget_simps]:
  "\<not> is_exhausted b now \<longleftrightarrow>
     bs_spent_usd b < bs_max_usd b \<and> bs_llm_calls_made b < bs_max_llm_calls b \<and>
     elapsed_seconds b now < of_int (bs_max_wall_clock_seconds b)"
  by (auto simp: is_exhausted_def exhausted_reason_def wall_clock_exceeded_def)

lemma record_call_fields [budget_simps]:
  "bs_spent_usd (record_call b c n t) = fadd (bs_spent_usd b) c"
  "bs_llm_calls_made (record_call b c n t) = bs_llm_calls_made b + n"
  "bs_max_usd (record_call b c n t) = bs_max_usd b"
  "bs_max_llm_calls (record_call b c n t) = bs_max_llm_calls b"
  "bs_max_wall_clock_seconds (record_call b c n t) = bs_max_wall_clock_seconds b"
  "bs_started_at (record_call b c n t) = bs_started_at b"
  "bs_default_call_reserve_usd (record_call b c n t) = bs_default_call_reserve_usd b"
  by (simp_all add: record_call_def Let_def)

lemma elapsed_mono: "now \<le> now' \<Longrightarrow> elapsed_seconds b now \<le> elapsed_seconds b now'"
  unfolding elapsed_seconds_def fsub_def by (rule fl_mono) simp

text \<open>
  The accounting invariant: spend, and the largest single call, are floats that never go below
  zero, the reserve is positive.
\<close>

definition budget_ok :: "budget_state \<Rightarrow> bool" where
  "budget_ok b \<longleftrightarrow> is_float (bs_max_usd b) \<and> is_float (bs_spent_usd b) \<and> 0 \<le> bs_spent_usd b \<and>
     is_float (bs_max_call_cost_usd b) \<and> 0 \<le> bs_max_call_cost_usd b \<and>
     0 < bs_default_call_reserve_usd b"

lemma budget_ok_new: "is_float m \<Longrightarrow> budget_ok (new_budget m c w now)"
  by (simp add: budget_ok_def new_budget_def)

lemma budget_ok_record_call:
  assumes "budget_ok b" "0 \<le> c"
  shows "budget_ok (record_call b c n t)"
proof -
  have "is_float (max x (fdiv c y))" if "is_float x" for x y
    using that by (simp add: max_def)
  with assms show ?thesis
    by (auto simp: budget_ok_def record_call_def Let_def fadd_nonneg max.coboundedI1)
qed

lemma call_reserve_pos: "budget_ok b \<Longrightarrow> 0 < call_reserve b"
  by (auto simp: budget_ok_def call_reserve_def)

text \<open>Once a ceiling is reached, recording more calls and letting time pass never lifts it.\<close>

lemma record_call_keeps_exhausted:
  assumes "budget_ok b" "0 \<le> c" "0 \<le> n" "now \<le> now'" "is_exhausted b now"
  shows "is_exhausted (record_call b c n t) now'"
proof (rule ccontr)
  assume "\<not> ?thesis"
  then have lt: "fadd (bs_spent_usd b) c < bs_max_usd b" "bs_llm_calls_made b + n < bs_max_llm_calls b"
    "elapsed_seconds b now' < of_int (bs_max_wall_clock_seconds b)"
    by (auto simp: budget_simps elapsed_seconds_def)
  moreover have "bs_spent_usd b \<le> fadd (bs_spent_usd b) c"
    using assms by (simp add: budget_ok_def fadd_ge)
  moreover have "elapsed_seconds b now \<le> elapsed_seconds b now'"
    using assms(4) by (rule elapsed_mono)
  ultimately have "\<not> is_exhausted b now"
    using assms(3) unfolding not_exhausted_iff by linarith
  with assms(5) show False by simp
qed

section \<open>Sizing a wave\<close>

lemma affordable_calls_total:
  "budget_ok b \<Longrightarrow> \<exists>k. affordable_calls b wanted now = Inr k"
  using call_reserve_pos [of b] by (auto simp: affordable_calls_def Let_def)

lemma affordable_calls_range:
  assumes "affordable_calls b wanted now = Inr k"
  shows "0 \<le> k" and "k \<le> max 0 wanted" and "k = 0 \<longleftrightarrow> wanted \<le> 0 \<or> is_exhausted b now"
  using assms by (auto simp: affordable_calls_def Let_def split: if_splits)

text \<open>
  A wave of more than one call fits, at the largest call cost seen so far, into the remaining
  budget plus the epsilon of the float division.
\<close>

lemma affordable_calls_fit:
  assumes "budget_ok b" "affordable_calls b wanted now = Inr k" "1 < k"
  shows "of_int k * call_reserve b \<le> fadd (remaining_usd b) epsilon"
proof -
  let ?q = "fadd (remaining_usd b) epsilon / call_reserve b"
  have r: "0 < call_reserve b" using assms(1) by (rule call_reserve_pos)
  have "k = max 1 (min wanted \<lfloor>?q\<rfloor>)"
    using assms r by (auto simp: affordable_calls_def Let_def floordiv_def split: if_splits)
  with assms(3) have "k \<le> \<lfloor>?q\<rfloor>" by linarith
  then have "of_int k \<le> ?q" by linarith
  then show ?thesis using r by (simp add: pos_le_divide_eq)
qed

lemma sum_list_le_count: "\<forall>c \<in> set cs. c \<le> (r::rat) \<Longrightarrow> sum_list cs \<le> of_nat (length cs) * r"
  by (induction cs) (auto simp: algebra_simps intro: add_mono)

end
