(* ===== verification/Comprehension.thy ===== *)
theory Comprehension
  imports Llm Adapters Budget
begin

text \<open>
  \<open>app/graph/nodes/comprehension.py\<close>: extraction file by file under the remaining budget, fresh unit
  identifiers, and the resolution of names between files. The extractor is a parameter: a function
  from the number of the file and the prompt to a reply or an exception, so that equal prompts may
  be answered differently. The loop also records which prompts were sent and what had been spent by
  then. The lemmas: identifiers are fresh, dependencies resolve to other units of the result, every
  reference is resolved or reported, and no call is made once the budget is used up.
\<close>

section \<open>Identifiers\<close>

text \<open>
  The \<open>while\<close> loop of \<open>_assign_id\<close> from its second candidate on. It stops because only finitely many
  identifiers are used.
\<close>

definition numbered :: "string \<Rightarrow> nat \<Rightarrow> string" where
  "numbered base n = base @ ''_'' @ str_nat n"

lemma numbered_inj [simp]: "numbered base m = numbered base n \<longleftrightarrow> m = n"
  by (simp add: numbered_def)

function next_free :: "string \<Rightarrow> string list \<Rightarrow> nat \<Rightarrow> string" where
  "next_free base used n =
     (if numbered base n \<in> set used then next_free base used (n + 1) else numbered base n)"
  by pat_completeness auto

definition taken_from :: "string \<Rightarrow> string list \<Rightarrow> nat \<Rightarrow> nat set" where
  "taken_from base used n = {k. n \<le> k \<and> numbered base k \<in> set used}"

lemma finite_taken: "finite (taken_from base used n)"
proof -
  have "finite ({k. numbered base k \<in> set used})"
    using finite_vimageI [of "set used" "numbered base"] by (simp add: inj_def vimage_def)
  then show ?thesis by (rule rev_finite_subset) (auto simp: taken_from_def)
qed

lemma taken_step: "numbered base n \<in> set used \<Longrightarrow> card (taken_from base used (n + 1)) < card (taken_from base used n)"
proof (intro psubset_card_mono finite_taken psubsetI)
  assume "numbered base n \<in> set used"
  then have "n \<in> taken_from base used n" "n \<notin> taken_from base used (n + 1)"
    by (auto simp: taken_from_def)
  then show "taken_from base used (n + 1) \<noteq> taken_from base used n" by blast
qed (auto simp: taken_from_def)

termination next_free
  by (relation "measure (\<lambda>(base, used, n). card (taken_from base used n))") (auto dest: taken_step)

declare next_free.simps [simp del]

definition assign_id :: "string \<Rightarrow> string \<Rightarrow> string list \<Rightarrow> string \<times> string list" where
  "assign_id kind_val name used_ids =
     (let base = kind_val @ ''::'' @ slugify name;
          candidate = (if base \<in> set used_ids then next_free base used_ids 2 else base)
      in (candidate, candidate # used_ids))"

section \<open>References\<close>

definition referenced_names :: "payload \<Rightarrow> string list" where
  "referenced_names p =
     (case p of
        Endpoint_Unit e \<Rightarrow> ep_calls_services e
          @ (case ep_request_body_model e of None \<Rightarrow> [] | Some m \<Rightarrow> if m = '''' then [] else [m])
          @ (case ep_response_model e of None \<Rightarrow> [] | Some m \<Rightarrow> if m = '''' then [] else [m])
      | Service_Unit v \<Rightarrow> sv_depends_on v
      | Repository_Unit r \<Rightarrow> [rp_target_data_model r]
      | Data_Model_Unit d \<Rightarrow> concat (map find_capitalized_tokens (dm_relationships d))
      | _ \<Rightarrow> [])"

record pending_unit =
  pu_raw :: raw_extracted_unit
  pu_source_relative_path :: string
  pu_assigned_id :: string

definition name_table :: "pending_unit list \<Rightarrow> (string \<times> string) list" where
  "name_table pending = foldl (\<lambda>d pu. let key = py_lower (ru_name (pu_raw pu))
      in if key \<in> set (dict_keys d) then d else dict_put key (pu_assigned_id pu) d) [] pending"

definition missing_reference :: "string \<Rightarrow> string \<Rightarrow> string" where
  "missing_reference unit_id ref_name =
     [CHR 0x27] @ unit_id @ [CHR 0x27] @ '' references '' @ [CHR 0x27] @ ref_name @ [CHR 0x27]
     @ '', which was not found among analyzed units (likely outside the migration scope, ''
     @ ''or a built-in/library type).''"

text \<open>One unit's resolution: the identifiers it depends on and the ambiguities to report.\<close>

fun resolve_names :: "(string \<times> string) list \<Rightarrow> string \<Rightarrow> string list \<Rightarrow> string list \<times> string list" where
  "resolve_names names unit_id [] = ([], [])"
| "resolve_names names unit_id (ref_name # rest) =
     (let (deps, notes) = resolve_names names unit_id rest
      in case map_of names (py_lower ref_name) of
           Some resolved \<Rightarrow>
             if resolved \<noteq> '''' \<and> resolved \<noteq> unit_id then (resolved # deps, notes)
             else if ref_name \<noteq> '''' then (deps, missing_reference unit_id ref_name # notes)
             else (deps, notes)
         | None \<Rightarrow> if ref_name \<noteq> '''' then (deps, missing_reference unit_id ref_name # notes)
                   else (deps, notes))"

definition resolve_unit :: "(string \<times> string) list \<Rightarrow> pending_unit \<Rightarrow> semantic_unit \<times> string list" where
  "resolve_unit names pu =
     (let (deps, notes) = resolve_names names (pu_assigned_id pu) (referenced_names (ru_payload (pu_raw pu)))
      in (\<lparr>su_id = pu_assigned_id pu, su_kind = ru_kind (pu_raw pu),
           su_source_files = [pu_source_relative_path pu], su_depends_on_unit_ids = deps,
           su_payload = ru_payload (pu_raw pu),
           su_stack_specific_hints = ru_stack_specific_hints (pu_raw pu)\<rparr>, notes))"

section \<open>The extraction loop\<close>

record loop_state =
  ls_total_cost :: rat
  ls_error_log :: "string list"
  ls_ambiguities :: "string list"
  ls_pending :: "pending_unit list"
  ls_used_ids :: "string list"
  ls_calls :: "(rat \<times> string) list" \<comment> \<open>cost so far and prompt of every call, in order\<close>

fun add_units :: "string \<Rightarrow> raw_extracted_unit list \<Rightarrow> loop_state \<Rightarrow> loop_state" where
  "add_units rel [] st = st"
| "add_units rel (raw # raws) st =
     (let (unit_id, used) = assign_id (kind_value (ru_kind raw)) (ru_name raw) (ls_used_ids st)
      in add_units rel raws (st\<lparr>ls_used_ids := used,
           ls_pending := ls_pending st @ [\<lparr>pu_raw = raw, pu_source_relative_path = rel, pu_assigned_id = unit_id\<rparr>]\<rparr>))"

definition index_of :: "'a \<Rightarrow> 'a list \<Rightarrow> nat" where
  "index_of x xs = length (takeWhile (\<lambda>y. y \<noteq> x) xs)"

fun extract_files ::
  "(nat \<Rightarrow> string \<Rightarrow> extraction_response result) \<Rightarrow> (discovered_file \<Rightarrow> string) \<Rightarrow> rat \<Rightarrow>
     discovered_file list \<Rightarrow> nat \<Rightarrow> discovered_file list \<Rightarrow> loop_state \<Rightarrow> loop_state result" where
  "extract_files extractor build_prompt remaining files i [] st = Inr st"
| "extract_files extractor build_prompt remaining files i (file # rest) st =
     (if remaining \<le> ls_total_cost st
      then Inr (st\<lparr>ls_error_log := ls_error_log st @
                     [''Budget exhausted before analyzing '' @ [CHR 0x27] @ df_relative_path file @ [CHR 0x27]
                      @ '' ('' @ str_nat (length files - index_of file files) @ '' file(s) skipped).''],
                   ls_ambiguities := ls_ambiguities st @
                     [[CHR 0x27] @ df_relative_path file @ [CHR 0x27] @ '' was not analyzed: budget exhausted.'']\<rparr>)
      else
        let prompt = build_prompt file; st = st\<lparr>ls_calls := ls_calls st @ [(ls_total_cost st, prompt)]\<rparr>
        in case extractor i prompt of
          Inl exc \<Rightarrow> extract_files extractor build_prompt remaining files (i + 1) rest
            (st\<lparr>ls_error_log := ls_error_log st @
                  [''Extraction failed for '' @ [CHR 0x27] @ df_relative_path file @ [CHR 0x27] @ '': '' @ exn_repr exc],
                ls_ambiguities := ls_ambiguities st @
                  [[CHR 0x27] @ df_relative_path file @ [CHR 0x27]
                   @ '' could not be analyzed due to an extraction error.'']\<rparr>)
        | Inr response \<Rightarrow>
            try_bind (attr ''ambiguities'' (lr_result response)) (\<lambda>result.
              extract_files extractor build_prompt remaining files (i + 1) rest
                (add_units (df_relative_path file) (fx_units result)
                   (st\<lparr>ls_total_cost := fadd (ls_total_cost st) (lr_cost_usd response),
                       ls_ambiguities := ls_ambiguities st @
                         map (\<lambda>a. df_relative_path file @ '': '' @ a) (fx_ambiguities result)\<rparr>))))"

definition initial_loop_state :: "discovered_file list \<Rightarrow> string \<Rightarrow> string \<Rightarrow> loop_state" where
  "initial_loop_state files scope_description source_stack =
     \<lparr>ls_total_cost = 0, ls_error_log = [],
      ls_ambiguities = (if files = [] then
        [''No source files discovered under scope '' @ [CHR 0x27] @ scope_description @ [CHR 0x27]
         @ '' for stack '' @ [CHR 0x27] @ source_stack @ [CHR 0x27] @ ''. ''
         @ ''Check that local_checkout_path is correct and the scope description matches real file/class names.'']
        else []),
      ls_pending = [], ls_used_ids = [], ls_calls = []\<rparr>"

definition finish_comprehension :: "string \<Rightarrow> string \<Rightarrow> loop_state \<Rightarrow> comprehension_result" where
  "finish_comprehension source_stack repo_root st =
     (let resolved = map (resolve_unit (name_table (ls_pending st))) (ls_pending st)
      in \<lparr>cr_source_stack = source_stack, cr_repo_root = repo_root, cr_units = map fst resolved,
          cr_global_notes = [], cr_unresolved_ambiguities = ls_ambiguities st @ concat (map snd resolved)\<rparr>)"

text \<open>\<open>run_comprehension\<close>; the third component of its result is the record of the calls.\<close>

definition run_comprehension ::
  "dir_tree \<Rightarrow> (nat \<Rightarrow> string \<Rightarrow> extraction_response result) \<Rightarrow> string \<Rightarrow> string \<Rightarrow> string \<Rightarrow> rat \<Rightarrow>
     source_adapter option \<Rightarrow> (comprehension_result \<times> rat \<times> string list \<times> (rat \<times> string) list) result" where
  "run_comprehension tree extractor repo_root scope_description source_stack remaining_budget_usd adapter =
     try_bind (case adapter of Some a \<Rightarrow> Inr a | None \<Rightarrow> get_source_adapter source_stack) (\<lambda>adapter.
       let files = sa_discover_files adapter repo_root tree scope_description
       in try_bind (extract_files extractor (sa_build_extraction_prompt adapter) remaining_budget_usd files 0 files
              (initial_loop_state files scope_description source_stack)) (\<lambda>st.
            Inr (finish_comprehension source_stack repo_root st, ls_total_cost st, ls_error_log st, ls_calls st)))"

definition comprehension_node ::
  "dir_tree \<Rightarrow> (nat \<Rightarrow> string \<Rightarrow> extraction_response result) \<Rightarrow> rat \<Rightarrow> graph_state \<Rightarrow> state_update result" where
  "comprehension_node tree extractor now s =
     try_bind (need ''config'' (gs_config s)) (\<lambda>config.
     try_bind (need ''budget'' (gs_budget s)) (\<lambda>budget.
       if is_exhausted budget now
       then Inr (no_update\<lparr>up_phase := Some Ph_ABORTED_BUDGET, up_error_log := Some
              [''Comprehension skipped: budget already exhausted before this node ran.'']\<rparr>)
       else try_bind (run_comprehension tree extractor (rc_local_checkout_path config)
                (rc_scope_description config) (rc_source_stack config) (remaining_usd budget) None)
              (\<lambda>(result, cost, node_errors, calls).
                Inr (no_update\<lparr>up_comprehension := Some result,
                     up_phase := Some (if cr_units result \<noteq> [] then Ph_SYNTHESIS_PLANNING else Ph_FAILED),
                     up_budget := Some (record_call budget cost 1 False),
                     up_error_log := Some node_errors\<rparr>))))"

section \<open>Fresh identifiers\<close>

lemma next_free_fresh: "next_free base used n \<notin> set used"
  by (induction base used n rule: next_free.induct) (subst next_free.simps, simp)

lemma next_free_prefix: "prefix base (next_free base used n)"
proof (induction base used n rule: next_free.induct)
  case (1 base used n)
  then show ?case by (subst next_free.simps) (simp add: numbered_def)
qed

lemma assign_id_fresh:
  assumes "assign_id kind_val name used = (unit_id, used')"
  shows "unit_id \<notin> set used" "used' = unit_id # used" "prefix (kind_val @ ''::'' @ slugify name) unit_id"
  using assms next_free_fresh next_free_prefix
  by (auto simp: assign_id_def Let_def split: if_splits)

text \<open>The first two units of one name: the plain identifier, then the numbered one.\<close>

lemma assign_id_plain: "kind_val @ ''::'' @ slugify name \<notin> set used \<Longrightarrow>
    fst (assign_id kind_val name used) = kind_val @ ''::'' @ slugify name"
  by (simp add: assign_id_def Let_def)

definition loop_ok :: "loop_state \<Rightarrow> bool" where
  "loop_ok st \<longleftrightarrow> distinct (map pu_assigned_id (ls_pending st)) \<and>
     set (ls_used_ids st) = set (map pu_assigned_id (ls_pending st)) \<and>
     '''' \<notin> set (ls_used_ids st)"

lemma loop_ok_add_units: "loop_ok st \<Longrightarrow> loop_ok (add_units rel raws st)"
proof (induction rel raws st rule: add_units.induct)
  case (2 rel raw raws st)
  obtain i used where a: "assign_id (kind_value (ru_kind raw)) (ru_name raw) (ls_used_ids st) = (i, used)"
    by fastforce
  note f = assign_id_fresh [OF a]
  have "i \<noteq> ''''" using f(3) by auto
  with 2(2) f have "loop_ok (st\<lparr>ls_used_ids := used, ls_pending := ls_pending st @
      [\<lparr>pu_raw = raw, pu_source_relative_path = rel, pu_assigned_id = i\<rparr>]\<rparr>)"
    by (auto simp: loop_ok_def)
  then show ?case using 2(1) [OF a [symmetric] refl] by (simp add: a)
qed simp

lemma loop_ok_fields [simp]:
  "loop_ok (st\<lparr>ls_error_log := e, ls_ambiguities := a\<rparr>) = loop_ok st"
  "loop_ok (st\<lparr>ls_total_cost := c, ls_ambiguities := a\<rparr>) = loop_ok st"
  "loop_ok (st\<lparr>ls_calls := k\<rparr>) = loop_ok st"
  "loop_ok (st\<lparr>ls_calls := k, ls_error_log := e, ls_ambiguities := a\<rparr>) = loop_ok st"
  "loop_ok (st\<lparr>ls_total_cost := c, ls_ambiguities := a, ls_calls := k\<rparr>) = loop_ok st"
  by (simp_all add: loop_ok_def)

lemma add_units_frame [simp]:
  "ls_total_cost (add_units rel raws st) = ls_total_cost st"
  "ls_calls (add_units rel raws st) = ls_calls st"
  "ls_ambiguities (add_units rel raws st) = ls_ambiguities st"
  "ls_error_log (add_units rel raws st) = ls_error_log st"
  by (induction rel raws st rule: add_units.induct) (simp_all add: Let_def split: prod.splits)

text \<open>
  Any property of the loop state that survives a skipped file, a failed file and an answered file
  survives the loop: the two invariants below are instances.
\<close>

lemma extract_files_invariant:
  assumes "extract_files extractor bp remaining files i fs st = Inr st'" "I st"
    and noted: "\<And>st e a. I st \<Longrightarrow> I (st\<lparr>ls_error_log := e, ls_ambiguities := a\<rparr>)"
    and call: "\<And>st p. I st \<Longrightarrow> ls_total_cost st < remaining \<Longrightarrow> I (st\<lparr>ls_calls := ls_calls st @ [(ls_total_cost st, p)]\<rparr>)"
    and reply: "\<And>st rel raws c a. I st \<Longrightarrow> I (add_units rel raws (st\<lparr>ls_total_cost := c, ls_ambiguities := a\<rparr>))"
  shows "I st'"
  using assms(1,2) call
proof (induction extractor bp remaining files i fs st rule: extract_files.induct)
  case (2 extractor bp remaining files i f rest st)
  let ?st = "st\<lparr>ls_calls := ls_calls st @ [(ls_total_cost st, bp f)]\<rparr>"
  show ?case
  proof (cases "remaining \<le> ls_total_cost st")
    case True
    with 2(3,4) noted show ?thesis by auto
  next
    case False
    then have called: "I ?st" using 2(4) 2(5) [of st "bp f"] by simp
    show ?thesis
    proof (cases "extractor i (bp f)")
      case (Inl exc)
      with False 2(3) show ?thesis
        by (intro 2(1) [OF False refl refl Inl _ noted [OF called] 2(5)]) (simp add: Let_def)
    next
      case (Inr response)
      with False 2(3) obtain result where r: "lr_result response = Some result"
        by (cases "lr_result response") (auto simp: Let_def attr_def)
      with False 2(3) Inr show ?thesis
        by (intro 2(2) [OF False refl refl Inr _ reply [OF called] 2(5)]) (simp add: Let_def)
    qed
  qed
qed simp

lemma run_comprehension_cases:
  assumes "run_comprehension tree extractor root_path scope stack remaining adapter = Inr (r, cost, errs, calls)"
  obtains files bp st where
    "extract_files extractor bp remaining files 0 files (initial_loop_state files scope stack) = Inr st"
    "r = finish_comprehension stack root_path st" "cost = ls_total_cost st" "calls = ls_calls st"
  using assms by (auto simp: run_comprehension_def Let_def)

lemma initial_loop_ok: "loop_ok (initial_loop_state files scope stack)"
  by (simp add: initial_loop_state_def loop_ok_def)

lemma extracted_ok:
  assumes "extract_files extractor bp remaining files 0 files (initial_loop_state files scope stack) = Inr st"
  shows "loop_ok st"
  using assms initial_loop_ok by (rule extract_files_invariant) (simp_all add: loop_ok_add_units)

text \<open>Every call was made with less than the remaining budget spent.\<close>

lemma calls_within_budget:
  assumes "run_comprehension tree extractor root_path scope stack remaining adapter = Inr (r, cost, errs, calls)"
    "(spent, prompt) \<in> set calls"
  shows "spent < remaining"
proof -
  obtain files bp st where st:
    "extract_files extractor bp remaining files 0 files (initial_loop_state files scope stack) = Inr st"
    "calls = ls_calls st"
    using run_comprehension_cases [OF assms(1)] .
  have "\<forall>c \<in> set (ls_calls st). fst c < remaining"
    using st(1) by (rule extract_files_invariant) (auto simp: initial_loop_state_def)
  with assms(2) st(2) show ?thesis by auto
qed

section \<open>Names resolve to the first unit that bears them\<close>

lemma name_table_lookup:
  "map_of (name_table pending) key =
     map_option pu_assigned_id (find (\<lambda>pu. py_lower (ru_name (pu_raw pu)) = key) pending)"
proof (induction pending rule: rev_induct)
  case Nil
  then show ?case by (simp add: name_table_def)
next
  case (snoc pu pending)
  let ?k = "py_lower (ru_name (pu_raw pu))"
  have step: "name_table (pending @ [pu]) = (if ?k \<in> set (dict_keys (name_table pending)) then name_table pending
      else dict_put ?k (pu_assigned_id pu) (name_table pending))"
    by (simp add: name_table_def Let_def)
  have "?k \<in> set (dict_keys (name_table pending)) \<longleftrightarrow> map_of (name_table pending) ?k \<noteq> None"
    by (simp add: map_of_eq_None_iff)
  then show ?case
    using snoc.IH unfolding step by (auto simp: update_conv find_app split: option.splits)
qed

definition resolved_to :: "(string \<times> string) list \<Rightarrow> string \<Rightarrow> string \<Rightarrow> string option" where
  "resolved_to names unit_id ref_name =
     (case map_of names (py_lower ref_name) of
        Some d \<Rightarrow> if d \<noteq> '''' \<and> d \<noteq> unit_id then Some d else None
      | None \<Rightarrow> None)"

lemma resolve_names_eq:
  "resolve_names names unit_id refs =
     (List.map_filter (resolved_to names unit_id) refs,
      map (missing_reference unit_id) (filter (\<lambda>r. r \<noteq> '''' \<and> resolved_to names unit_id r = None) refs))"
  by (induction refs) (auto simp: resolved_to_def List.map_filter_simps split: option.splits)

lemma resolved_toD:
  "resolved_to (name_table pending) unit_id r = Some d \<Longrightarrow>
     d \<noteq> unit_id \<and> (\<exists>pv \<in> set pending. py_lower (ru_name (pu_raw pv)) = py_lower r \<and> pu_assigned_id pv = d)"
  by (auto simp: resolved_to_def name_table_lookup split: option.splits if_splits dest!: find_someD)

lemma finish_units:
  "cr_units (finish_comprehension stack root_path st) =
     map (\<lambda>pu. fst (resolve_unit (name_table (ls_pending st)) pu)) (ls_pending st)"
  by (simp add: finish_comprehension_def Let_def)

lemma resolve_unit_fields [simp]:
  "su_id (fst (resolve_unit names pu)) = pu_assigned_id pu"
  "su_kind (fst (resolve_unit names pu)) = ru_kind (pu_raw pu)"
  "su_payload (fst (resolve_unit names pu)) = ru_payload (pu_raw pu)"
  "su_depends_on_unit_ids (fst (resolve_unit names pu)) =
     fst (resolve_names names (pu_assigned_id pu) (referenced_names (ru_payload (pu_raw pu))))"
  "snd (resolve_unit names pu) =
     snd (resolve_names names (pu_assigned_id pu) (referenced_names (ru_payload (pu_raw pu))))"
  by (simp_all add: resolve_unit_def split: prod.splits)

lemma units_distinct:
  assumes "run_comprehension tree extractor root_path scope stack remaining adapter = Inr (r, cost, errs, calls)"
  shows "distinct (map su_id (cr_units r))" "'''' \<notin> su_id ` set (cr_units r)"
proof -
  obtain files bp st where st:
    "extract_files extractor bp remaining files 0 files (initial_loop_state files scope stack) = Inr st"
    "r = finish_comprehension stack root_path st"
    using run_comprehension_cases [OF assms] .
  from extracted_ok [OF st(1)] show "distinct (map su_id (cr_units r))" "'''' \<notin> su_id ` set (cr_units r)"
    by (auto simp: st(2) finish_units loop_ok_def comp_def image_image)
qed

lemma dependencies_resolved:
  assumes "run_comprehension tree extractor root_path scope stack remaining adapter = Inr (r, cost, errs, calls)"
    "u \<in> set (cr_units r)" "d \<in> set (su_depends_on_unit_ids u)"
  shows "d \<noteq> su_id u \<and> d \<in> su_id ` set (cr_units r)"
proof -
  obtain files bp st where st: "r = finish_comprehension stack root_path st"
    using run_comprehension_cases [OF assms(1)] .
  obtain pu where "u = fst (resolve_unit (name_table (ls_pending st)) pu)"
    using assms(2) by (auto simp: st finish_units)
  with assms(3) show ?thesis
    by (auto simp: resolve_names_eq mem_map_filter st finish_units image_image dest!: resolved_toD)
qed

text \<open>No reference is dropped: it becomes a dependency on a unit of that name, or is reported.\<close>

lemma references_accounted:
  assumes "pu \<in> set (ls_pending st)" "ref \<in> set (referenced_names (ru_payload (pu_raw pu)))" "ref \<noteq> ''''"
  shows "\<exists>u \<in> set (cr_units (finish_comprehension stack root_path st)). su_id u = pu_assigned_id pu \<and>
    (missing_reference (su_id u) ref \<in> set (cr_unresolved_ambiguities (finish_comprehension stack root_path st)) \<or>
     (\<exists>pv \<in> set (ls_pending st). py_lower (ru_name (pu_raw pv)) = py_lower ref \<and>
        pu_assigned_id pv \<noteq> su_id u \<and> pu_assigned_id pv \<in> set (su_depends_on_unit_ids u)))"
proof -
  let ?names = "name_table (ls_pending st)" and ?u = "fst (resolve_unit (name_table (ls_pending st)) pu)"
  have "?u \<in> set (cr_units (finish_comprehension stack root_path st))"
    using assms(1) by (simp add: finish_units)
  moreover have "missing_reference (pu_assigned_id pu) ref
      \<in> set (cr_unresolved_ambiguities (finish_comprehension stack root_path st))"
    if "resolved_to ?names (pu_assigned_id pu) ref = None"
    using that assms by (auto simp: finish_comprehension_def Let_def resolve_names_eq)
  moreover have "\<exists>pv \<in> set (ls_pending st). py_lower (ru_name (pu_raw pv)) = py_lower ref \<and>
        pu_assigned_id pv \<noteq> pu_assigned_id pu \<and> pu_assigned_id pv \<in> set (su_depends_on_unit_ids ?u)"
    if "resolved_to ?names (pu_assigned_id pu) ref = Some d" for d
    using resolved_toD [OF that] that assms(2) by (auto simp: resolve_names_eq mem_map_filter)
  ultimately show ?thesis
    by (cases "resolved_to ?names (pu_assigned_id pu) ref") (auto intro!: bexI [of _ ?u])
qed

text \<open>The node: what it charges, and the phase it leaves.\<close>

lemma comprehension_node_cases:
  assumes "comprehension_node tree extractor now s = Inr u"
  obtains b where "gs_budget s = Some b" "is_exhausted b now" "up_phase u = Some Ph_ABORTED_BUDGET"
      "up_comprehension u = None" "up_budget u = None"
    | b config r cost errs calls where "gs_budget s = Some b" "gs_config s = Some config" "\<not> is_exhausted b now"
      "run_comprehension tree extractor (rc_local_checkout_path config) (rc_scope_description config)
         (rc_source_stack config) (remaining_usd b) None = Inr (r, cost, errs, calls)"
      "up_comprehension u = Some r" "up_budget u = Some (record_call b cost 1 False)"
      "up_phase u = Some (if cr_units r \<noteq> [] then Ph_SYNTHESIS_PLANNING else Ph_FAILED)"
  using assms by (auto simp: comprehension_node_def no_update_def split: if_splits)

end
