(* ===== verification/Editor.thy ===== *)
theory Editor
  imports Llm Budget
begin

text \<open>
  \<open>app/graph/nodes/editor.py\<close>: one branch of the fanout. The generator is a parameter, a function
  from the prompt to a reply or an exception. The node reads the clock in \<open>is_exhausted\<close> (\<open>now1\<close>)
  and again for the message (\<open>now2\<close>); \<open>produced\<close> is the time stamp of the result.
\<close>

definition build_editor_prompt :: "migration_task \<Rightarrow> string" where
  "build_editor_prompt task =
     (let files_desc = str_join newline (map (\<lambda>tf. ''- '' @ tf_path tf @ '': '' @ tf_purpose tf) (mt_target_files task));
          retry_context = (if 0 < mt_retry_count task
            then newline @ ''NOTE: this is retry attempt '' @ str_int (mt_retry_count task) @ '' for this task. ''
              @ ''A previous attempt failed '' @ em_dash @ '' pay close attention to the instructions below ''
              @ ''and avoid repeating whatever caused the prior failure.'' @ newline
            else '''')
      in str_join newline
        [''You are migrating code to a target tech stack. Generate COMPLETE, working file'',
         ''content for the file(s) below '' @ em_dash @ '' no placeholders, no '' @ [CHR 0x22] @ ''// TODO: implement''
           @ [CHR 0x22] @ '', no markdown'',
         ''code fences in the content field (it must be the literal raw file content).'',
         '''', ''Target file(s) to produce:'', files_desc, retry_context, ''Instructions:'',
         mt_synthesis_instructions task, ''''])"

text \<open>\<open>f"{budget.exhausted_reason()}"\<close>.\<close>

definition reason_text :: "string option \<Rightarrow> string" where
  "reason_text r = (case r of None \<Rightarrow> ''None'' | Some m \<Rightarrow> m)"

definition editor_node ::
  "(string \<Rightarrow> editor_response result) \<Rightarrow> rat \<Rightarrow> rat \<Rightarrow> rat \<Rightarrow> graph_state \<Rightarrow> state_update result" where
  "editor_node generator now1 now2 produced s =
     try_bind (need ''current_task'' (gs_current_task s)) (\<lambda>task.
     try_bind (need ''budget'' (gs_budget s)) (\<lambda>budget.
       if is_exhausted budget now1
       then Inr (no_update\<lparr>up_tasks := Some [task\<lparr>mt_status := St_SKIPPED\<rparr>],
              up_error_log := Some [''Editor skipped '' @ [CHR 0x27] @ mt_id task @ [CHR 0x27]
                @ '': budget already exhausted ('' @ reason_text (exhausted_reason budget now2) @ '').'']\<rparr>)
       else case generator (build_editor_prompt task) of
         Inl exc \<Rightarrow>
           (let retry_count = mt_retry_count task + 1;
                status = (if mt_max_retries task < retry_count then St_NEEDS_HUMAN else St_RETRYING)
            in Inr (no_update\<lparr>up_tasks := Some [task\<lparr>mt_status := status, mt_retry_count := retry_count\<rparr>],
                 up_error_log := Some [''Editor generation failed for '' @ [CHR 0x27] @ mt_id task @ [CHR 0x27]
                   @ '': '' @ exn_repr exc]\<rparr>))
       | Inr response \<Rightarrow>
           try_bind (attr ''files'' (lr_result response)) (\<lambda>result.
             Inr (no_update\<lparr>up_tasks := Some [task\<lparr>mt_status := St_SUCCEEDED\<rparr>],
               up_editor_results := Some [\<lparr>er_task_id = mt_id task, er_diffs = eg_files result,
                 er_editor_notes = eg_notes result,
                 er_tokens_used = lr_input_tokens response + lr_output_tokens response,
                 er_produced_at = produced\<rparr>],
               up_budget_deltas := Some [lr_cost_usd response]\<rparr>))))"

section \<open>What a branch returns\<close>

text \<open>The four outcomes of a branch.\<close>

lemma editor_node_cases [consumes 1, case_names skipped failed written]:
  assumes "editor_node generator now1 now2 produced s = Inr u"
  obtains task b where "gs_current_task s = Some task" "gs_budget s = Some b" "is_exhausted b now1"
      "up_tasks u = Some [task\<lparr>mt_status := St_SKIPPED\<rparr>]" "up_editor_results u = None" "up_budget_deltas u = None"
    | task b exc where "gs_current_task s = Some task" "gs_budget s = Some b" "\<not> is_exhausted b now1"
      "generator (build_editor_prompt task) = Inl exc"
      "up_tasks u = Some [task\<lparr>mt_status := (if mt_max_retries task < mt_retry_count task + 1 then St_NEEDS_HUMAN
         else St_RETRYING), mt_retry_count := mt_retry_count task + 1\<rparr>]"
      "up_editor_results u = None" "up_budget_deltas u = None"
    | task b response result er where "gs_current_task s = Some task" "gs_budget s = Some b" "\<not> is_exhausted b now1"
      "generator (build_editor_prompt task) = Inr response" "lr_result response = Some result"
      "up_tasks u = Some [task\<lparr>mt_status := St_SUCCEEDED\<rparr>]" "up_editor_results u = Some [er]"
      "er_task_id er = mt_id task" "er_diffs er = eg_files result" "up_budget_deltas u = Some [lr_cost_usd response]"
  using assms unfolding editor_node_def
  by (auto simp: no_update_def Let_def split: if_splits sum.splits)

text \<open>A branch touches no other channel: what remains of its update is fixed.\<close>

lemma editor_node_frame:
  assumes "editor_node generator now1 now2 produced s = Inr u"
  shows "up_phase u = None" "up_comprehension u = None" "up_test_results u = None"
    "up_budget_deltas_consumed u = None" "up_aggregated_diff_paths u = None" "up_full_suite_result u = None"
    "up_pr_draft u = None" "up_pr_url u = None" "up_pr_branch_name u = None" "up_approval_status u = None"
    "up_budget u = None" "up_retry_round u = None"
  using assms unfolding editor_node_def
  by (auto simp: no_update_def Let_def split: if_splits sum.splits)

text \<open>The single task in a branch's update: its identity is kept and its retries are bounded.\<close>

lemma editor_node_task:
  assumes "editor_node generator now1 now2 produced s = Inr u"
  obtains task t where "gs_current_task s = Some task" "up_tasks u = Some [t]" "mt_id t = mt_id task"
    "mt_max_retries t = mt_max_retries task" "mt_depends_on_task_ids t = mt_depends_on_task_ids task"
    "mt_status t \<in> {St_SKIPPED, St_NEEDS_HUMAN, St_RETRYING, St_SUCCEEDED}"
    "mt_status t = St_RETRYING \<Longrightarrow> mt_retry_count t = mt_retry_count task + 1 \<and> mt_retry_count t \<le> mt_max_retries t"
    "mt_status t = St_SUCCEEDED \<Longrightarrow> mt_retry_count t = mt_retry_count task"
    "mt_status t = St_SUCCEEDED \<longleftrightarrow> up_editor_results u \<noteq> None"
  using assms
proof (cases rule: editor_node_cases)
  case (skipped task b)
  then show ?thesis by (intro that [of task "task\<lparr>mt_status := St_SKIPPED\<rparr>"]) simp_all
next
  case (failed task b exc)
  then show ?thesis by (intro that [OF failed(1,5)]) (simp_all split: if_splits)
next
  case (written task b response result er)
  then show ?thesis by (intro that [of task "task\<lparr>mt_status := St_SUCCEEDED\<rparr>"]) simp_all
qed

text \<open>A branch raises only when a key is missing or the reply could not be parsed.\<close>

lemma editor_node_raises:
  assumes "editor_node generator now1 now2 produced s = Inl e"
  shows "gs_current_task s = None \<or> gs_budget s = None \<or>
    (\<exists>task response. gs_current_task s = Some task \<and> generator (build_editor_prompt task) = Inr response \<and>
       lr_result response = None)"
  using assms
  by (auto simp: editor_node_def need_def try_bind_eq_Inl attr_def Let_def
      split: option.splits if_splits sum.splits)

end
