(* ===== verification/Error_Analysis.thy ===== *)
theory Error_Analysis
  imports Llm Budget Reducers
begin

text \<open>
  \<open>app/graph/nodes/error_analysis.py\<close>: after a failed suite, blame tasks and decide which of them
  are retried. The analyzer is a parameter. The lemmas bound the retries: per task by its own cap,
  over the run by the number of rounds.
\<close>

section \<open>The prompt\<close>

definition truncate_at :: "nat \<Rightarrow> string \<Rightarrow> string" where
  "truncate_at n s = (if length s \<le> n then s else take n s @ newline @ ''... [truncated]'')"

definition task_section :: "editor_result list \<Rightarrow> migration_task \<Rightarrow> string" where
  "task_section editor_results task =
     (let diffs_by_task = foldl (\<lambda>d er. dict_put (er_task_id er) er d) [] editor_results;
          file_previews = (case map_of diffs_by_task (mt_id task) of
             None \<Rightarrow> ''''
           | Some er \<Rightarrow> concat (map (\<lambda>diff. newline @ ''  --- '' @ fd_path diff @ '' ---'' @ newline
               @ truncate_at 3000 (fd_content diff) @ newline) (er_diffs er)))
      in ''Task '' @ [CHR 0x27] @ mt_id task @ [CHR 0x27] @ '' (attempt '' @ str_int (mt_retry_count task + 1)
         @ '', target file(s): '' @ str_join '', '' (map tf_path (mt_target_files task)) @ ''):'' @ file_previews)"

definition build_analysis_prompt ::
  "test_result \<Rightarrow> migration_task list \<Rightarrow> editor_result list \<Rightarrow> string" where
  "build_analysis_prompt test_result candidate_tasks editor_results =
     (let joined = str_join newline (map (\<lambda>t. ''- '' @ t) (tr_failing_tests test_result));
          failing = (if joined = '''' then ''(none listed individually)'' else joined)
      in str_join newline
        [''A migrated codebase'' @ [CHR 0x27] @ ''s test suite just ran with outcome: ''
           @ outcome_value (tr_outcome test_result) @ ''.'',
         '''', ''Failing tests:'', failing, '''', ''Full test runner output:'',
         truncate_at 8000 (tr_raw_output test_result), '''',
         ''Below are the migration tasks whose generated code is present in this test run (only these'',
         ''are candidates '' @ em_dash @ '' nothing else was recently changed):'',
         concat (map (task_section editor_results) candidate_tasks), '''',
         ''For each task you can confidently implicate in the failure, provide a root cause, whether'',
         ''it'' @ [CHR 0x27] @ ''s worth retrying (a clear, fixable code issue) vs. not (e.g. the failure reveals a'',
         ''fundamental misunderstanding of requirements that a retry won'' @ [CHR 0x27] @ ''t fix), and concrete fix'',
         ''instructions to feed into the next generation attempt. If you cannot confidently attribute'',
         ''the failure to any specific task above, leave `analyses` empty and explain why in'',
         ''`unattributable_summary` instead of guessing.'', ''''])"

section \<open>The node\<close>

definition DEFAULT_MAX_RETRY_ROUNDS :: int where
  "DEFAULT_MAX_RETRY_ROUNDS = 5"

text \<open>\<open>state.get("max_retry_rounds") or default\<close>: zero counts as unset.\<close>

definition max_rounds :: "graph_state \<Rightarrow> int" where
  "max_rounds s = (case gs_max_retry_rounds s of
     None \<Rightarrow> DEFAULT_MAX_RETRY_ROUNDS
   | Some n \<Rightarrow> if n = 0 then DEFAULT_MAX_RETRY_ROUNDS else n)"

definition candidate_tasks :: "graph_state \<Rightarrow> migration_task list" where
  "candidate_tasks s = filter (\<lambda>t. mt_status t = St_SUCCEEDED \<and> mt_id t \<in> er_task_id ` set (gs_editor_results s))
     (gs_tasks s)"

definition escalate :: "migration_task \<Rightarrow> migration_task" where
  "escalate t = t\<lparr>mt_status := St_NEEDS_HUMAN\<rparr>"

text \<open>One analysis: the updated task, if it names a candidate.\<close>

definition judge :: "bool \<Rightarrow> migration_task list \<Rightarrow> error_analysis \<Rightarrow> migration_task option" where
  "judge round_cap_hit candidates analysis =
     (let candidate_by_id = foldl (\<lambda>d t. dict_put (mt_id t) t d) [] candidates
      in case map_of candidate_by_id (ea_task_id analysis) of
           None \<Rightarrow> None
         | Some task \<Rightarrow>
             let new_retry_count = mt_retry_count task + 1;
                 exceeds_retry_cap = mt_max_retries task < new_retry_count;
                 status = (if round_cap_hit \<or> \<not> ea_is_retryable analysis \<or> exceeds_retry_cap
                           then St_NEEDS_HUMAN else St_RETRYING)
             in Some (task\<lparr>mt_status := status, mt_retry_count := new_retry_count\<rparr>))"

text \<open>The three dictionaries the node returns: no analysis possible, escalation, and the analysis.\<close>

definition unable_update :: "graph_state \<Rightarrow> state_update" where
  "unable_update s = no_update\<lparr>up_phase := Some Ph_NEEDS_HUMAN, up_retry_round := Some (gs_retry_round s + 1),
     up_error_log := Some [''Error analysis could not run: no test result and/or no candidate tasks with code to blame.'']\<rparr>"

definition escalated_update :: "graph_state \<Rightarrow> string \<Rightarrow> state_update" where
  "escalated_update s message = no_update\<lparr>up_tasks := Some (map escalate (candidate_tasks s)),
     up_phase := Some Ph_NEEDS_HUMAN, up_retry_round := Some (gs_retry_round s + 1),
     up_error_log := Some [message]\<rparr>"

definition judged_tasks :: "graph_state \<Rightarrow> error_analysis list \<Rightarrow> migration_task list" where
  "judged_tasks s analyses =
     (let round_cap_hit = max_rounds s \<le> gs_retry_round s + 1
      in List.map_filter (judge round_cap_hit (candidate_tasks s)) analyses)"

definition analysed_update ::
  "graph_state \<Rightarrow> budget_state \<Rightarrow> rat \<Rightarrow> error_analysis_llm_result \<Rightarrow> state_update" where
  "analysed_update s budget cost_usd result =
     (let analyses = el_analyses result;
          updated_tasks = judged_tasks s analyses;
          any_retrying = (\<exists>t \<in> set updated_tasks. mt_status t = St_RETRYING);
          summary = (if el_unattributable_summary result = '''' then ''(no explanation given)''
                     else el_unattributable_summary result)
      in no_update\<lparr>up_phase := Some (if any_retrying then Ph_EDITING else Ph_NEEDS_HUMAN),
           up_retry_round := Some (gs_retry_round s + 1),
           up_budget := Some (record_call budget cost_usd 1 True),
           up_tasks := (if updated_tasks \<noteq> [] then Some updated_tasks else None),
           up_error_log := (if analyses = [] then
             Some [''Error analysis could not attribute the failure to a specific task: '' @ summary]
             else None)\<rparr>)"

definition error_analysis_node ::
  "(string \<Rightarrow> error_analysis_response result) \<Rightarrow> rat \<Rightarrow> graph_state \<Rightarrow> state_update result" where
  "error_analysis_node analyzer now s =
     try_bind (need ''budget'' (gs_budget s)) (\<lambda>budget.
       case gs_full_suite_result s of
         None \<Rightarrow> Inr (unable_update s)
       | Some test_result \<Rightarrow>
           if candidate_tasks s = [] then Inr (unable_update s)
           else if is_exhausted budget now
           then Inr (escalated_update s
                  ''Error analysis skipped and all candidate tasks escalated: budget exhausted.'')
           else case analyzer (build_analysis_prompt test_result (candidate_tasks s) (gs_editor_results s)) of
             Inl exc \<Rightarrow> Inr (escalated_update s
                  (''Error analysis call failed, escalating all candidates: '' @ exn_repr exc))
           | Inr response \<Rightarrow>
               try_bind (attr ''analyses'' (lr_result response)) (\<lambda>result.
                 Inr (analysed_update s budget (lr_cost_usd response) result)))"

section \<open>What an analysis may change\<close>

lemma judge_Some:
  assumes "judge cap cands a = Some t"
  obtains c where "c \<in> set cands" "mt_id c = ea_task_id a" "mt_id t = mt_id c"
    "mt_retry_count t = mt_retry_count c + 1" "mt_max_retries t = mt_max_retries c"
    "mt_depends_on_task_ids t = mt_depends_on_task_ids c"
    "mt_status t = (if cap \<or> \<not> ea_is_retryable a \<or> mt_max_retries c < mt_retry_count c + 1
       then St_NEEDS_HUMAN else St_RETRYING)"
proof -
  obtain c where "map_of (foldl (\<lambda>d t. dict_put (mt_id t) t d) [] cands) (ea_task_id a) = Some c"
    "t = c\<lparr>mt_status := (if cap \<or> \<not> ea_is_retryable a \<or> mt_max_retries c < mt_retry_count c + 1
       then St_NEEDS_HUMAN else St_RETRYING), mt_retry_count := mt_retry_count c + 1\<rparr>"
    using assms by (auto simp: judge_def Let_def split: option.splits)
  then show ?thesis
    by (intro that [of c]) (auto simp: dict_simps split: option.splits dest: find_last_SomeD)
qed

text \<open>The three kinds of outcome of the node.\<close>

lemma error_analysis_cases [consumes 1, case_names unable escalated analysed]:
  assumes "error_analysis_node analyzer now s = Inr u"
  obtains "u = unable_update s" "gs_full_suite_result s = None \<or> candidate_tasks s = []"
    | m where "u = escalated_update s m" "candidate_tasks s \<noteq> []"
    | b cost result where "u = analysed_update s b cost result" "gs_budget s = Some b" "\<not> is_exhausted b now"
proof -
  obtain b where b: "gs_budget s = Some b"
    using assms by (auto simp: error_analysis_node_def)
  note node = assms [unfolded error_analysis_node_def b need_simps(2) try_bind_simps(2)]
  show ?thesis
  proof (cases "gs_full_suite_result s = None \<or> candidate_tasks s = []")
    case True
    with node have "u = unable_update s" by (auto split: option.splits)
    then show ?thesis using True by (rule that(1))
  next
    case False
    then obtain t where t: "gs_full_suite_result s = Some t" and c: "candidate_tasks s \<noteq> []" by auto
    show ?thesis
    proof (cases "is_exhausted b now")
      case True
      with node t c obtain m where "u = escalated_update s m" by auto
      then show ?thesis using c by (rule that(2))
    next
      case fresh: False
      show ?thesis
      proof (cases "analyzer (build_analysis_prompt t (candidate_tasks s) (gs_editor_results s))")
        case (Inl exc)
        with node t c fresh obtain m where "u = escalated_update s m" by auto
        then show ?thesis using c by (rule that(2))
      next
        case (Inr response)
        with node t c fresh obtain result where "u = analysed_update s b (lr_cost_usd response) result" by auto
        then show ?thesis using b fresh by (rule that(3))
      qed
    qed
  qed
qed

lemma error_updates [simp]:
  "up_tasks (unable_update s) = None" "up_phase (unable_update s) = Some Ph_NEEDS_HUMAN"
  "up_budget (unable_update s) = None"
  "up_tasks (escalated_update s m) = Some (map escalate (candidate_tasks s))"
  "up_phase (escalated_update s m) = Some Ph_NEEDS_HUMAN" "up_budget (escalated_update s m) = None"
  "up_tasks (analysed_update s b c r) =
     (if judged_tasks s (el_analyses r) = [] then None else Some (judged_tasks s (el_analyses r)))"
  "up_phase (analysed_update s b c r) =
     Some (if \<exists>t \<in> set (judged_tasks s (el_analyses r)). mt_status t = St_RETRYING then Ph_EDITING else Ph_NEEDS_HUMAN)"
  "up_budget (analysed_update s b c r) = Some (record_call b c 1 True)"
  by (simp_all add: unable_update_def escalated_update_def analysed_update_def no_update_def Let_def)

definition analysis_frame :: "graph_state \<Rightarrow> state_update \<Rightarrow> bool" where
  "analysis_frame s u \<longleftrightarrow> up_retry_round u = Some (gs_retry_round s + 1) \<and> up_editor_results u = None \<and>
     up_full_suite_result u = None \<and> up_pr_draft u = None \<and> up_pr_url u = None \<and> up_approval_status u = None \<and>
     up_budget_deltas u = None \<and> up_budget_deltas_consumed u = None \<and> up_aggregated_diff_paths u = None \<and>
     up_comprehension u = None \<and> up_pr_branch_name u = None \<and> up_test_results u = None"

lemma error_analysis_frame:
  assumes "error_analysis_node analyzer now s = Inr u"
  shows "analysis_frame s u"
proof -
  have frames: "analysis_frame s (unable_update s)" "analysis_frame s (escalated_update s m)"
    "analysis_frame s (analysed_update s b c r)" for m b c r
    by (simp_all add: analysis_frame_def unable_update_def escalated_update_def analysed_update_def
        no_update_def Let_def)
  from assms show ?thesis by (cases rule: error_analysis_cases) (simp_all add: frames)
qed

text \<open>Every updated task is a candidate, leaves SUCCEEDED, and is retried only within both bounds.\<close>

lemma error_analysis_tasks:
  assumes "error_analysis_node analyzer now s = Inr u" "up_tasks u = Some us" "t \<in> set us"
  obtains c where "c \<in> set (candidate_tasks s)" "mt_id t = mt_id c" "mt_max_retries t = mt_max_retries c"
    "mt_depends_on_task_ids t = mt_depends_on_task_ids c"
    "mt_status t = St_NEEDS_HUMAN \<or> mt_status t = St_RETRYING \<and> mt_retry_count t = mt_retry_count c + 1 \<and>
       mt_retry_count t \<le> mt_max_retries t \<and> gs_retry_round s + 1 < max_rounds s"
  using assms(1)
proof (cases rule: error_analysis_cases)
  case unable
  with assms show ?thesis by simp
next
  case (escalated m)
  with assms obtain c where "c \<in> set (candidate_tasks s)" "t = escalate c" by auto
  then show ?thesis by (intro that [of c]) (simp_all add: escalate_def)
next
  case (analysed b cost result)
  with assms obtain a where "judge (max_rounds s \<le> gs_retry_round s + 1) (candidate_tasks s) a = Some t"
    by (auto simp: mem_map_filter judged_tasks_def Let_def split: if_splits)
  then obtain c where c: "c \<in> set (candidate_tasks s)" "mt_id t = mt_id c"
    "mt_retry_count t = mt_retry_count c + 1" "mt_max_retries t = mt_max_retries c"
    "mt_depends_on_task_ids t = mt_depends_on_task_ids c"
    "mt_status t = (if max_rounds s \<le> gs_retry_round s + 1 \<or> \<not> ea_is_retryable a \<or>
       mt_max_retries c < mt_retry_count c + 1 then St_NEEDS_HUMAN else St_RETRYING)"
    by (rule judge_Some)
  then show ?thesis by (intro that [OF c(1,2,4,5)]) (simp split: if_splits)
qed

text \<open>In the last round nothing is retried, and the phase says so.\<close>

lemma last_round_no_retry:
  assumes "error_analysis_node analyzer now s = Inr u" "max_rounds s \<le> gs_retry_round s + 1"
  shows "up_phase u = Some Ph_NEEDS_HUMAN"
  using assms(1)
proof (cases rule: error_analysis_cases)
  case (analysed b cost result)
  let ?us = "judged_tasks s (el_analyses result)"
  have "mt_status t \<noteq> St_RETRYING" if t: "t \<in> set ?us" for t
  proof -
    have "up_tasks u = Some ?us" using analysed(1) t by auto
    then have "mt_status t = St_NEEDS_HUMAN \<or> gs_retry_round s + 1 < max_rounds s"
      using t by (rule error_analysis_tasks [OF assms(1)]) argo
    with assms(2) show ?thesis by auto
  qed
  with analysed(1) show ?thesis by auto
qed auto

end
