(* ===== verification/Diffs.thy ===== *)
theory Diffs
  imports Reducers
begin

text \<open>
  \<open>app/graph/diffs.py\<close>: which generated files are the effective output of a run. The sandbox node and
  the publishing nodes both call these functions; the theory \<open>Pipeline\<close> shows that they call them on
  the same lists. Dictionaries are the association lists of the theory \<open>Prelude\<close>, so the order of
  the results is the order of the source.
\<close>

named_theorems diffs_simps "membership in the effective output"

definition latest_results_by_task :: "editor_result list \<Rightarrow> (string \<times> editor_result) list" where
  "latest_results_by_task editor_results =
     foldl (\<lambda>latest r. dict_put (er_task_id r) r latest) [] editor_results"

definition succeeded_ids :: "migration_task list \<Rightarrow> string list" where
  "succeeded_ids tasks = map mt_id (filter (\<lambda>t. mt_status t = St_SUCCEEDED) tasks)"

definition effective_results :: "editor_result list \<Rightarrow> migration_task list \<Rightarrow> editor_result list" where
  "effective_results editor_results tasks =
     (let succeeded = succeeded_ids tasks;
          latest = latest_results_by_task editor_results
      in map snd (filter (\<lambda>(task_id, r). task_id \<in> set succeeded) latest))"

definition effective_diffs :: "editor_result list \<Rightarrow> migration_task list \<Rightarrow> file_diff list" where
  "effective_diffs editor_results tasks =
     dict_vals (foldl (\<lambda>by_path d. dict_put (fd_path d) d by_path) []
       (concat (map er_diffs (effective_results editor_results tasks))))"

definition stale_paths :: "editor_result list \<Rightarrow> migration_task list \<Rightarrow> string list" where
  "stale_paths editor_results tasks =
     (let ever_written = map fd_path (concat (map er_diffs editor_results));
          effective = map fd_path (effective_diffs editor_results tasks)
      in sort (remdups (filter (\<lambda>p. p \<notin> set effective) ever_written)))"

section \<open>The latest attempt of every succeeded task\<close>

abbreviation latest_of :: "editor_result list \<Rightarrow> string \<Rightarrow> editor_result option" where
  "latest_of rs tid \<equiv> find_last (\<lambda>r. er_task_id r = tid) rs"

lemma latest_results_lookup [diffs_simps]:
  "map_of (latest_results_by_task rs) tid = latest_of rs tid"
  using od.get_loop [of er_task_id "\<lambda>r. r" "[]" rs tid]
  by (simp add: latest_results_by_task_def split: option.splits)

lemma latest_results_keys [diffs_simps]:
  "dict_keys (latest_results_by_task rs) = first_seen (map er_task_id rs)"
  using od.keys_loop_empty [of er_task_id "\<lambda>r. r" rs] by (simp add: latest_results_by_task_def)

lemma latest_results_mem [diffs_simps]:
  "(tid, r) \<in> set (latest_results_by_task rs) \<longleftrightarrow> latest_of rs tid = Some r"
proof -
  have "distinct (dict_keys (latest_results_by_task rs))"
    by (simp add: latest_results_keys)
  then show ?thesis
    by (simp add: map_of_eq_Some_iff [symmetric] latest_results_lookup)
qed

lemma mem_succeeded_ids [diffs_simps]:
  "tid \<in> set (succeeded_ids ts) \<longleftrightarrow> (\<exists>t \<in> set ts. mt_id t = tid \<and> mt_status t = St_SUCCEEDED)"
  by (auto simp: succeeded_ids_def)

lemma effective_results_mem [diffs_simps]:
  "r \<in> set (effective_results rs ts) \<longleftrightarrow>
     latest_of rs (er_task_id r) = Some r \<and>
     (\<exists>t \<in> set ts. mt_id t = er_task_id r \<and> mt_status t = St_SUCCEEDED)"
proof -
  have "r \<in> set (effective_results rs ts) \<longleftrightarrow>
      (\<exists>tid. latest_of rs tid = Some r \<and> tid \<in> set (succeeded_ids ts))"
    by (auto simp: effective_results_def latest_results_mem image_iff)
  also have "\<dots> \<longleftrightarrow> latest_of rs (er_task_id r) = Some r \<and> er_task_id r \<in> set (succeeded_ids ts)"
    by (auto dest: find_last_SomeD)
  finally show ?thesis by (simp add: mem_succeeded_ids)
qed

lemma effective_results_distinct: "distinct (map er_task_id (effective_results rs ts))"
proof -
  let ?l = "filter (\<lambda>(tid, r). tid \<in> set (succeeded_ids ts)) (latest_results_by_task rs)"
  have "map er_task_id (effective_results rs ts) = map (er_task_id \<circ> snd) ?l"
    by (simp add: effective_results_def)
  also have "\<dots> = map fst ?l"
    by (rule map_cong) (auto simp: latest_results_mem dest: find_last_SomeD)
  finally show ?thesis
    by (simp add: latest_results_keys distinct_map_filter)
qed

section \<open>The effective files\<close>

abbreviation all_diffs :: "editor_result list \<Rightarrow> file_diff list" where
  "all_diffs rs \<equiv> concat (map er_diffs rs)"

lemma effective_diffs_eq:
  "effective_diffs rs ts =
     map (\<lambda>p. the (find_last (\<lambda>d. fd_path d = p) (all_diffs (effective_results rs ts))))
       (first_seen (map fd_path (all_diffs (effective_results rs ts))))"
  using od.vals_loop_empty [of fd_path "\<lambda>d. d"] by (simp add: effective_diffs_def)

lemma effective_diffs_subset:
  "set (effective_diffs rs ts) \<subseteq> set (all_diffs (effective_results rs ts))"
  unfolding effective_diffs_def
  using od.set_vals_loop_subset [of fd_path "\<lambda>d. d" "all_diffs (effective_results rs ts)"] by simp

lemma effective_diffs_last:
  assumes "d \<in> set (effective_diffs rs ts)"
  shows "find_last (\<lambda>x. fd_path x = fd_path d) (all_diffs (effective_results rs ts)) = Some d"
proof -
  let ?ds = "all_diffs (effective_results rs ts)"
  obtain p where p: "p \<in> fd_path ` set ?ds" "d = the (find_last (\<lambda>x. fd_path x = p) ?ds)"
    using assms by (auto simp: effective_diffs_eq)
  then have "find_last (\<lambda>x. fd_path x = p) ?ds \<noteq> None" by (auto simp: find_last_None)
  with p(2) have "find_last (\<lambda>x. fd_path x = p) ?ds = Some d" by auto
  moreover from find_last_SomeD [OF this] have "fd_path d = p" by simp
  ultimately show ?thesis by simp
qed

lemma effective_diffs_paths:
  "map fd_path (effective_diffs rs ts) = first_seen (map fd_path (all_diffs (effective_results rs ts)))"
proof -
  let ?ds = "all_diffs (effective_results rs ts)"
  have "fd_path (the (find_last (\<lambda>d. fd_path d = p) ?ds)) = p" if "p \<in> fd_path ` set ?ds" for p
  proof -
    have "find_last (\<lambda>d. fd_path d = p) ?ds \<noteq> None" using that by (auto simp: find_last_None)
    then show ?thesis by (auto dest: find_last_SomeD)
  qed
  then have "map (\<lambda>p. fd_path (the (find_last (\<lambda>d. fd_path d = p) ?ds))) (first_seen (map fd_path ?ds))
      = map (\<lambda>p. p) (first_seen (map fd_path ?ds))"
    by (intro map_cong) auto
  then show ?thesis by (simp add: effective_diffs_eq comp_def)
qed

lemma effective_paths_distinct: "distinct (map fd_path (effective_diffs rs ts))"
  by (simp add: effective_diffs_paths)

lemma effective_paths_set:
  "fd_path ` set (effective_diffs rs ts) = fd_path ` set (all_diffs (effective_results rs ts))"
  using arg_cong [OF effective_diffs_paths, of set rs ts] by simp

section \<open>Stale files\<close>

lemma set_stale_paths [diffs_simps]:
  "set (stale_paths rs ts) = fd_path ` set (all_diffs rs) - fd_path ` set (effective_diffs rs ts)"
  by (auto simp: stale_paths_def)

lemma stale_paths_sorted: "sorted (stale_paths rs ts)" "distinct (stale_paths rs ts)"
  by (simp_all add: stale_paths_def)

text \<open>Every path an attempt ever wrote is either shipped or removed, never both.\<close>

lemma written_effective_or_stale:
  "fd_path ` set (all_diffs rs) = fd_path ` set (effective_diffs rs ts) \<union> set (stale_paths rs ts)"
  "fd_path ` set (effective_diffs rs ts) \<inter> set (stale_paths rs ts) = {}"
proof -
  have "set (effective_results rs ts) \<subseteq> set rs"
    by (auto simp: effective_results_mem dest: find_last_SomeD)
  then have "fd_path ` set (effective_diffs rs ts) \<subseteq> fd_path ` set (all_diffs rs)"
    by (auto simp: effective_paths_set)
  then show "fd_path ` set (all_diffs rs) = fd_path ` set (effective_diffs rs ts) \<union> set (stale_paths rs ts)"
    by (auto simp: set_stale_paths)
  show "fd_path ` set (effective_diffs rs ts) \<inter> set (stale_paths rs ts) = {}"
    by (auto simp: set_stale_paths)
qed

end
