(* ===== verification/Docker_Runner.thy ===== *)
theory Docker_Runner
  imports Adapters
begin

text \<open>
  \<open>app/sandbox/docker_runner.py\<close> and \<open>interface.py\<close>: the container configuration and the two-container
  run. The Docker daemon is a parameter: one \<open>container_reply\<close> per container holds what each SDK call
  answers and the clock readings around it. A run returns the list of SDK calls it made, in order,
  next to its result, so that the properties speak about what the daemon was asked to do.
\<close>

section \<open>Configuration\<close>

record sandbox_limits =
  sl_memory_limit :: string
  sl_nano_cpus :: int
  sl_pids_limit :: int
  sl_install_timeout_seconds :: int
  sl_test_timeout_seconds :: int

definition default_limits :: sandbox_limits where
  "default_limits = \<lparr>sl_memory_limit = ''512m'', sl_nano_cpus = 1000000000, sl_pids_limit = 256,
     sl_install_timeout_seconds = 180, sl_test_timeout_seconds = 300\<rparr>"

record sandbox_run_result =
  sr_test_result :: test_result
  sr_setup_output :: string
  sr_setup_succeeded :: bool

record container_kwargs =
  ck_image :: string
  ck_command :: "string list"
  ck_working_dir :: string
  ck_volumes :: "(string \<times> string \<times> string) list" \<comment> \<open>host path, bind, mode\<close>
  ck_network_disabled :: bool
  ck_mem_limit :: string
  ck_nano_cpus :: int
  ck_pids_limit :: int
  ck_user :: string
  ck_cap_drop :: "string list"
  ck_security_opt :: "string list"
  ck_read_only :: bool
  ck_tmpfs :: "(string \<times> string) list"
  ck_detach :: bool
  ck_stdout :: bool
  ck_stderr :: bool

definition MAX_CAPTURED_OUTPUT_CHARS :: nat where
  "MAX_CAPTURED_OUTPUT_CHARS = 20000"

definition truncation_mark :: string where
  "truncation_mark = newline @ ''... [truncated]''"

definition truncate_output :: "string \<Rightarrow> string" where
  "truncate_output output =
     (if length output \<le> MAX_CAPTURED_OUTPUT_CHARS then output
      else take MAX_CAPTURED_OUTPUT_CHARS output @ truncation_mark)"

definition build_container_kwargs ::
  "(string \<Rightarrow> string) \<Rightarrow> string \<Rightarrow> string \<Rightarrow> string list \<Rightarrow> bool \<Rightarrow> sandbox_limits \<Rightarrow> container_kwargs" where
  "build_container_kwargs realpath workspace_root docker_image command network_disabled limits =
     \<lparr>ck_image = docker_image, ck_command = command, ck_working_dir = ''/workspace'',
      ck_volumes = [(realpath workspace_root, ''/workspace'', ''rw'')],
      ck_network_disabled = network_disabled, ck_mem_limit = sl_memory_limit limits,
      ck_nano_cpus = sl_nano_cpus limits, ck_pids_limit = sl_pids_limit limits,
      ck_user = ''1000:1000'', ck_cap_drop = [''ALL''], ck_security_opt = [''no-new-privileges''],
      ck_read_only = True, ck_tmpfs = [(''/tmp'', ''rw,size=256m'')], ck_detach = True,
      ck_stdout = True, ck_stderr = True\<rparr>"

section \<open>Running a container\<close>

datatype docker_event =
  Docker_Run container_kwargs | Docker_Wait int | Docker_Kill | Docker_Logs | Docker_Remove

record container_reply =
  cy_client :: "unit result" \<comment> \<open>\<open>docker.from_env()\<close>\<close>
  cy_run :: "unit result"
  cy_wait :: "int option result" \<comment> \<open>the \<open>StatusCode\<close> entry, if present\<close>
  cy_kill :: "unit result"
  cy_logs :: "string result"
  cy_remove :: "unit result"
  cy_start :: rat
  cy_end :: rat

definition run_container ::
  "container_kwargs \<Rightarrow> int \<Rightarrow> container_reply \<Rightarrow> (string \<times> int \<times> rat) result \<times> docker_event list" where
  "run_container kwargs timeout_seconds y =
     (case cy_client y of Inl e \<Rightarrow> (Inl e, []) | Inr _ \<Rightarrow>
      (case cy_run y of Inl e \<Rightarrow> (Inl e, [Docker_Run kwargs]) | Inr _ \<Rightarrow>
       (let (r, events) =
          (case cy_wait y of
             Inl _ \<Rightarrow>
               (case cy_kill y of
                  Inl e \<Rightarrow> (Inl e, [Docker_Kill])
                | Inr _ \<Rightarrow> (Inl (SandboxTimeoutError (''Sandbox container exceeded ''
                             @ str_int timeout_seconds @ ''s timeout'')), [Docker_Kill]))
           | Inr status \<Rightarrow>
               (let exit_code = (case status of None \<Rightarrow> - 1 | Some c \<Rightarrow> c)
                in case cy_logs y of
                     Inl e \<Rightarrow> (Inl e, [Docker_Logs])
                   | Inr output \<Rightarrow>
                       (Inr (truncate_output output, exit_code, fsub (cy_end y) (cy_start y)), [Docker_Logs])))
        in (r, [Docker_Run kwargs, Docker_Wait timeout_seconds] @ events @ [Docker_Remove]))))"

definition plain_result :: "string option \<Rightarrow> test_outcome \<Rightarrow> string \<Rightarrow> rat \<Rightarrow> test_result" where
  "plain_result task_id outcome output duration =
     \<lparr>tr_task_id = task_id, tr_outcome = outcome, tr_raw_output = output, tr_failing_tests = [],
      tr_duration_seconds = duration\<rparr>"

text \<open>The client is constructed once; the second container finds it.\<close>

definition docker_run ::
  "(string \<Rightarrow> string) \<Rightarrow> sandbox_limits \<Rightarrow> string \<Rightarrow> target_test_adapter \<Rightarrow> string option \<Rightarrow>
     container_reply \<Rightarrow> container_reply \<Rightarrow> sandbox_run_result result \<times> docker_event list" where
  "docker_run realpath limits workspace_root adapter task_id y_install y_test =
     (let install_kwargs = build_container_kwargs realpath workspace_root (ta_base_docker_image adapter)
            (ta_install_command adapter) False limits
      in case run_container install_kwargs (sl_install_timeout_seconds limits) y_install of
        (Inl (SandboxTimeoutError m), ev) \<Rightarrow>
          (Inr \<lparr>sr_test_result = plain_result task_id Out_TIMEOUT m 0,
                sr_setup_output = '''', sr_setup_succeeded = False\<rparr>, ev)
      | (Inl e, ev) \<Rightarrow> (Inl e, ev)
      | (Inr (install_output, install_exit, install_duration), ev) \<Rightarrow>
          if install_exit \<noteq> 0
          then (Inr \<lparr>sr_test_result = plain_result task_id Out_ERROR install_output install_duration,
                     sr_setup_output = install_output, sr_setup_succeeded = False\<rparr>, ev)
          else
            (let test_kwargs = build_container_kwargs realpath workspace_root
                   (ta_base_docker_image adapter) (ta_test_command adapter) True limits
             in case run_container test_kwargs (sl_test_timeout_seconds limits) (y_test\<lparr>cy_client := Inr ()\<rparr>) of
               (Inl (SandboxTimeoutError m), ev') \<Rightarrow>
                 (Inr \<lparr>sr_test_result = plain_result task_id Out_TIMEOUT m 0,
                       sr_setup_output = install_output, sr_setup_succeeded = True\<rparr>, ev @ ev')
             | (Inl e, ev') \<Rightarrow> (Inl e, ev @ ev')
             | (Inr (test_output, test_exit, test_duration), ev') \<Rightarrow>
                 (let (outcome, failing) = ta_parse_test_output adapter test_output test_exit
                  in (Inr \<lparr>sr_test_result =
                             \<lparr>tr_task_id = task_id, tr_outcome = outcome, tr_raw_output = test_output,
                              tr_failing_tests = failing, tr_duration_seconds = test_duration\<rparr>,
                           sr_setup_output = install_output, sr_setup_succeeded = True\<rparr>, ev @ ev'))))"

section \<open>What the daemon is asked to do\<close>

definition hardened :: "container_kwargs \<Rightarrow> bool" where
  "hardened k \<longleftrightarrow> ck_user k = ''1000:1000'' \<and> ck_cap_drop k = [''ALL''] \<and>
     ck_security_opt k = [''no-new-privileges''] \<and> ck_read_only k \<and> length (ck_volumes k) = 1"

lemma build_hardened [simp]: "hardened (build_container_kwargs rp ws img cmd nd limits)"
  by (simp add: hardened_def build_container_kwargs_def)

lemma build_fields [simp]:
  "ck_network_disabled (build_container_kwargs rp ws img cmd nd limits) = nd"
  "ck_command (build_container_kwargs rp ws img cmd nd limits) = cmd"
  by (simp_all add: build_container_kwargs_def)

text \<open>The calls of one container: none, a failed start, or start to removal.\<close>

lemma run_container_events:
  "snd (run_container k t y) \<in> {[], [Docker_Run k],
     [Docker_Run k, Docker_Wait t, Docker_Kill, Docker_Remove],
     [Docker_Run k, Docker_Wait t, Docker_Logs, Docker_Remove]}"
  by (auto simp: run_container_def Let_def split: sum.splits prod.splits)

lemma run_container_Inr:
  assumes "run_container k t y = (Inr (output, exit_code, d), ev)"
  shows "ev = [Docker_Run k, Docker_Wait t, Docker_Logs, Docker_Remove]"
    and "cy_wait y = Inr (Some exit_code) \<or> exit_code = - 1"
    and "length output \<le> MAX_CAPTURED_OUTPUT_CHARS + length truncation_mark"
  using assms by (auto simp: run_container_def Let_def truncate_output_def split: sum.splits prod.splits
      option.splits if_splits)

text \<open>The calls of a whole run: those of the install container, then those of the test container.\<close>

abbreviation install_container ::
  "(string \<Rightarrow> string) \<Rightarrow> sandbox_limits \<Rightarrow> string \<Rightarrow> target_test_adapter \<Rightarrow> container_kwargs" where
  "install_container realpath limits ws a \<equiv>
     build_container_kwargs realpath ws (ta_base_docker_image a) (ta_install_command a) False limits"

abbreviation test_container ::
  "(string \<Rightarrow> string) \<Rightarrow> sandbox_limits \<Rightarrow> string \<Rightarrow> target_test_adapter \<Rightarrow> container_kwargs" where
  "test_container realpath limits ws a \<equiv>
     build_container_kwargs realpath ws (ta_base_docker_image a) (ta_test_command a) True limits"

lemma docker_run_events:
  obtains y where "snd (docker_run realpath limits ws a tid y_install y_test) =
      snd (run_container (install_container realpath limits ws a) (sl_install_timeout_seconds limits) y)"
  | y z where "snd (docker_run realpath limits ws a tid y_install y_test) =
      snd (run_container (install_container realpath limits ws a) (sl_install_timeout_seconds limits) y) @
      snd (run_container (test_container realpath limits ws a) (sl_test_timeout_seconds limits) z)"
proof -
  let ?i = "run_container (install_container realpath limits ws a) (sl_install_timeout_seconds limits) y_install"
  let ?t = "run_container (test_container realpath limits ws a) (sl_test_timeout_seconds limits)
    (y_test\<lparr>cy_client := Inr ()\<rparr>)"
  have "snd (docker_run realpath limits ws a tid y_install y_test) \<in> {snd ?i, snd ?i @ snd ?t}"
    by (simp add: docker_run_def Let_def split: prod.split sum.split py_exn.split)
  then show thesis using that by blast
qed

lemma docker_run_containers:
  assumes "Docker_Run k \<in> set (snd (docker_run realpath limits ws a tid y_install y_test))"
  shows "k = install_container realpath limits ws a \<or> k = test_container realpath limits ws a"
proof -
  have r: "Docker_Run k \<in> set (snd (run_container k' t y)) \<Longrightarrow> k = k'" for k' t y
    using run_container_events [of k' t y] by auto
  show ?thesis
    by (rule docker_run_events [of realpath limits ws a tid y_install y_test])
      (use assms in \<open>auto dest: r\<close>)
qed

lemma docker_run_removes:
  "count_list (snd (docker_run realpath limits ws a tid y_install y_test)) Docker_Remove =
   length (filter (\<lambda>e. \<exists>t. e = Docker_Wait t) (snd (docker_run realpath limits ws a tid y_install y_test)))"
proof -
  have r: "count_list (snd (run_container k t y)) Docker_Remove =
      length (filter (\<lambda>e. \<exists>t. e = Docker_Wait t) (snd (run_container k t y)))" for k t y
    using run_container_events [of k t y] by auto
  show ?thesis
    by (rule docker_run_events [of realpath limits ws a tid y_install y_test]) (simp_all add: r)
qed

text \<open>A verdict that depends on the tests comes from a test container that ran to its end.\<close>

lemma docker_run_verdict:
  assumes "docker_run realpath limits ws a tid y_install y_test = (Inr r, ev)"
    and "tr_outcome (sr_test_result r) \<in> {Out_PASSED, Out_FAILED}"
  shows "\<exists>output code. cy_wait y_install = Inr (Some 0) \<and>
    ev = [Docker_Run (install_container realpath limits ws a), Docker_Wait (sl_install_timeout_seconds limits),
          Docker_Logs, Docker_Remove,
          Docker_Run (test_container realpath limits ws a), Docker_Wait (sl_test_timeout_seconds limits),
          Docker_Logs, Docker_Remove] \<and>
    (cy_wait y_test = Inr (Some code) \<or> code = - 1) \<and>
    ta_parse_test_output a output code = (tr_outcome (sr_test_result r), tr_failing_tests (sr_test_result r))"
proof -
  let ?i = "run_container (install_container realpath limits ws a) (sl_install_timeout_seconds limits) y_install"
  let ?t = "run_container (test_container realpath limits ws a) (sl_test_timeout_seconds limits)
    (y_test\<lparr>cy_client := Inr ()\<rparr>)"
  obtain io d ev1 where i: "?i = (Inr (io, 0, d), ev1)"
    using assms by (auto simp: docker_run_def Let_def plain_result_def split: prod.splits sum.splits py_exn.splits if_splits)
  obtain out code d2 ev2 where t: "?t = (Inr (out, code, d2), ev2)"
    using assms i by (auto simp: docker_run_def Let_def plain_result_def split: prod.splits sum.splits py_exn.splits if_splits)
  obtain oc fl where p: "ta_parse_test_output a out code = (oc, fl)" by fastforce
  have "ev = ev1 @ ev2" "tr_outcome (sr_test_result r) = oc" "tr_failing_tests (sr_test_result r) = fl"
    using assms(1) i t p by (auto simp: docker_run_def Let_def)
  with run_container_Inr [OF i] run_container_Inr(1,2) [OF t] p show ?thesis by auto
qed

end
