(* ===== verification/Sandbox_Node.thy ===== *)
theory Sandbox_Node
  imports Workspace Diffs Docker_Runner
begin

text \<open>
  \<open>app/graph/nodes/sandbox_test.py\<close>: bring the workspace to the effective files, then run the full
  suite. The file system is threaded through; the runner is a parameter (\<open>docker_run\<close> of the theory
  \<open>Docker_Runner\<close> is the production one) and may change the workspace. The main lemma says what the
  tests see: the effective files with their contents, no stale file, and nothing else changed.
\<close>

type_synonym sandbox_runner = "string \<Rightarrow> target_test_adapter \<Rightarrow> fs \<Rightarrow> sandbox_run_result result \<times> fs"

text \<open>The body of the \<open>try\<close>: the outcome and the file system it leaves.\<close>

definition prepare_workspace ::
  "(string \<Rightarrow> string) \<Rightarrow> string \<Rightarrow> editor_result list \<Rightarrow> migration_task list \<Rightarrow> fs \<Rightarrow> fs \<times> string list result" where
  "prepare_workspace realpath workspace editor_results tasks f =
     (case remove_paths realpath workspace (stale_paths editor_results tasks) f of
        Inl e \<Rightarrow> (f, Inl e)
      | Inr (f1, removed) \<Rightarrow> apply_diffs realpath workspace (effective_diffs editor_results tasks) f1)"

definition sandbox_test_node ::
  "(string \<Rightarrow> string) \<Rightarrow> sandbox_runner \<Rightarrow> graph_state \<Rightarrow> fs \<Rightarrow> state_update result \<times> fs" where
  "sandbox_test_node realpath runner s f =
     (case need ''config'' (gs_config s) of
        Inl e \<Rightarrow> (Inl e, f)
      | Inr config \<Rightarrow>
          if effective_diffs (gs_editor_results s) (gs_tasks s) = []
          then (Inr (no_update\<lparr>up_phase := Some Ph_ERROR_ANALYSIS, up_error_log := Some
                  [''Sandbox skipped: no editor diffs were available to apply.'']\<rparr>), f)
          else case prepare_workspace realpath (rc_target_workspace_path config)
                      (gs_editor_results s) (gs_tasks s) f of
            (f1, Inl (UnsafeDiffPathError m)) \<Rightarrow>
              (Inr (no_update\<lparr>up_phase := Some Ph_FAILED, up_error_log := Some
                 [''Refused to apply editor diffs '' @ em_dash @ '' unsafe path: '' @ m]\<rparr>), f1)
          | (f1, Inl e) \<Rightarrow> (Inl e, f1)
          | (f1, Inr written) \<Rightarrow>
              case get_target_test_adapter (rc_target_stack config) of
                Inl e \<Rightarrow> (Inl e, f1)
              | Inr adapter \<Rightarrow>
                  case runner (rc_target_workspace_path config) adapter f1 of
                    (Inl e, f2) \<Rightarrow> (Inl e, f2)
                  | (Inr run_result, f2) \<Rightarrow>
                      (Inr (no_update\<lparr>up_test_results := Some [sr_test_result run_result],
                         up_full_suite_result := Some (sr_test_result run_result),
                         up_phase := Some (if tr_outcome (sr_test_result run_result) = Out_PASSED
                           then Ph_AGGREGATING else Ph_ERROR_ANALYSIS)\<rparr>), f2))"

section \<open>What the tests see\<close>

lemma distinct_key_find:
  "distinct (map key xs) \<Longrightarrow> x \<in> set xs \<Longrightarrow> key x = k \<Longrightarrow> find_last (\<lambda>y. key y = k) xs = Some x"
  using find_last_key by metis

lemma prepared_files:
  assumes prep: "prepare_workspace plain_realpath ws rs ts f = (f', Inr written)"
    and root: "plain_realpath ws \<noteq> ''/''"
    and plain: "\<forall>d \<in> set (all_diffs rs). plain_segments (py_split (CHR ''/'') (fd_path d))"
  shows "d \<in> set (effective_diffs rs ts) \<Longrightarrow> file_at f' (plain_realpath ws @ ''/'' @ fd_path d) = Some (fd_content d)"
    and "p \<in> set (stale_paths rs ts) \<Longrightarrow> file_at f' (plain_realpath ws @ ''/'' @ p) = None"
    and "q \<notin> (\<lambda>d. plain_realpath ws @ ''/'' @ fd_path d) ` set (all_diffs rs) \<Longrightarrow> file_at f' q = file_at f q"
proof -
  let ?full = "\<lambda>p. plain_realpath ws @ ''/'' @ p" and ?ds = "effective_diffs rs ts" and ?st = "stale_paths rs ts"
  have paths: "fd_path ` set (all_diffs rs) = fd_path ` set ?ds \<union> set ?st" "fd_path ` set ?ds \<inter> set ?st = {}"
    by (rule written_effective_or_stale)+
  have res: "resolve_safe_path plain_realpath ws p = Inr (?full p)" if "p \<in> fd_path ` set ?ds \<union> set ?st" for p
  proof -
    from that have "p \<in> fd_path ` set (all_diffs rs)" by (simp only: paths(1))
    then show ?thesis using plain by (intro resolve_plain [OF root]) auto
  qed
  obtain f1 removed where rem: "remove_paths plain_realpath ws ?st f = Inr (f1, removed)"
    and app: "apply_diffs plain_realpath ws ?ds f1 = (f', Inr written)"
    using prep by (auto simp: prepare_workspace_def split: sum.splits)
  have "try_map (\<lambda>p. try_bind (resolve_safe_path plain_realpath ws p) (\<lambda>full. Inr (p, full))) ?st =
      Inr (map (\<lambda>p. (p, ?full p)) ?st)"
    by (auto simp: try_map_Inr list_all2_map2 res intro: list.rel_refl_strong)
  with rem have f1: "file_at f1 q = (if q \<in> ?full ` set ?st then None else file_at f q)" for q
    using remove_resolved_file_at [of "map (\<lambda>p. (p, ?full p)) ?st" f q]
    by (simp add: remove_paths_def image_image)
  obtain f0 where f0: "makedirs ws f1 = Inr f0"
    using app by (auto simp: apply_diffs_def split: sum.splits)
  have "try_map (resolve_diff plain_realpath ws) ?ds = Inr (map (\<lambda>d. (?full (fd_path d), d)) ?ds)"
    by (auto simp: try_map_Inr list_all2_map2 res intro: list.rel_refl_strong)
  with app f0 have "write_resolved (map (\<lambda>d. (?full (fd_path d), d)) ?ds) f0 = (f', Inr written)"
    by (simp add: apply_diffs_def)
  from write_resolved_Inr [OF this]
  have f': "file_at f' q = (case find_last (\<lambda>r. fst r = q) (map (\<lambda>d. (?full (fd_path d), d)) ?ds) of
      Some r \<Rightarrow> Some (fd_content (snd r)) | None \<Rightarrow> file_at f1 q)" for q
    by (simp add: makedirs_file_at [OF f0] split: option.split)
  have dist: "distinct (map fst (map (\<lambda>d. (?full (fd_path d), d)) ?ds))"
    using effective_paths_distinct [of rs ts] by (auto simp: distinct_map inj_on_def)
  show "file_at f' (?full (fd_path d)) = Some (fd_content d)" if "d \<in> set ?ds"
    using distinct_key_find [OF dist, of "(?full (fd_path d), d)"] that by (simp add: f')
  have miss: "find_last (\<lambda>r. fst r = q) (map (\<lambda>d. (?full (fd_path d), d)) ?ds) = None"
    if "q \<notin> ?full ` fd_path ` set ?ds" for q
    using that by (auto simp: find_last_None)
  show "file_at f' (?full p) = None" if "p \<in> set ?st"
  proof -
    have "?full p \<notin> ?full ` fd_path ` set ?ds" using paths(2) that by auto
    from miss [OF this] that show ?thesis by (simp add: f' f1)
  qed
  show "file_at f' q = file_at f q" if "q \<notin> (\<lambda>d. ?full (fd_path d)) ` set (all_diffs rs)"
  proof -
    have "(\<lambda>d. ?full (fd_path d)) ` set (all_diffs rs) = ?full ` (fd_path ` set ?ds \<union> set ?st)"
      unfolding paths(1) [symmetric] by (simp add: image_image)
    with that have "q \<notin> ?full ` fd_path ` set ?ds" "q \<notin> ?full ` set ?st" by auto
    from miss [OF this(1)] this(2) show ?thesis by (simp add: f' f1)
  qed
qed

section \<open>Outcomes of the node\<close>

text \<open>Nothing outside the workspace changes, whatever the paths are.\<close>

lemma remove_paths_outside:
  assumes "\<not> inside (realpath ws) q" "remove_paths realpath ws ps f = Inr (f', removed)"
  shows "file_at f' q = file_at f q"
proof -
  obtain rs where rs: "try_map (\<lambda>p. try_bind (resolve_safe_path realpath ws p) (\<lambda>full. Inr (p, full))) ps = Inr rs"
    "f' = fst (remove_resolved rs f)"
    using assms(2) by (auto simp: remove_paths_def)
  have "q \<notin> snd ` set rs"
    using removed_pairs(2) [OF rs(1)] resolve_inside assms(1) by fastforce
  then show ?thesis by (simp add: rs(2) remove_resolved_file_at)
qed

lemma prepare_outside:
  assumes "\<not> inside (realpath ws) q"
  shows "file_at (fst (prepare_workspace realpath ws rs ts f)) q = file_at f q"
  using remove_paths_outside [of realpath ws q, OF assms] apply_diffs_outside [of realpath ws q, OF assms]
  by (auto simp: prepare_workspace_def split: sum.split prod.split)

lemma sandbox_cases [consumes 1, case_names nothing unsafe tested]:
  assumes "sandbox_test_node realpath runner s f = (Inr u, f')"
  obtains "effective_diffs (gs_editor_results s) (gs_tasks s) = []" "up_full_suite_result u = None"
      "up_phase u = Some Ph_ERROR_ANALYSIS" "f' = f"
    | m config where "up_full_suite_result u = None" "up_phase u = Some Ph_FAILED" "gs_config s = Some config"
      "prepare_workspace realpath (rc_target_workspace_path config) (gs_editor_results s) (gs_tasks s) f =
         (f', Inl (UnsafeDiffPathError m))"
    | config f1 written adapter run where "gs_config s = Some config"
      "effective_diffs (gs_editor_results s) (gs_tasks s) \<noteq> []"
      "prepare_workspace realpath (rc_target_workspace_path config) (gs_editor_results s) (gs_tasks s) f = (f1, Inr written)"
      "get_target_test_adapter (rc_target_stack config) = Inr adapter"
      "runner (rc_target_workspace_path config) adapter f1 = (Inr run, f')"
      "up_full_suite_result u = Some (sr_test_result run)" "up_test_results u = Some [sr_test_result run]"
      "up_phase u = Some (if tr_outcome (sr_test_result run) = Out_PASSED then Ph_AGGREGATING else Ph_ERROR_ANALYSIS)"
proof -
  obtain config where c: "gs_config s = Some config"
    using assms by (cases "gs_config s") (auto simp: sandbox_test_node_def)
  note node = assms [unfolded sandbox_test_node_def c need_simps(2) sum.case]
  show ?thesis
  proof (cases "effective_diffs (gs_editor_results s) (gs_tasks s) = []")
    case True
    with node show ?thesis by (intro that(1)) (auto simp: no_update_def)
  next
    case ne: False
    obtain f1 r where prep: "prepare_workspace realpath (rc_target_workspace_path config) (gs_editor_results s)
        (gs_tasks s) f = (f1, r)" by fastforce
    note node = node [unfolded if_not_P [OF ne] prep prod.case]
    show ?thesis
    proof (cases r)
      case (Inl e)
      with node obtain m where "e = UnsafeDiffPathError m" by (auto split: py_exn.splits)
      with node prep c Inl show ?thesis by (intro that(2) [of config m]) (auto simp: no_update_def)
    next
      case (Inr written)
      obtain adapter where a: "get_target_test_adapter (rc_target_stack config) = Inr adapter"
        using node Inr by (auto split: sum.splits)
      obtain run f2 where r: "runner (rc_target_workspace_path config) adapter f1 = (Inr run, f2)"
        using node Inr a by (auto split: sum.splits prod.splits)
      show ?thesis
        using node Inr a r prep ne c by (intro that(3)) (auto simp: no_update_def)
    qed
  qed
qed

definition sandbox_frame :: "state_update \<Rightarrow> bool" where
  "sandbox_frame u \<longleftrightarrow> up_tasks u = None \<and> up_editor_results u = None \<and> up_budget u = None \<and>
     up_budget_deltas u = None \<and> up_budget_deltas_consumed u = None \<and> up_pr_draft u = None \<and>
     up_pr_url u = None \<and> up_approval_status u = None \<and> up_retry_round u = None \<and>
     up_aggregated_diff_paths u = None \<and> up_comprehension u = None \<and> up_pr_branch_name u = None"

lemma sandbox_node_frame: "sandbox_test_node realpath runner s f = (Inr u, f') \<Longrightarrow> sandbox_frame u"
  unfolding sandbox_test_node_def
  by (auto simp: sandbox_frame_def no_update_def split: sum.splits prod.splits if_splits py_exn.splits)

end
