(* ===== verification/Approval.thy ===== *)
theory Approval
  imports Graph_State
begin

text \<open>
  \<open>app/graph/nodes/approval.py\<close>: the two nodes around the interrupt. \<open>approval_request\<close> is the
  payload handed to \<open>interrupt\<close>, the resume value is the argument \<open>decision\<close> of the gate. The lemmas
  state that the gate fails closed.
\<close>

section \<open>Resume values\<close>

datatype json_value = J_Null | J_Bool bool | J_Number int | J_String string

text \<open>A dictionary with its two entries (a missing key is \<open>None\<close>), or anything else.\<close>

datatype decision =
    Decision_Dict (dd_approved: "json_value option") (dd_feedback: "string option")
  | Not_A_Dict json_value

record approval_payload =
  ap_kind :: string
  ap_run_id :: "string option"
  ap_title :: string
  ap_body :: string
  ap_branch_name :: string
  ap_files :: "string list"

section \<open>Nodes\<close>

definition request_approval_node :: "graph_state \<Rightarrow> state_update result" where
  "request_approval_node s = Inr (no_update\<lparr>up_phase := Some Ph_AWAITING_APPROVAL\<rparr>)"

definition approval_request :: "graph_state \<Rightarrow> approval_payload result" where
  "approval_request s =
     try_bind (need ''pr_draft'' (gs_pr_draft s)) (\<lambda>draft.
       Inr \<lparr>ap_kind = ''pr_approval'', ap_run_id = map_option rc_run_id (gs_config s),
            ap_title = pd_title draft, ap_body = pd_body draft, ap_branch_name = pd_branch_name draft,
            ap_files = gs_aggregated_diff_paths s\<rparr>)"

definition is_approved :: "decision \<Rightarrow> bool" where
  "is_approved d = (case d of Decision_Dict a f \<Rightarrow> a = Some (J_Bool True) | Not_A_Dict v \<Rightarrow> False)"

definition feedback_of :: "decision \<Rightarrow> string option" where
  "feedback_of d = (case d of Decision_Dict a f \<Rightarrow> f | Not_A_Dict v \<Rightarrow> None)"

definition approval_gate_node :: "decision \<Rightarrow> graph_state \<Rightarrow> state_update result" where
  "approval_gate_node decision s =
     try_bind (approval_request s) (\<lambda>payload.
       let feedback = feedback_of decision;
           remark = (case feedback of None \<Rightarrow> ''.'' | Some f \<Rightarrow> if f = '''' then ''.'' else '': '' @ f)
       in if is_approved decision
          then Inr (no_update\<lparr>up_approval_status := Some ''approved'', up_human_feedback := Some feedback,
                 up_phase := Some Ph_PR_GENERATION\<rparr>)
          else Inr (no_update\<lparr>up_approval_status := Some ''rejected'', up_human_feedback := Some feedback,
                 up_phase := Some Ph_REJECTED,
                 up_error_log := Some [''PR rejected by reviewer'' @ remark]\<rparr>))"

section \<open>The gate fails closed\<close>

lemma approval_gate_outcome:
  assumes "approval_gate_node d s = Inr u"
  shows "up_approval_status u = Some (if is_approved d then ''approved'' else ''rejected'')"
    and "up_phase u = Some (if is_approved d then Ph_PR_GENERATION else Ph_REJECTED)"
    and "up_human_feedback u = Some (feedback_of d)"
  using assms by (auto simp: approval_gate_node_def no_update_def Let_def split: if_splits)

lemma approved_iff: "is_approved d \<longleftrightarrow> (\<exists>f. d = Decision_Dict (Some (J_Bool True)) f)"
  by (cases d) (auto simp: is_approved_def)

definition approval_frame :: "state_update \<Rightarrow> bool" where
  "approval_frame u \<longleftrightarrow> up_tasks u = None \<and> up_editor_results u = None \<and> up_budget u = None \<and>
     up_budget_deltas u = None \<and> up_budget_deltas_consumed u = None \<and> up_pr_draft u = None \<and>
     up_pr_url u = None \<and> up_full_suite_result u = None \<and> up_retry_round u = None \<and>
     up_aggregated_diff_paths u = None \<and> up_comprehension u = None \<and> up_pr_branch_name u = None \<and>
     up_test_results u = None"

lemma approval_frames:
  "request_approval_node s = Inr u \<Longrightarrow> approval_frame u \<and> up_approval_status u = None"
  "approval_gate_node d s = Inr u \<Longrightarrow> approval_frame u"
  by (auto simp: request_approval_node_def approval_gate_node_def approval_frame_def no_update_def Let_def
      split: if_splits)

end
