(* ===== verification/Vcs_Paths.thy ===== *)
theory Vcs_Paths
  imports Prelude
begin

text \<open>
  \<open>app/vcs/paths.py\<close>: which paths may be sent to a git host. The pattern \<open>^[\w./-]+$\<close> is used with
  \<open>match\<close>, so its \<open>$\<close> also accepts one line feed after the last character.
\<close>

definition safe_path_char :: "char \<Rightarrow> bool" where
  "safe_path_char c \<longleftrightarrow> is_word c \<or> c = CHR ''.'' \<or> c = CHR ''/'' \<or> c = CHR ''-''"

definition safe_chars_match :: "string \<Rightarrow> bool" where
  "safe_chars_match s =
     (let body = (if s \<noteq> [] \<and> last s = CHR 0x0A then butlast s else s)
      in body \<noteq> [] \<and> (\<forall>c \<in> set body. safe_path_char c))"

definition forbidden_segments :: "string list" where
  "forbidden_segments = [''.git'', ''.github'']"

definition forbidden_files :: "string list" where
  "forbidden_files = [''.gitmodules'', ''.gitattributes'']"

definition publishable_path_problem :: "string \<Rightarrow> string option" where
  "publishable_path_problem path =
     (if path = [] \<or> prefix ''/'' path \<or> CHR 0x5C \<in> set path
      then Some ''empty, absolute, or contains a backslash''
      else if \<not> safe_chars_match path
      then Some ''contains characters outside [A-Za-z0-9_./-]''
      else let segments = py_split (CHR ''/'') path in
        if \<exists>seg \<in> set segments. seg \<in> {'''', ''.'', ''..''}
        then Some ''contains an empty, '.', or '..' path segment''
        else let lowered = map py_lower segments in
          if \<exists>seg \<in> set lowered. seg \<in> set forbidden_segments
          then Some ''targets .git or .github''
          else if last lowered \<in> set forbidden_files
          then Some ''targets a protected git metadata file''
          else None)"

abbreviation path_segments :: "string \<Rightarrow> string list" where
  "path_segments p \<equiv> py_split (CHR ''/'') p"

lemma publishable_None:
  assumes "publishable_path_problem p = None"
  shows "p \<noteq> []" "\<not> prefix ''/'' p" "CHR 0x5C \<notin> set p" "safe_chars_match p"
    "\<forall>seg \<in> set (path_segments p). seg \<notin> {'''', ''.'', ''..''}"
    "\<forall>seg \<in> set (path_segments p). py_lower seg \<notin> {''.git'', ''.github''}"
    "py_lower (last (path_segments p)) \<notin> {''.gitmodules'', ''.gitattributes''}"
  using assms
  by (auto simp: publishable_path_problem_def Let_def forbidden_segments_def forbidden_files_def
      last_map split: if_splits)

lemma safe_chars_no_newline:
  assumes "safe_chars_match p" "CHR 0x0A \<notin> set p" "c \<in> set p"
  shows "safe_path_char c"
proof -
  have "\<not> (p \<noteq> [] \<and> last p = CHR 0x0A)" using assms(2) by (metis last_in_set)
  with assms(1,3) show ?thesis by (simp add: safe_chars_match_def Let_def split: if_splits)
qed

end
