(* ===== verification/Aggregate.thy ===== *)
theory Aggregate
  imports Diffs Vcs_Paths
begin

text \<open>
  \<open>app/graph/nodes/aggregate.py\<close>: from the effective output to the pull request draft. The lemmas say
  that a draft exists exactly when there is something to ship and every path is publishable, that
  the recorded paths are the effective ones, and that the body names every one of them.
\<close>

definition md_bold :: "string \<Rightarrow> string" where
  "md_bold s = ''**'' @ s @ ''**''"

definition pr_title_of :: "run_config \<Rightarrow> string" where
  "pr_title_of config = ''Migrate '' @ rc_scope_description config @ '' ('' @ rc_source_stack config @ '' ''
     @ right_arrow @ '' '' @ rc_target_stack config @ '')''"

text \<open>The lines of the section "Files changed".\<close>

definition purpose_of :: "migration_task list \<Rightarrow> editor_result \<Rightarrow> string" where
  "purpose_of tasks result =
     (let tasks_by_id = foldl (\<lambda>d t. dict_put (mt_id t) t d) [] tasks
      in case map_of tasks_by_id (er_task_id result) of
           Some task \<Rightarrow> (case mt_target_files task of [] \<Rightarrow> '''' | tf # _ \<Rightarrow> tf_purpose tf)
         | None \<Rightarrow> '''')"

definition file_line :: "string \<Rightarrow> file_diff \<Rightarrow> string" where
  "file_line purpose diff = ''- `'' @ fd_path diff @ ''`''
     @ (if purpose \<noteq> '''' then '' '' @ em_dash @ '' '' @ purpose else '''')"

definition file_lines :: "migration_task list \<Rightarrow> editor_result list \<Rightarrow> string list" where
  "file_lines tasks results =
     concat (map (\<lambda>result. map (file_line (purpose_of tasks result)) (er_diffs result)) results)"

definition review_lines :: "comprehension_result option \<Rightarrow> string list" where
  "review_lines comprehension =
     (case comprehension of
        None \<Rightarrow> []
      | Some c \<Rightarrow>
          let ambiguities = cr_unresolved_ambiguities c
          in if ambiguities = [] then []
             else ['''', ''## Flagged for review'',
                   ''The migration analysis noted the following '' @ em_dash @ '' please check these:'']
               @ map (\<lambda>remark. ''- '' @ remark) (take 15 ambiguities)
               @ (if 15 < length ambiguities
                  then [''- ...and '' @ str_nat (length ambiguities - 15) @ '' more (see full run log).'']
                  else []))"

definition build_pr_draft ::
  "run_config \<Rightarrow> editor_result list \<Rightarrow> migration_task list \<Rightarrow> comprehension_result option \<Rightarrow> pr_draft" where
  "build_pr_draft config results tasks comprehension =
     (let title = pr_title_of config;
          lines = [''Automated migration from '' @ md_bold (rc_source_stack config) @ '' to ''
                     @ md_bold (rc_target_stack config) @ ''.'',
                   '''', ''Scope: '' @ rc_scope_description config, '''', ''## Files changed'']
            @ file_lines tasks results @ review_lines comprehension
            @ ['''', ''---'', ''*Generated by stackmigrate. All test suites passed before this PR was opened. Please review before merging.*'']
      in \<lparr>pd_title = title, pd_body = str_join newline lines,
          pd_branch_name = ''stackmigrate/'' @ rc_run_id config,
          pd_commit_message = ''stackmigrate: '' @ title\<rparr>)"

definition path_problems :: "file_diff list \<Rightarrow> (string \<times> string) list" where
  "path_problems ds =
     List.map_filter (\<lambda>d. map_option (\<lambda>reason. (fd_path d, reason)) (publishable_path_problem (fd_path d))) ds"

definition aggregate_node :: "graph_state \<Rightarrow> state_update result" where
  "aggregate_node s =
     try_bind (need ''config'' (gs_config s)) (\<lambda>config.
       let results = effective_results (gs_editor_results s) (gs_tasks s);
           ds = effective_diffs (gs_editor_results s) (gs_tasks s);
           problems = path_problems ds
       in if ds = []
          then Inr (no_update\<lparr>up_phase := Some Ph_FAILED, up_error_log := Some
                 [''Aggregation found zero effective diffs despite a passing sandbox run '' @ em_dash
                  @ '' nothing to ship.'']\<rparr>)
          else if problems \<noteq> []
          then Inr (no_update\<lparr>up_phase := Some Ph_FAILED, up_error_log := Some
                 (map (\<lambda>(p, reason). ''Refusing to aggregate '' @ em_dash @ '' unpublishable path ''
                    @ [CHR 0x27] @ p @ [CHR 0x27] @ '': '' @ reason) problems)\<rparr>)
          else Inr (no_update\<lparr>up_aggregated_diff_paths := Some (map fd_path ds),
                 up_pr_draft := Some (build_pr_draft config results (gs_tasks s) (gs_comprehension s)),
                 up_phase := Some Ph_AGGREGATING\<rparr>))"

section \<open>When a draft is made\<close>

abbreviation effective_of :: "graph_state \<Rightarrow> file_diff list" where
  "effective_of s \<equiv> effective_diffs (gs_editor_results s) (gs_tasks s)"

lemma path_problems_Nil: "path_problems ds = [] \<longleftrightarrow> (\<forall>d \<in> set ds. publishable_path_problem (fd_path d) = None)"
  by (induction ds) (auto simp: path_problems_def List.map_filter_simps split: option.splits)

definition shippable :: "file_diff list \<Rightarrow> bool" where
  "shippable ds \<longleftrightarrow> ds \<noteq> [] \<and> (\<forall>d \<in> set ds. publishable_path_problem (fd_path d) = None)"

lemma aggregate_draft:
  assumes "aggregate_node s = Inr u"
  shows "up_pr_draft u \<noteq> None \<longleftrightarrow> shippable (effective_of s)"
    and "up_pr_draft u = None \<Longrightarrow> up_phase u = Some Ph_FAILED \<and> up_error_log u \<noteq> None \<and> up_aggregated_diff_paths u = None"
    and "up_pr_draft u = Some d \<Longrightarrow> up_aggregated_diff_paths u = Some (map fd_path (effective_of s)) \<and>
      (\<exists>config. gs_config s = Some config \<and>
        d = build_pr_draft config (effective_results (gs_editor_results s) (gs_tasks s)) (gs_tasks s) (gs_comprehension s))"
proof -
  obtain config where "gs_config s = Some config"
    using assms by (cases "gs_config s") (auto simp: aggregate_node_def)
  note node = assms [unfolded aggregate_node_def this need_simps(2) try_bind_simps(2) Let_def]
  show "up_pr_draft u \<noteq> None \<longleftrightarrow> shippable (effective_of s)"
    using node by (auto simp: shippable_def path_problems_Nil no_update_def split: if_splits)
  show "up_phase u = Some Ph_FAILED \<and> up_error_log u \<noteq> None \<and> up_aggregated_diff_paths u = None" if "up_pr_draft u = None"
    using that node by (auto simp: no_update_def split: if_splits)
  show "up_aggregated_diff_paths u = Some (map fd_path (effective_of s)) \<and> (\<exists>config. gs_config s = Some config \<and>
      d = build_pr_draft config (effective_results (gs_editor_results s) (gs_tasks s)) (gs_tasks s) (gs_comprehension s))"
    if "up_pr_draft u = Some d"
    using that node \<open>gs_config s = Some config\<close> by (auto simp: no_update_def split: if_splits)
qed

definition aggregate_frame :: "state_update \<Rightarrow> bool" where
  "aggregate_frame u \<longleftrightarrow> up_tasks u = None \<and> up_editor_results u = None \<and> up_budget u = None \<and>
     up_budget_deltas u = None \<and> up_budget_deltas_consumed u = None \<and> up_pr_url u = None \<and>
     up_full_suite_result u = None \<and> up_retry_round u = None \<and> up_approval_status u = None \<and>
     up_comprehension u = None \<and> up_pr_branch_name u = None \<and> up_test_results u = None"

lemma aggregate_node_frame: "aggregate_node s = Inr u \<Longrightarrow> aggregate_frame u"
  unfolding aggregate_node_def Let_def by (auto simp: aggregate_frame_def no_update_def split: if_splits)

section \<open>The body names every file\<close>

lemma sublist_str_join: "l \<in> set ls \<Longrightarrow> sublist l (str_join sep ls)"
proof (induction sep ls rule: str_join.induct)
  case (3 sep s t ss)
  show ?case
  proof (cases "l = s")
    case True
    then show ?thesis by (auto simp: sublist_def)
  next
    case False
    with 3 have "sublist l (str_join sep (t # ss))" by simp
    then obtain a b where "str_join sep (t # ss) = a @ l @ b" by (auto simp: sublist_def)
    then have "str_join sep (s # t # ss) = (s @ sep @ a) @ l @ b" by simp
    then show ?thesis unfolding sublist_def by blast
  qed
qed simp_all

lemma file_line_listed:
  assumes "r \<in> set results" "d \<in> set (er_diffs r)"
  shows "\<exists>l \<in> set (file_lines tasks results). prefix (''- `'' @ fd_path d @ ''`'') l"
proof (rule bexI)
  show "prefix (''- `'' @ fd_path d @ ''`'') (file_line (purpose_of tasks r) d)"
    by (simp add: file_line_def)
  show "file_line (purpose_of tasks r) d \<in> set (file_lines tasks results)"
    using assms by (auto simp: file_lines_def)
qed

lemma sublist_of_prefix: "prefix p l \<Longrightarrow> sublist l s \<Longrightarrow> sublist p s"
  by (meson prefix_imp_sublist sublist_order.order_trans)

lemma draft_body_lists:
  assumes "d \<in> set (effective_diffs rs ts)"
  shows "sublist (''- `'' @ fd_path d @ ''`'') (pd_body (build_pr_draft config (effective_results rs ts) ts c))"
proof -
  have "d \<in> set (all_diffs (effective_results rs ts))" using assms effective_diffs_subset by blast
  then obtain r where "r \<in> set (effective_results rs ts)" "d \<in> set (er_diffs r)" by auto
  from file_line_listed [OF this] obtain l where
    l: "l \<in> set (file_lines ts (effective_results rs ts))" "prefix (''- `'' @ fd_path d @ ''`'') l" by blast
  have "sublist l (pd_body (build_pr_draft config (effective_results rs ts) ts c))"
    unfolding build_pr_draft_def Let_def pr_draft.select_convs using l(1) by (intro sublist_str_join) simp
  with l(2) show ?thesis by (rule sublist_of_prefix)
qed

end
