(* ===== verification/Routing.thy ===== *)
theory Routing
  imports Budget Reducers
begin

text \<open>
  \<open>app/graph/routing.py\<close>: the readiness of tasks, the central budget gate and the conditional edges.
  A router returns one of the route names or a list of \<open>Send\<close>s; the argument of a \<open>Send("editor", \<dots>)\<close>
  is a graph state with the four keys the router puts there. \<open>route_to_editors\<close> reads the clock twice
  (in \<open>is_exhausted\<close> and again inside \<open>affordable_calls\<close>), hence its two readings.
\<close>

named_theorems route_simps "the decisions of the routers"

section \<open>Route names\<close>

definition NO_READY_TASKS :: string where "NO_READY_TASKS = ''no_ready_tasks''"
definition BUDGET_EXHAUSTED :: string where "BUDGET_EXHAUSTED = ''budget_exhausted''"
definition CONTINUE :: string where "CONTINUE = ''continue''"
definition APPROVAL_REQUIRED :: string where "APPROVAL_REQUIRED = ''approval_required''"
definition PUBLISH :: string where "PUBLISH = ''publish''"
definition FINISH :: string where "FINISH = ''finish''"
definition APPROVED :: string where "APPROVED = ''approved''"
definition REJECTED :: string where "REJECTED = ''rejected''"
definition SANDBOX_PASSED :: string where "SANDBOX_PASSED = ''sandbox_passed''"
definition SANDBOX_NEEDS_ANALYSIS :: string where
  "SANDBOX_NEEDS_ANALYSIS = ''sandbox_needs_analysis''"

lemmas route_names = NO_READY_TASKS_def BUDGET_EXHAUSTED_def CONTINUE_def APPROVAL_REQUIRED_def
  PUBLISH_def FINISH_def APPROVED_def REJECTED_def SANDBOX_PASSED_def SANDBOX_NEEDS_ANALYSIS_def

datatype route = Route string | Sends "graph_state list"

section \<open>Readiness\<close>

definition status_by_id :: "migration_task list \<Rightarrow> (string \<times> task_status) list" where
  "status_by_id tasks = foldl (\<lambda>d t. dict_put (mt_id t) (mt_status t) d) [] tasks"

definition is_ready :: "migration_task list \<Rightarrow> migration_task \<Rightarrow> bool" where
  "is_ready tasks task \<longleftrightarrow>
     mt_status task \<in> {St_PENDING, St_RETRYING} \<and>
     (\<forall>dep_id \<in> set (mt_depends_on_task_ids task).
        map_of (status_by_id tasks) dep_id = Some St_SUCCEEDED)"

definition get_ready_tasks :: "migration_task list \<Rightarrow> migration_task list" where
  "get_ready_tasks tasks = filter (is_ready tasks) tasks"

section \<open>Routers\<close>

definition make_send :: "graph_state \<Rightarrow> migration_task \<Rightarrow> graph_state result" where
  "make_send s task =
     try_bind (need ''config'' (gs_config s)) (\<lambda>config.
     try_bind (need ''comprehension'' (gs_comprehension s)) (\<lambda>comprehension.
     try_bind (need ''budget'' (gs_budget s)) (\<lambda>budget.
       Inr (empty_state\<lparr>gs_config := Some config, gs_comprehension := Some comprehension,
                        gs_budget := Some budget, gs_current_task := Some task\<rparr>))))"

definition route_to_editors :: "graph_state \<Rightarrow> rat \<Rightarrow> rat \<Rightarrow> route result" where
  "route_to_editors s now1 now2 =
     (let tasks = gs_tasks s; ready = get_ready_tasks tasks
      in if ready = [] then Inr (Route NO_READY_TASKS)
         else case gs_budget s of
           None \<Rightarrow> try_bind (try_map (make_send s) ready) (\<lambda>sends. Inr (Sends sends))
         | Some budget \<Rightarrow>
             if is_exhausted budget now1 then Inr (Route BUDGET_EXHAUSTED)
             else try_bind (affordable_calls budget (int (length ready)) now2) (\<lambda>n.
                  let ready = take (nat n) ready
                  in try_bind (try_map (make_send s) ready) (\<lambda>sends. Inr (Sends sends))))"

definition route_after_sandbox :: "graph_state \<Rightarrow> string" where
  "route_after_sandbox s =
     (case gs_full_suite_result s of
        Some r \<Rightarrow> if tr_outcome r = Out_PASSED then SANDBOX_PASSED else SANDBOX_NEEDS_ANALYSIS
      | None \<Rightarrow> SANDBOX_NEEDS_ANALYSIS)"

definition route_after_comprehension :: "graph_state \<Rightarrow> string" where
  "route_after_comprehension s =
     (if gs_phase s = Some Ph_ABORTED_BUDGET then BUDGET_EXHAUSTED else CONTINUE)"

text \<open>\<open>bool(x)\<close> of an optional string.\<close>

definition truthy :: "string option \<Rightarrow> bool" where
  "truthy v \<longleftrightarrow> v \<noteq> None \<and> v \<noteq> Some ''''"

definition needs_human_approval :: "graph_state \<Rightarrow> bool" where
  "needs_human_approval s =
     (case gs_config s of
        None \<Rightarrow> False
      | Some config \<Rightarrow> truthy (rc_github_target_repo config) \<and>
          (case rc_require_human_approval_before_pr config of None \<Rightarrow> True | Some f \<Rightarrow> f))"

definition route_after_aggregate :: "graph_state \<Rightarrow> string" where
  "route_after_aggregate s =
     (if gs_pr_draft s = None then FINISH
      else if needs_human_approval s then APPROVAL_REQUIRED else PUBLISH)"

definition route_after_approval :: "graph_state \<Rightarrow> string" where
  "route_after_approval s = (if gs_approval_status s = Some ''approved'' then APPROVED else REJECTED)"

section \<open>Facts\<close>

lemma status_by_id_lookup [route_simps]:
  "map_of (status_by_id tasks) i = map_option mt_status (find_last (\<lambda>t. mt_id t = i) tasks)"
  using od.get_loop [of mt_id mt_status "[]" tasks i]
  by (simp add: status_by_id_def split: option.splits)

lemma is_ready_iff [route_simps]:
  assumes "distinct (map mt_id tasks)"
  shows "is_ready tasks task \<longleftrightarrow> mt_status task \<in> {St_PENDING, St_RETRYING} \<and>
    (\<forall>dep_id \<in> set (mt_depends_on_task_ids task).
       \<exists>d \<in> set tasks. mt_id d = dep_id \<and> mt_status d = St_SUCCEEDED)"
proof -
  have "map_of (status_by_id tasks) i = Some St_SUCCEEDED \<longleftrightarrow>
      (\<exists>d \<in> set tasks. mt_id d = i \<and> mt_status d = St_SUCCEEDED)" for i
    using find_last_distinct [OF assms]
    by (auto simp: status_by_id_lookup dest: find_last_SomeD)
  then show ?thesis by (simp add: is_ready_def)
qed

lemma get_ready_tasks_iff:
  assumes "distinct (map mt_id tasks)"
  shows "task \<in> set (get_ready_tasks tasks) \<longleftrightarrow>
    task \<in> set tasks \<and> mt_status task \<in> {St_PENDING, St_RETRYING} \<and>
    (\<forall>dep_id \<in> set (mt_depends_on_task_ids task).
       \<exists>d \<in> set tasks. mt_id d = dep_id \<and> mt_status d = St_SUCCEEDED)"
  by (auto simp: get_ready_tasks_def is_ready_iff [OF assms])

lemma ready_distinct: "distinct (map mt_id tasks) \<Longrightarrow> distinct (map mt_id (get_ready_tasks tasks))"
  by (simp add: get_ready_tasks_def distinct_map_filter)

lemma make_send_Inr:
  "make_send s task = Inr a \<Longrightarrow> gs_current_task a = Some task \<and> gs_budget a = gs_budget s \<and>
     gs_config a = gs_config s \<and> gs_comprehension a = gs_comprehension s"
  by (auto simp: make_send_def)

lemma make_sends_tasks:
  "try_map (make_send s) ts = Inr as \<Longrightarrow> map gs_current_task as = map Some ts"
  unfolding try_map_Inr by (induction rule: list_all2_induct) (auto dest: make_send_Inr)

lemma make_sends_budget:
  "try_map (make_send s) ts = Inr as \<Longrightarrow> a \<in> set as \<Longrightarrow> gs_budget a = gs_budget s"
  unfolding try_map_Inr by (induction rule: list_all2_induct) (auto dest: make_send_Inr)

text \<open>What a dispatch sends: a prefix of the ready tasks, in their order.\<close>

lemma route_sends_prefix:
  assumes "route_to_editors s now1 now2 = Inr (Sends as)"
  shows "\<exists>n. map gs_current_task as = map Some (take n (get_ready_tasks (gs_tasks s)))"
proof -
  have "map gs_current_task as = map Some (take (length (get_ready_tasks (gs_tasks s)))
      (get_ready_tasks (gs_tasks s))) \<or>
    (\<exists>n. map gs_current_task as = map Some (take n (get_ready_tasks (gs_tasks s))))"
    using assms by (auto simp: route_to_editors_def Let_def dest!: make_sends_tasks
        split: if_splits option.splits)
  then show ?thesis by blast
qed

lemma route_no_ready_iff:
  "route_to_editors s now1 now2 = Inr (Route NO_READY_TASKS) \<longleftrightarrow> get_ready_tasks (gs_tasks s) = []"
  by (auto simp: route_to_editors_def Let_def route_names split: option.splits if_splits)

lemma route_exhausted_iff:
  "route_to_editors s now1 now2 = Inr (Route BUDGET_EXHAUSTED) \<longleftrightarrow>
     get_ready_tasks (gs_tasks s) \<noteq> [] \<and> (\<exists>b. gs_budget s = Some b \<and> is_exhausted b now1)"
  by (auto simp: route_to_editors_def Let_def route_names split: option.splits if_splits)

lemma route_names_only:
  "route_to_editors s now1 now2 = Inr (Route r) \<Longrightarrow> r = NO_READY_TASKS \<or> r = BUDGET_EXHAUSTED"
  by (auto simp: route_to_editors_def Let_def split: option.splits if_splits)

end
