(* ===== verification/Publish.thy ===== *)
theory Publish
  imports Aggregate Routing
begin

text \<open>
  \<open>app/graph/nodes/pr_publish.py\<close>, \<open>app/vcs/github_publisher.py\<close> and \<open>app/vcs/interface.py\<close>. A
  publisher is a function from a request to a published pull request or an exception; the node
  returns, next to its update, the requests it made. The GitHub publisher talks to an API whose
  answers are a parameter (\<open>api_reply\<close>) and returns the list of calls it made, in order.
\<close>

section \<open>The interface\<close>

record published_pr =
  pp_url :: string
  pp_branch_name :: string
  pp_commit_sha :: string

record publish_request =
  pq_repo_full_name :: string
  pq_base_branch :: string
  pq_branch_name :: string
  pq_commit_message :: string
  pq_pr_title :: string
  pq_pr_body :: string
  pq_files :: "file_diff list"

type_synonym pr_publisher = "publish_request \<Rightarrow> published_pr result"

section \<open>The GitHub publisher\<close>

text \<open>An element of a git tree: path, mode, type, content.\<close>

type_synonym tree_element = "string \<times> string \<times> string \<times> string"

datatype github_call =
    Get_Repo string
  | Get_Git_Ref string
  | Get_Git_Commit string
  | Create_Git_Tree "tree_element list" string
  | Create_Git_Commit string string string
  | Create_Git_Ref string string
  | Create_Pull string string string string

record api_reply =
  ay_client :: "unit result" \<comment> \<open>the lazy imports and \<open>Github(token)\<close>\<close>
  ay_get_repo :: "unit result"
  ay_get_git_ref :: "string result" \<comment> \<open>the commit the base branch points to\<close>
  ay_get_git_commit :: "string result" \<comment> \<open>its tree\<close>
  ay_create_git_tree :: "string result"
  ay_create_git_commit :: "string result"
  ay_create_git_ref :: "unit result"
  ay_create_pull :: "string result"

definition check_files :: "file_diff list \<Rightarrow> unit list result" where
  "check_files files =
     try_map (\<lambda>f. case publishable_path_problem (fd_path f) of
        None \<Rightarrow> Inr ()
      | Some problem \<Rightarrow> Inl (UnpublishablePathError (''Refusing to publish '' @ [CHR 0x27] @ fd_path f
          @ [CHR 0x27] @ '': '' @ problem))) files"

definition tree_elements :: "file_diff list \<Rightarrow> tree_element list" where
  "tree_elements files = map (\<lambda>f. (fd_path f, ''100644'', ''blob'', fd_content f)) files"

text \<open>One API call: record it, then go on with its answer.\<close>

definition api_call ::
  "github_call \<Rightarrow> 'a result \<Rightarrow> ('a \<Rightarrow> 'b result \<times> github_call list) \<Rightarrow> 'b result \<times> github_call list" where
  "api_call c answer k = (case answer of
     Inl e \<Rightarrow> (Inl e, [c])
   | Inr v \<Rightarrow> (let (r, calls) = k v in (r, c # calls)))"

definition github_publish ::
  "string option \<Rightarrow> api_reply \<Rightarrow> publish_request \<Rightarrow> published_pr result \<times> github_call list" where
  "github_publish token api q =
     (case check_files (pq_files q) of Inl e \<Rightarrow> (Inl e, []) | Inr _ \<Rightarrow>
      if \<not> truthy token
      then (Inl (RuntimeError ''GITHUB_TOKEN is not set and no token was passed to GitHubPRPublisher.''), [])
      else case ay_client api of Inl e \<Rightarrow> (Inl e, []) | Inr _ \<Rightarrow>
      api_call (Get_Repo (pq_repo_full_name q)) (ay_get_repo api) (\<lambda>_.
      api_call (Get_Git_Ref (''heads/'' @ pq_base_branch q)) (ay_get_git_ref api) (\<lambda>base_sha.
      api_call (Get_Git_Commit base_sha) (ay_get_git_commit api) (\<lambda>base_tree.
      api_call (Create_Git_Tree (tree_elements (pq_files q)) base_tree) (ay_create_git_tree api) (\<lambda>new_tree.
      api_call (Create_Git_Commit (pq_commit_message q) new_tree base_sha) (ay_create_git_commit api) (\<lambda>new_sha.
      api_call (Create_Git_Ref (''refs/heads/'' @ pq_branch_name q) new_sha) (ay_create_git_ref api) (\<lambda>_.
      api_call (Create_Pull (pq_pr_title q) (pq_pr_body q) (pq_branch_name q) (pq_base_branch q)) (ay_create_pull api)
        (\<lambda>url. (Inr \<lparr>pp_url = url, pp_branch_name = pq_branch_name q, pp_commit_sha = new_sha\<rparr>, [])))))))))"

section \<open>The node\<close>

text \<open>\<open>config["github_target_repo"]\<close> is present when the node gets this far.\<close>

definition publish_request_of :: "graph_state \<Rightarrow> run_config \<Rightarrow> string \<Rightarrow> pr_draft \<Rightarrow> publish_request" where
  "publish_request_of s config repo draft =
     \<lparr>pq_repo_full_name = repo,
      pq_base_branch = (case rc_target_base_branch config of None \<Rightarrow> ''main'' | Some b \<Rightarrow> b),
      pq_branch_name = pd_branch_name draft, pq_commit_message = pd_commit_message draft,
      pq_pr_title = pd_title draft, pq_pr_body = pd_body draft,
      pq_files = effective_diffs (gs_editor_results s) (gs_tasks s)\<rparr>"

definition publish_approved_pr :: "pr_publisher \<Rightarrow> publish_request \<Rightarrow> state_update" where
  "publish_approved_pr publisher q =
     (case publisher q of
        Inl exc \<Rightarrow> no_update\<lparr>up_phase := Some Ph_FAILED,
          up_error_log := Some [''PR publish failed: '' @ exn_repr exc]\<rparr>
      | Inr r \<Rightarrow> no_update\<lparr>up_phase := Some Ph_DONE, up_pr_url := Some (pp_url r),
          up_pr_branch_name := Some (pp_branch_name r)\<rparr>)"

definition pr_publish_node ::
  "pr_publisher \<Rightarrow> graph_state \<Rightarrow> state_update result \<times> publish_request list" where
  "pr_publish_node publisher s =
     (case need ''config'' (gs_config s) of
        Inl e \<Rightarrow> (Inl e, [])
      | Inr config \<Rightarrow>
         (case gs_pr_draft s of
            None \<Rightarrow> (Inr no_update, [])
          | Some draft \<Rightarrow>
              if \<not> truthy (rc_github_target_repo config)
              then (Inr (no_update\<lparr>up_phase := Some Ph_DONE, up_error_log := Some
                     [''No github_target_repo configured '' @ em_dash @ '' migration complete, PR not opened.'']\<rparr>), [])
              else if needs_human_approval s \<and> gs_approval_status s \<noteq> Some ''approved''
              then (Inr (no_update\<lparr>up_phase := Some Ph_FAILED, up_error_log := Some
                     [''Refusing to publish: human approval is required but was not recorded.'']\<rparr>), [])
              else case rc_github_target_repo config of
                None \<Rightarrow> (Inl (KeyError ''github_target_repo''), [])
              | Some repo \<Rightarrow>
                  let q = publish_request_of s config repo draft
                  in (Inr (publish_approved_pr publisher q), [q])))"

section \<open>What reaches the API\<close>

lemma check_files_Inr: "check_files fs = Inr us \<Longrightarrow> \<forall>f \<in> set fs. publishable_path_problem (fd_path f) = None"
  unfolding check_files_def by (auto dest!: try_map_Inr_mem split: option.splits)

lemma check_files_ok: "(\<exists>us. check_files fs = Inr us) \<longleftrightarrow> (\<forall>f \<in> set fs. publishable_path_problem (fd_path f) = None)"
proof
  assume "\<forall>f \<in> set fs. publishable_path_problem (fd_path f) = None"
  then have "check_files fs = Inr (map (\<lambda>_. ()) fs)"
    unfolding check_files_def try_map_Inr by (auto simp: list_all2_map2 intro: list.rel_refl_strong)
  then show "\<exists>us. check_files fs = Inr us" ..
qed (auto dest: check_files_Inr)

text \<open>The seven calls of a publication, and what it means that only some of them happen.\<close>

definition publish_script :: "api_reply \<Rightarrow> publish_request \<Rightarrow> github_call list" where
  "publish_script api q =
     (let sha = (\<lambda>r. case r of Inl _ \<Rightarrow> '''' | Inr v \<Rightarrow> v)
      in [Get_Repo (pq_repo_full_name q), Get_Git_Ref (''heads/'' @ pq_base_branch q),
          Get_Git_Commit (sha (ay_get_git_ref api)),
          Create_Git_Tree (tree_elements (pq_files q)) (sha (ay_get_git_commit api)),
          Create_Git_Commit (pq_commit_message q) (sha (ay_create_git_tree api)) (sha (ay_get_git_ref api)),
          Create_Git_Ref (''refs/heads/'' @ pq_branch_name q) (sha (ay_create_git_commit api)),
          Create_Pull (pq_pr_title q) (pq_pr_body q) (pq_branch_name q) (pq_base_branch q)])"

lemma github_publish_prefix: "prefix (snd (github_publish token api q)) (publish_script api q)"
  by (auto simp: github_publish_def api_call_def publish_script_def Let_def split: sum.split)

lemma github_publish_Inr:
  assumes "github_publish token api q = (Inr pr, calls)"
  shows "calls = publish_script api q" "pp_branch_name pr = pq_branch_name q" "truthy token"
    "\<forall>f \<in> set (pq_files q). publishable_path_problem (fd_path f) = None"
  using assms
  by (auto simp: github_publish_def api_call_def publish_script_def Let_def
      split: sum.splits if_splits dest: check_files_Inr)

lemma github_publish_unsafe:
  assumes "f \<in> set (pq_files q)" "publishable_path_problem (fd_path f) \<noteq> None"
  shows "snd (github_publish token api q) = []" "\<exists>m. fst (github_publish token api q) = Inl (UnpublishablePathError m)"
proof -
  obtain e where e: "check_files (pq_files q) = Inl e"
    using assms check_files_Inr by (cases "check_files (pq_files q)") auto
  then show "snd (github_publish token api q) = []" by (simp add: github_publish_def)
  have "\<exists>m. e = UnpublishablePathError m"
    using e unfolding check_files_def try_map_Inl by (auto split: option.splits)
  with e show "\<exists>m. fst (github_publish token api q) = Inl (UnpublishablePathError m)"
    by (auto simp: github_publish_def)
qed

section \<open>When the node publishes\<close>

lemma publish_node_cases [consumes 1, case_names none published]:
  assumes "pr_publish_node publisher s = (Inr u, qs)"
  obtains "qs = []" "up_pr_url u = None" "up_phase u \<noteq> Some Ph_DONE \<or>
      (\<exists>config. gs_config s = Some config \<and> \<not> truthy (rc_github_target_repo config))"
    | config repo draft where "gs_config s = Some config" "rc_github_target_repo config = Some repo" "repo \<noteq> ''''"
      "gs_pr_draft s = Some draft" "needs_human_approval s \<longrightarrow> gs_approval_status s = Some ''approved''"
      "qs = [publish_request_of s config repo draft]"
      "u = publish_approved_pr publisher (publish_request_of s config repo draft)"
proof (cases "gs_config s")
  case None
  with assms show ?thesis by (simp add: pr_publish_node_def)
next
  case c: (Some config)
  note node = assms [unfolded pr_publish_node_def c need_simps(2) sum.case]
  show ?thesis
  proof (cases "gs_pr_draft s")
    case None
    with node show ?thesis by (intro that(1)) (auto simp: no_update_def)
  next
    case d: (Some draft)
    show ?thesis
    proof (cases "truthy (rc_github_target_repo config) \<and>
        (needs_human_approval s \<longrightarrow> gs_approval_status s = Some ''approved'')")
      case True
      then obtain repo where r: "rc_github_target_repo config = Some repo" "repo \<noteq> ''''"
        by (auto simp: truthy_def)
      show ?thesis
        using node True by (intro that(2) [OF c r d]) (auto simp: d r(1) Let_def)
    next
      case False
      with node c show ?thesis by (intro that(1)) (auto simp: d no_update_def split: if_splits)
    qed
  qed
qed

definition publish_frame :: "state_update \<Rightarrow> bool" where
  "publish_frame u \<longleftrightarrow> up_tasks u = None \<and> up_editor_results u = None \<and> up_budget u = None \<and>
     up_budget_deltas u = None \<and> up_budget_deltas_consumed u = None \<and> up_pr_draft u = None \<and>
     up_full_suite_result u = None \<and> up_retry_round u = None \<and> up_approval_status u = None \<and>
     up_aggregated_diff_paths u = None \<and> up_comprehension u = None \<and> up_test_results u = None"

lemma publish_node_frame: "pr_publish_node publisher s = (Inr u, qs) \<Longrightarrow> publish_frame u"
  unfolding pr_publish_node_def publish_approved_pr_def
  by (auto simp: publish_frame_def no_update_def Let_def split: sum.splits option.splits if_splits)

end
