(* ===== verification/Pipeline.thy ===== *)
theory Pipeline
  imports Synthesis Comprehension Editor Budget_Nodes Error_Analysis Sandbox_Node Approval Publish
begin

text \<open>
  \<open>app/graph/build.py\<close>: the nodes and edges of the graph, and its runs as a step relation. A run is the
  control point, the graph state, the file system and a log of what happened to the outside world.
  The collaborators (model calls, sandbox, publisher, clock, human) are chosen freely at every step.

  LangGraph itself is not under \<open>src/\<close>. What the graph relies on is written into the relation:
  a node's dictionary is merged by the declared reducers; a router's name is looked up in the map of
  its edge and a list of \<open>Send\<close>s starts one branch each, whose updates are merged in some order
  before the successor of \<open>editor\<close> runs once; no successor ends the run; \<open>interrupt\<close> pauses before the
  gate's update and the resumed node starts over; an exception ends the run.
\<close>

section \<open>Nodes and edges\<close>

datatype node =
    N_comprehension | N_synthesis | N_budget_reconcile | N_sandbox_test | N_error_analysis
  | N_aggregate | N_request_approval | N_approval_gate | N_pr_publish | N_budget_abort

datatype control =
    At node
  | Fanout "graph_state list" \<comment> \<open>pending \<open>Send("editor", \<dots>)\<close>\<close>
  | Waiting_Approval
  | Finished
  | Crashed py_exn

definition follow :: "(string \<times> control) list \<Rightarrow> string \<Rightarrow> control result" where
  "follow targets name = need name (map_of targets name)"

definition dispatch :: "(string \<times> control) list \<Rightarrow> route result \<Rightarrow> control result" where
  "dispatch targets r = (case r of
     Inl e \<Rightarrow> Inl e
   | Inr (Route name) \<Rightarrow> follow targets name
   | Inr (Sends sends) \<Rightarrow> Inr (if sends = [] then Finished else Fanout sends))"

fun next_of :: "node \<Rightarrow> graph_state \<Rightarrow> rat \<Rightarrow> rat \<Rightarrow> control result" where
  "next_of N_comprehension s now1 now2 =
     follow [(CONTINUE, At N_synthesis), (BUDGET_EXHAUSTED, At N_budget_abort)] (route_after_comprehension s)"
| "next_of N_synthesis s now1 now2 =
     dispatch [(NO_READY_TASKS, At N_sandbox_test), (BUDGET_EXHAUSTED, At N_budget_abort)] (route_to_editors s now1 now2)"
| "next_of N_budget_reconcile s now1 now2 =
     dispatch [(NO_READY_TASKS, At N_sandbox_test), (BUDGET_EXHAUSTED, At N_budget_abort)] (route_to_editors s now1 now2)"
| "next_of N_sandbox_test s now1 now2 =
     follow [(SANDBOX_PASSED, At N_aggregate), (SANDBOX_NEEDS_ANALYSIS, At N_error_analysis)] (route_after_sandbox s)"
| "next_of N_error_analysis s now1 now2 =
     dispatch [(NO_READY_TASKS, Finished), (BUDGET_EXHAUSTED, At N_budget_abort)] (route_to_editors s now1 now2)"
| "next_of N_aggregate s now1 now2 =
     follow [(APPROVAL_REQUIRED, At N_request_approval), (PUBLISH, At N_pr_publish), (FINISH, Finished)]
       (route_after_aggregate s)"
| "next_of N_request_approval s now1 now2 = Inr (At N_approval_gate)"
| "next_of N_approval_gate s now1 now2 =
     follow [(APPROVED, At N_pr_publish), (REJECTED, Finished)] (route_after_approval s)"
| "next_of N_pr_publish s now1 now2 = Inr Finished"
| "next_of N_budget_abort s now1 now2 = Inr Finished"

section \<open>Runs\<close>

datatype event =
    Ev_Cost rat bool \<comment> \<open>a model call to be charged; may it raise the per-call estimate?\<close>
  | Ev_Dispatch "string list" \<comment> \<open>task identifiers of a wave\<close>
  | Ev_Suite "file_diff list" test_result
  | Ev_Analysis
  | Ev_Interrupt approval_payload
  | Ev_Decision decision
  | Ev_Publish publish_request

record run =
  rn_control :: control
  rn_state :: graph_state
  rn_files :: fs
  rn_log :: "event list"

text \<open>What the two nodes that call a model outside the fanout cost.\<close>

definition comprehension_costs ::
  "dir_tree \<Rightarrow> (nat \<Rightarrow> string \<Rightarrow> extraction_response result) \<Rightarrow> rat \<Rightarrow> graph_state \<Rightarrow> event list" where
  "comprehension_costs tree extractor now s =
     (case (gs_config s, gs_budget s) of
        (Some config, Some budget) \<Rightarrow>
          if is_exhausted budget now then []
          else (case run_comprehension tree extractor (rc_local_checkout_path config) (rc_scope_description config)
                  (rc_source_stack config) (remaining_usd budget) None of
                  Inr (result, cost, errs, calls) \<Rightarrow> [Ev_Cost cost False] | Inl e \<Rightarrow> [])
      | _ \<Rightarrow> [])"

definition analysis_costs ::
  "(string \<Rightarrow> error_analysis_response result) \<Rightarrow> rat \<Rightarrow> graph_state \<Rightarrow> event list" where
  "analysis_costs analyzer now s =
     (case (gs_budget s, gs_full_suite_result s) of
        (Some budget, Some test_result) \<Rightarrow>
          if candidate_tasks s = [] \<or> is_exhausted budget now then []
          else (case analyzer (build_analysis_prompt test_result (candidate_tasks s) (gs_editor_results s)) of
                  Inr response \<Rightarrow> [Ev_Cost (lr_cost_usd response) True] | Inl e \<Rightarrow> [])
      | _ \<Rightarrow> [])"

inductive node_step :: "node \<Rightarrow> graph_state \<Rightarrow> fs \<Rightarrow> state_update \<Rightarrow> fs \<Rightarrow> event list \<Rightarrow> bool" where
  comprehension: "comprehension_node tree extractor now s = Inr u \<Longrightarrow>
    node_step N_comprehension s f u f (comprehension_costs tree extractor now s)"
| synthesis: "synthesis_node s = Inr u \<Longrightarrow> node_step N_synthesis s f u f []"
| reconcile: "budget_reconcile_node s = Inr u \<Longrightarrow> node_step N_budget_reconcile s f u f []"
| sandbox: "sandbox_test_node realpath runner s f = (Inr u, f') \<Longrightarrow>
    node_step N_sandbox_test s f u f'
      (case up_full_suite_result u of None \<Rightarrow> [] | Some r \<Rightarrow> [Ev_Suite (effective_of s) r])"
| analysis: "error_analysis_node analyzer now s = Inr u \<Longrightarrow>
    node_step N_error_analysis s f u f (Ev_Analysis # analysis_costs analyzer now s)"
| aggregate: "aggregate_node s = Inr u \<Longrightarrow> node_step N_aggregate s f u f []"
| request: "request_approval_node s = Inr u \<Longrightarrow> node_step N_request_approval s f u f []"
| gate: "approval_gate_node d s = Inr u \<Longrightarrow> node_step N_approval_gate s f u f [Ev_Decision d]"
| publish: "pr_publish_node publisher s = (Inr u, qs) \<Longrightarrow> node_step N_pr_publish s f u f (map Ev_Publish qs)"
| abort: "budget_abort_node now s = Inr u \<Longrightarrow> node_step N_budget_abort s f u f []"

inductive node_raises :: "node \<Rightarrow> graph_state \<Rightarrow> fs \<Rightarrow> py_exn \<Rightarrow> bool" where
  "comprehension_node tree extractor now s = Inl e \<Longrightarrow> node_raises N_comprehension s f e"
| "synthesis_node s = Inl e \<Longrightarrow> node_raises N_synthesis s f e"
| "budget_reconcile_node s = Inl e \<Longrightarrow> node_raises N_budget_reconcile s f e"
| "sandbox_test_node realpath runner s f = (Inl e, f') \<Longrightarrow> node_raises N_sandbox_test s f e"
| "error_analysis_node analyzer now s = Inl e \<Longrightarrow> node_raises N_error_analysis s f e"
| "aggregate_node s = Inl e \<Longrightarrow> node_raises N_aggregate s f e"
| "request_approval_node s = Inl e \<Longrightarrow> node_raises N_request_approval s f e"
| "approval_gate_node d s = Inl e \<Longrightarrow> node_raises N_approval_gate s f e"
| "fst (pr_publish_node publisher s) = Inl e \<Longrightarrow> node_raises N_pr_publish s f e"
| "budget_abort_node now s = Inl e \<Longrightarrow> node_raises N_budget_abort s f e"

definition branch :: "graph_state \<Rightarrow> state_update \<Rightarrow> bool" where
  "branch a u \<longleftrightarrow> (\<exists>generator now1 now2 produced. editor_node generator now1 now2 produced a = Inr u)"

definition merge_updates :: "graph_state \<Rightarrow> state_update list \<Rightarrow> graph_state" where
  "merge_updates s us = foldl apply_update s us"

definition update_costs :: "state_update \<Rightarrow> rat list" where
  "update_costs u = (case up_budget_deltas u of None \<Rightarrow> [] | Some ds \<Rightarrow> ds)"

text \<open>The identifier of the task a branch works on.\<close>

definition send_id :: "graph_state \<Rightarrow> string" where
  "send_id a = (case gs_current_task a of None \<Rightarrow> '''' | Some t \<Rightarrow> mt_id t)"

inductive step :: "run \<Rightarrow> run \<Rightarrow> bool" where
  node: "rn_control r = At n \<Longrightarrow> n \<noteq> N_approval_gate \<Longrightarrow>
    node_step n (rn_state r) (rn_files r) u f' evs \<Longrightarrow>
    next_of n (apply_update (rn_state r) u) now1 now2 = Inr c \<Longrightarrow>
    step r \<lparr>rn_control = c, rn_state = apply_update (rn_state r) u, rn_files = f', rn_log = rn_log r @ evs\<rparr>"
| wave: "rn_control r = Fanout sends \<Longrightarrow> list_all2 branch sends us \<Longrightarrow> mset us' = mset us \<Longrightarrow>
    step r \<lparr>rn_control = At N_budget_reconcile, rn_state = merge_updates (rn_state r) us', rn_files = rn_files r,
      rn_log = rn_log r @ Ev_Dispatch (map send_id sends) #
        map (\<lambda>c. Ev_Cost c True) (concat (map update_costs us'))\<rparr>"
| pause: "rn_control r = At N_approval_gate \<Longrightarrow> approval_request (rn_state r) = Inr p \<Longrightarrow>
    step r (r\<lparr>rn_control := Waiting_Approval, rn_log := rn_log r @ [Ev_Interrupt p]\<rparr>)"
| resume: "rn_control r = Waiting_Approval \<Longrightarrow>
    node_step N_approval_gate (rn_state r) (rn_files r) u f' evs \<Longrightarrow>
    next_of N_approval_gate (apply_update (rn_state r) u) now1 now2 = Inr c \<Longrightarrow>
    step r \<lparr>rn_control = c, rn_state = apply_update (rn_state r) u, rn_files = f', rn_log = rn_log r @ evs\<rparr>"
| crash_node: "rn_control r = At n \<Longrightarrow> node_raises n (rn_state r) (rn_files r) e \<Longrightarrow>
    step r (r\<lparr>rn_control := Crashed e\<rparr>)"
| crash_route: "rn_control r = At n \<Longrightarrow> n \<noteq> N_approval_gate \<Longrightarrow>
    node_step n (rn_state r) (rn_files r) u f' evs \<Longrightarrow>
    next_of n (apply_update (rn_state r) u) now1 now2 = Inl e \<Longrightarrow>
    step r \<lparr>rn_control = Crashed e, rn_state = apply_update (rn_state r) u, rn_files = f', rn_log = rn_log r @ evs\<rparr>"
| crash_branch: "rn_control r = Fanout sends \<Longrightarrow> a \<in> set sends \<Longrightarrow>
    editor_node generator now1 now2 produced a = Inl e \<Longrightarrow>
    step r (r\<lparr>rn_control := Crashed e\<rparr>)"
| crash_resume: "rn_control r = Waiting_Approval \<Longrightarrow> node_raises N_approval_gate (rn_state r) (rn_files r) e \<Longrightarrow>
    step r (r\<lparr>rn_control := Crashed e\<rparr>)"

abbreviation steps :: "run \<Rightarrow> run \<Rightarrow> bool" where
  "steps \<equiv> step\<^sup>*\<^sup>*"

text \<open>A fresh run: the keys that \<open>_run_migration_async\<close> supplies, nothing else.\<close>

definition fresh_state :: "run_config \<Rightarrow> budget_state \<Rightarrow> int option \<Rightarrow> graph_state" where
  "fresh_state config budget max_retry_rounds =
     empty_state\<lparr>gs_config := Some config, gs_budget := Some budget, gs_max_retry_rounds := max_retry_rounds\<rparr>"

definition start_run :: "run_config \<Rightarrow> budget_state \<Rightarrow> int option \<Rightarrow> fs \<Rightarrow> run" where
  "start_run config budget max_retry_rounds f =
     \<lparr>rn_control = At N_comprehension, rn_state = fresh_state config budget max_retry_rounds, rn_files = f, rn_log = []\<rparr>"

inductive_cases node_step_comprehension: "node_step N_comprehension s f u f' evs"
inductive_cases node_step_synthesis: "node_step N_synthesis s f u f' evs"
inductive_cases node_step_reconcile: "node_step N_budget_reconcile s f u f' evs"
inductive_cases node_step_sandbox: "node_step N_sandbox_test s f u f' evs"
inductive_cases node_step_analysis: "node_step N_error_analysis s f u f' evs"
inductive_cases node_step_aggregate: "node_step N_aggregate s f u f' evs"
inductive_cases node_step_request: "node_step N_request_approval s f u f' evs"
inductive_cases node_step_gate: "node_step N_approval_gate s f u f' evs"
inductive_cases node_step_publish: "node_step N_pr_publish s f u f' evs"
inductive_cases node_step_abort: "node_step N_budget_abort s f u f' evs"

lemmas node_step_elims = node_step_comprehension node_step_synthesis node_step_reconcile node_step_sandbox
  node_step_analysis node_step_aggregate node_step_request node_step_gate node_step_publish node_step_abort

section \<open>What a node may touch\<close>

lemma apply_update_simps [simp]:
  "gs_config (apply_update s u) = gs_config s"
  "gs_current_task (apply_update s u) = gs_current_task s"
  "gs_max_retry_rounds (apply_update s u) = gs_max_retry_rounds s"
  "gs_phase (apply_update s u) = overwrite_opt (gs_phase s) (up_phase u)"
  "gs_comprehension (apply_update s u) = overwrite_opt (gs_comprehension s) (up_comprehension u)"
  "gs_tasks (apply_update s u) = reduce_with merge_task_lists (gs_tasks s) (up_tasks u)"
  "gs_editor_results (apply_update s u) = reduce_with (@) (gs_editor_results s) (up_editor_results u)"
  "gs_budget_deltas (apply_update s u) = reduce_with (@) (gs_budget_deltas s) (up_budget_deltas u)"
  "gs_budget_deltas_consumed (apply_update s u) = overwrite (gs_budget_deltas_consumed s) (up_budget_deltas_consumed u)"
  "gs_aggregated_diff_paths (apply_update s u) = overwrite (gs_aggregated_diff_paths s) (up_aggregated_diff_paths u)"
  "gs_full_suite_result (apply_update s u) = overwrite_opt (gs_full_suite_result s) (up_full_suite_result u)"
  "gs_pr_draft (apply_update s u) = overwrite_opt (gs_pr_draft s) (up_pr_draft u)"
  "gs_pr_url (apply_update s u) = overwrite_opt (gs_pr_url s) (up_pr_url u)"
  "gs_approval_status (apply_update s u) = overwrite_opt (gs_approval_status s) (up_approval_status u)"
  "gs_budget (apply_update s u) = overwrite_opt (gs_budget s) (up_budget u)"
  "gs_retry_round (apply_update s u) = overwrite (gs_retry_round s) (up_retry_round u)"
  by (simp_all add: apply_update_def)

definition node_frame :: "node \<Rightarrow> graph_state \<Rightarrow> state_update \<Rightarrow> bool" where
  "node_frame n s u \<longleftrightarrow> up_editor_results u = None \<and> up_budget_deltas u = None \<and>
     (n \<notin> {N_synthesis, N_error_analysis, N_budget_abort} \<longrightarrow> up_tasks u = None) \<and>
     (n \<notin> {N_comprehension, N_budget_reconcile, N_error_analysis} \<longrightarrow> up_budget u = None) \<and>
     (n \<noteq> N_budget_reconcile \<longrightarrow> up_budget_deltas_consumed u = None) \<and>
     (n \<noteq> N_aggregate \<longrightarrow> up_pr_draft u = None \<and> up_aggregated_diff_paths u = None) \<and>
     (n \<noteq> N_approval_gate \<longrightarrow> up_approval_status u = None) \<and>
     (n \<noteq> N_sandbox_test \<longrightarrow> up_full_suite_result u = None) \<and>
     (n \<noteq> N_pr_publish \<longrightarrow> up_pr_url u = None) \<and>
     up_retry_round u = (if n = N_error_analysis then Some (gs_retry_round s + 1) else None)"

lemma small_frames:
  "comprehension_node tree extractor now s = Inr u \<Longrightarrow> node_frame N_comprehension s u"
  "synthesis_node s = Inr u \<Longrightarrow> node_frame N_synthesis s u"
  "budget_reconcile_node s = Inr u \<Longrightarrow> node_frame N_budget_reconcile s u"
  "budget_abort_node now s = Inr u \<Longrightarrow> node_frame N_budget_abort s u"
  by (auto simp: node_frame_def comprehension_node_def synthesis_node_def budget_reconcile_node_def
      budget_abort_node_def no_update_def Let_def split: if_splits option.splits)

lemma node_step_frame: "node_step n s f u f' evs \<Longrightarrow> node_frame n s u"
proof (induction rule: node_step.induct)
  case (sandbox realpath runner s f u f')
  from sandbox_node_frame [OF this] show ?case by (simp add: node_frame_def sandbox_frame_def)
next
  case (analysis analyzer now s u f)
  from error_analysis_frame [OF this] show ?case by (simp add: node_frame_def analysis_frame_def)
next
  case (aggregate s u f)
  from aggregate_node_frame [OF this] show ?case by (simp add: node_frame_def aggregate_frame_def)
next
  case (request s u f)
  from approval_frames(1) [OF this] show ?case by (simp add: node_frame_def approval_frame_def)
next
  case (gate d s u f)
  from approval_frames(2) [OF this] show ?case by (simp add: node_frame_def approval_frame_def)
next
  case (publish publisher s u qs f)
  from publish_node_frame [OF this] show ?case by (simp add: node_frame_def publish_frame_def)
qed (auto intro: small_frames)

text \<open>The events of a node.\<close>

lemma node_step_events:
  assumes "node_step n s f u f' evs"
  shows "n \<noteq> N_sandbox_test \<Longrightarrow> Ev_Suite ds r \<notin> set evs" "n \<noteq> N_approval_gate \<Longrightarrow> Ev_Decision d \<notin> set evs"
    "n \<noteq> N_pr_publish \<Longrightarrow> Ev_Publish q \<notin> set evs" "Ev_Dispatch ids \<notin> set evs"
    "n \<noteq> N_error_analysis \<Longrightarrow> Ev_Analysis \<notin> set evs"
    "n \<noteq> N_sandbox_test \<Longrightarrow> f' = f"
  using assms
  by (auto elim!: node_step.cases
      simp: comprehension_costs_def analysis_costs_def split: option.splits if_splits sum.splits prod.splits)

section \<open>The branches of a wave\<close>

definition branch_frame :: "state_update \<Rightarrow> bool" where
  "branch_frame u \<longleftrightarrow> up_phase u = None \<and> up_comprehension u = None \<and> up_test_results u = None \<and>
     up_budget_deltas_consumed u = None \<and> up_aggregated_diff_paths u = None \<and> up_full_suite_result u = None \<and>
     up_pr_draft u = None \<and> up_pr_url u = None \<and> up_pr_branch_name u = None \<and> up_approval_status u = None \<and>
     up_budget u = None \<and> up_retry_round u = None"

lemma branch_frame: "branch a u \<Longrightarrow> branch_frame u"
  unfolding branch_def branch_frame_def by (elim exE) (simp add: editor_node_frame)

lemma branches_frame: "list_all2 branch sends us \<Longrightarrow> mset us' = mset us \<Longrightarrow> \<forall>u \<in> set us'. branch_frame u"
  using branch_frame by (auto simp: list_all2_conv_all_nth in_set_conv_nth dest!: mset_eq_setD) (metis nth_mem)

definition update_tasks :: "state_update \<Rightarrow> migration_task list" where
  "update_tasks u = (case up_tasks u of None \<Rightarrow> [] | Some ts \<Rightarrow> ts)"

definition update_results :: "state_update \<Rightarrow> editor_result list" where
  "update_results u = (case up_editor_results u of None \<Rightarrow> [] | Some rs \<Rightarrow> rs)"

lemma reduce_as_lists:
  "reduce_with (@) xs v = xs @ (case v of None \<Rightarrow> [] | Some ys \<Rightarrow> ys)"
  by (cases v) simp_all

text \<open>
  What a wave leaves: only three channels change, the lists grow by the branches' contributions and
  the tasks are merged once with all of them.
\<close>

lemma merge_updates_frame:
  assumes "\<forall>u \<in> set us. branch_frame u"
  shows "gs_config (merge_updates s us) = gs_config s" "gs_budget (merge_updates s us) = gs_budget s"
    "gs_budget_deltas_consumed (merge_updates s us) = gs_budget_deltas_consumed s"
    "gs_pr_draft (merge_updates s us) = gs_pr_draft s" "gs_full_suite_result (merge_updates s us) = gs_full_suite_result s"
    "gs_approval_status (merge_updates s us) = gs_approval_status s" "gs_retry_round (merge_updates s us) = gs_retry_round s"
    "gs_pr_url (merge_updates s us) = gs_pr_url s" "gs_max_retry_rounds (merge_updates s us) = gs_max_retry_rounds s"
    "gs_budget_deltas (merge_updates s us) = gs_budget_deltas s @ concat (map update_costs us)"
    "gs_editor_results (merge_updates s us) = gs_editor_results s @ concat (map update_results us)"
  using assms
  by (induction us arbitrary: s)
    (simp_all add: merge_updates_def branch_frame_def reduce_as_lists update_costs_def update_results_def)

lemma merge_updates_tasks:
  assumes "distinct (map mt_id (gs_tasks s))"
  shows "gs_tasks (merge_updates s us) = merge_task_lists (gs_tasks s) (concat (map update_tasks us))"
  using assms
proof (induction us arbitrary: s)
  case Nil
  then show ?case by (simp add: merge_updates_def merge_nil)
next
  case (Cons u us)
  have t: "gs_tasks (apply_update s u) = merge_task_lists (gs_tasks s) (update_tasks u)"
    using Cons.prems by (cases "up_tasks u") (simp_all add: update_tasks_def merge_nil)
  have d: "distinct (map mt_id (gs_tasks (apply_update s u)))"
    unfolding t by (rule distinct_merge)
  have "gs_tasks (merge_updates s (u # us)) = gs_tasks (merge_updates (apply_update s u) us)"
    by (simp add: merge_updates_def)
  also have "\<dots> = merge_task_lists (gs_tasks s) (concat (map update_tasks (u # us)))"
    unfolding Cons.IH [OF d] t by (simp add: merge_append)
  finally show ?case .
qed

end
