(* ===== verification/Pipeline_Tasks.thy ===== *)
theory Pipeline_Tasks
  imports Pipeline
begin

text \<open>
  How the task list evolves along a run: synthesis creates it, and after that every step replaces
  tasks in place. The invariants: task identifiers stay distinct, a task that may still be
  dispatched is within its retry cap, a pending fanout holds ready tasks of the current state.
\<close>

section \<open>In-place updates\<close>

lemma merge_in_place:
  assumes "distinct (map mt_id ts)"
    and "\<And>x. x \<in> set xs \<Longrightarrow> \<exists>t \<in> set ts. R t x \<and> mt_id x = mt_id t"
  obtains f where "merge_task_lists ts xs = map f ts"
    "\<And>t. t \<in> set ts \<Longrightarrow> if mt_id t \<in> mt_id ` set xs then R t (f t) \<and> f t \<in> set xs \<and> mt_id (f t) = mt_id t else f t = t"
proof -
  let ?f = "\<lambda>t. case find_last (\<lambda>x. mt_id x = mt_id t) xs of Some x \<Rightarrow> x | None \<Rightarrow> t"
  have "mt_id ` set xs \<subseteq> mt_id ` set ts"
  proof
    fix i assume "i \<in> mt_id ` set xs"
    then obtain x where "x \<in> set xs" "i = mt_id x" by auto
    with assms(2) show "i \<in> mt_id ` set ts" by fastforce
  qed
  then have "merge_task_lists ts xs = map ?f ts"
    by (rule merge_known [OF assms(1)])
  moreover have "if mt_id t \<in> mt_id ` set xs then R t (?f t) \<and> ?f t \<in> set xs \<and> mt_id (?f t) = mt_id t else ?f t = t"
    if t: "t \<in> set ts" for t
  proof (cases "find_last (\<lambda>x. mt_id x = mt_id t) xs")
    case None
    then have "mt_id t \<notin> mt_id ` set xs" by (auto simp: find_last_None)
    with None show ?thesis by simp
  next
    case (Some x)
    then have x: "x \<in> set xs" "mt_id x = mt_id t" by (auto dest: find_last_SomeD)
    from assms(2) [OF x(1)] obtain t' where "t' \<in> set ts" "R t' x" "mt_id x = mt_id t'" by blast
    moreover from this x have "t' = t"
      using assms(1) t by (metis distinct_map inj_onD)
    moreover have "mt_id t \<in> mt_id ` set xs" using x by (metis imageI)
    ultimately show ?thesis using Some x by simp
  qed
  ultimately show ?thesis by (rule that)
qed

section \<open>The three kinds of change\<close>

definition active :: "migration_task \<Rightarrow> bool" where
  "active t \<longleftrightarrow> mt_status t = St_PENDING \<or> mt_status t = St_RETRYING"

definition same_task :: "migration_task \<Rightarrow> migration_task \<Rightarrow> bool" where
  "same_task t n \<longleftrightarrow> mt_id n = mt_id t \<and> mt_max_retries n = mt_max_retries t \<and>
     mt_depends_on_task_ids n = mt_depends_on_task_ids t"

definition edited :: "migration_task \<Rightarrow> migration_task \<Rightarrow> bool" where
  "edited t n \<longleftrightarrow> same_task t n \<and>
     (mt_status n = St_SKIPPED \<or> mt_status n = St_NEEDS_HUMAN \<or>
      mt_status n = St_RETRYING \<and> mt_retry_count n = mt_retry_count t + 1 \<and> mt_retry_count n \<le> mt_max_retries n \<or>
      mt_status n = St_SUCCEEDED \<and> mt_retry_count n = mt_retry_count t)"

definition judged :: "bool \<Rightarrow> migration_task \<Rightarrow> migration_task \<Rightarrow> bool" where
  "judged again t n \<longleftrightarrow> same_task t n \<and> mt_status t = St_SUCCEEDED \<and>
     (mt_status n = St_NEEDS_HUMAN \<or>
      mt_status n = St_RETRYING \<and> again \<and> mt_retry_count n = mt_retry_count t + 1 \<and> mt_retry_count n \<le> mt_max_retries n)"

definition dropped :: "migration_task \<Rightarrow> migration_task \<Rightarrow> bool" where
  "dropped t n \<longleftrightarrow> same_task t n \<and> mt_status n = St_SKIPPED"

lemma branch_task:
  assumes "branch a u"
  obtains t n where "gs_current_task a = Some t" "update_tasks u = [n]" "edited t n"
    "mt_status n = St_SUCCEEDED \<longleftrightarrow> update_results u \<noteq> []"
proof -
  obtain generator now1 now2 produced where e: "editor_node generator now1 now2 produced a = Inr u"
    using assms by (auto simp: branch_def)
  from e show ?thesis
  proof (cases rule: editor_node_cases)
    case (skipped task b)
    then show ?thesis
      by (intro that [of task "task\<lparr>mt_status := St_SKIPPED\<rparr>"])
        (simp_all add: update_tasks_def update_results_def edited_def same_task_def)
  next
    case (failed task b exc)
    let ?n = "task\<lparr>mt_status := (if mt_max_retries task < mt_retry_count task + 1 then St_NEEDS_HUMAN
        else St_RETRYING), mt_retry_count := mt_retry_count task + 1\<rparr>"
    have "edited task ?n" "mt_status ?n \<noteq> St_SUCCEEDED"
      by (cases "mt_max_retries task < mt_retry_count task + 1"; simp add: edited_def same_task_def)+
    with failed show ?thesis
      by (intro that [of task ?n]) (simp_all add: update_tasks_def update_results_def)
  next
    case (written task b response result er)
    then show ?thesis
      by (intro that [of task "task\<lparr>mt_status := St_SUCCEEDED\<rparr>"])
        (simp_all add: update_tasks_def update_results_def edited_def same_task_def)
  qed
qed

lemma list_all2_right: "list_all2 P xs ys \<Longrightarrow> y \<in> set ys \<Longrightarrow> \<exists>x \<in> set xs. P x y"
  by (induction rule: list_all2_induct) auto

lemma branches_tasks:
  assumes "list_all2 branch sends us" "map gs_current_task sends = map Some ts"
  shows "list_all2 edited ts (concat (map update_tasks us))"
  using assms
proof (induction sends us arbitrary: ts rule: list_all2_induct)
  case Nil
  then show ?case by simp
next
  case (Cons a sends u us)
  obtain t n where tn: "gs_current_task a = Some t" "update_tasks u = [n]" "edited t n"
    using branch_task [OF Cons(1)] by metis
  with Cons.prems obtain ts' where "ts = t # ts'" "map gs_current_task sends = map Some ts'"
    by (cases ts) auto
  with Cons.IH tn show ?case by simp
qed

lemma mset_concat_perm: "mset us' = mset us \<Longrightarrow> mset (concat (map f us')) = mset (concat (map f us))"
proof -
  have "mset (concat (map f us)) = \<Sum>\<^sub># (image_mset (\<lambda>u. mset (f u)) (mset us))" for us
    by (induction us) simp_all
  then show "mset us' = mset us \<Longrightarrow> mset (concat (map f us')) = mset (concat (map f us))" by simp
qed

lemma wave_tasks:
  assumes "distinct (map mt_id (gs_tasks s))" "set ts \<subseteq> set (gs_tasks s)"
    and "map gs_current_task sends = map Some ts" "list_all2 branch sends us" "mset us' = mset us"
  obtains f where "gs_tasks (merge_updates s us') = map f (gs_tasks s)"
    "\<And>t. t \<in> set (gs_tasks s) \<Longrightarrow> if t \<in> set ts then edited t (f t) else f t = t"
proof -
  let ?ns = "concat (map update_tasks us)" and ?ns' = "concat (map update_tasks us')"
  have all2: "list_all2 edited ts ?ns" by (rule branches_tasks [OF assms(4,3)])
  have sets: "set ?ns' = set ?ns"
    using mset_concat_perm [OF assms(5), of update_tasks] by (rule mset_eq_setD)
  have "map mt_id ?ns = map mt_id ts"
    using all2 by (induction rule: list_all2_induct) (auto simp: edited_def same_task_def)
  then have "mt_id ` set ?ns = mt_id ` set ts" by (metis set_map)
  then have ids: "mt_id ` set ?ns' = mt_id ` set ts" by (simp only: sets)
  have "\<exists>t \<in> set ts. edited t x" if "x \<in> set ?ns" for x
    using all2 that by (rule list_all2_right)
  then have "\<exists>t \<in> set (gs_tasks s). (t \<in> set ts \<and> edited t x) \<and> mt_id x = mt_id t" if "x \<in> set ?ns'" for x
    using that assms(2) unfolding sets by (auto simp: edited_def same_task_def)
  from merge_in_place [OF assms(1) this] obtain f where f: "merge_task_lists (gs_tasks s) ?ns' = map f (gs_tasks s)"
    "\<And>t. t \<in> set (gs_tasks s) \<Longrightarrow> if mt_id t \<in> mt_id ` set ?ns'
       then (t \<in> set ts \<and> edited t (f t)) \<and> f t \<in> set ?ns' \<and> mt_id (f t) = mt_id t else f t = t"
    by blast
  show ?thesis
  proof (rule that [of f])
    show "gs_tasks (merge_updates s us') = map f (gs_tasks s)"
      unfolding merge_updates_tasks [OF assms(1)] f(1) ..
    show "if t \<in> set ts then edited t (f t) else f t = t" if "t \<in> set (gs_tasks s)" for t
      using f(2) [OF that] ids by (cases "t \<in> set ts") (auto split: if_splits)
  qed
qed

lemma analysis_tasks_map:
  assumes "distinct (map mt_id (gs_tasks s))" "error_analysis_node analyzer now s = Inr u"
  obtains f where "gs_tasks (apply_update s u) = map f (gs_tasks s)"
    "\<And>t. t \<in> set (gs_tasks s) \<Longrightarrow> f t = t \<or> judged (gs_retry_round s + 1 < max_rounds s) t (f t)"
proof (cases "up_tasks u")
  case None
  then show ?thesis by (intro that [of "\<lambda>t. t"]) auto
next
  case (Some us)
  let ?R = "judged (gs_retry_round s + 1 < max_rounds s)"
  have "\<exists>t \<in> set (gs_tasks s). ?R t x \<and> mt_id x = mt_id t" if x: "x \<in> set us" for x
  proof -
    obtain c where "c \<in> set (candidate_tasks s)" "mt_id x = mt_id c" "mt_max_retries x = mt_max_retries c"
      "mt_depends_on_task_ids x = mt_depends_on_task_ids c"
      "mt_status x = St_NEEDS_HUMAN \<or> mt_status x = St_RETRYING \<and> mt_retry_count x = mt_retry_count c + 1 \<and>
       mt_retry_count x \<le> mt_max_retries x \<and> gs_retry_round s + 1 < max_rounds s"
      using assms(2) Some x by (rule error_analysis_tasks)
    then show ?thesis by (intro bexI [of _ c]) (auto simp: judged_def same_task_def candidate_tasks_def)
  qed
  from merge_in_place [OF assms(1) this] obtain f where f: "merge_task_lists (gs_tasks s) us = map f (gs_tasks s)"
    "\<And>t. t \<in> set (gs_tasks s) \<Longrightarrow> if mt_id t \<in> mt_id ` set us then ?R t (f t) \<and> f t \<in> set us \<and> mt_id (f t) = mt_id t
       else f t = t"
    by blast
  show ?thesis
  proof (rule that [of f])
    show "gs_tasks (apply_update s u) = map f (gs_tasks s)" by (simp add: Some f(1))
    show "f t = t \<or> ?R t (f t)" if "t \<in> set (gs_tasks s)" for t
      using f(2) [OF that] by (auto split: if_splits)
  qed
qed

lemma abort_tasks_map:
  assumes "distinct (map mt_id (gs_tasks s))" "budget_abort_node now s = Inr u"
  obtains f where "gs_tasks (apply_update s u) = map f (gs_tasks s)"
    "\<And>t. t \<in> set (gs_tasks s) \<Longrightarrow> if mt_status t \<in> set UNFINISHED then dropped t (f t) else f t = t"
proof -
  let ?sk = "map (\<lambda>t. t\<lparr>mt_status := St_SKIPPED\<rparr>) (filter (\<lambda>t. mt_status t \<in> set UNFINISHED) (gs_tasks s))"
  let ?R = "\<lambda>t x. mt_status t \<in> set UNFINISHED \<and> dropped t x"
  have "\<exists>t \<in> set (gs_tasks s). ?R t x \<and> mt_id x = mt_id t" if "x \<in> set ?sk" for x
    using that by (auto simp: dropped_def same_task_def)
  from merge_in_place [OF assms(1) this] obtain f where f: "merge_task_lists (gs_tasks s) ?sk = map f (gs_tasks s)"
    "\<And>t. t \<in> set (gs_tasks s) \<Longrightarrow> if mt_id t \<in> mt_id ` set ?sk then ?R t (f t) \<and> f t \<in> set ?sk \<and> mt_id (f t) = mt_id t
       else f t = t"
    by blast
  have up: "up_tasks u = (if ?sk = [] then None else Some ?sk)"
    using assms(2) by (auto simp: budget_abort_node_def no_update_def Let_def)
  show ?thesis
  proof (rule that [of f])
    show "gs_tasks (apply_update s u) = map f (gs_tasks s)"
      using f(1) assms(1) by (cases "?sk = []") (simp_all add: up merge_nil)
    show "if mt_status t \<in> set UNFINISHED then dropped t (f t) else f t = t" if t: "t \<in> set (gs_tasks s)" for t
    proof (cases "mt_status t \<in> set UNFINISHED")
      case True
      then have "mt_id t \<in> mt_id ` set ?sk" using t by (auto simp: image_iff)
      with f(2) [OF t] True show ?thesis by simp
    next
      case False
      with f(2) [OF t] show ?thesis by (auto split: if_splits)
    qed
  qed
qed

section \<open>Changes along a step\<close>

lemma synthesis_node_plan:
  assumes "synthesis_node s = Inr u" "up_tasks u = Some ts"
  obtains c config where "gs_comprehension s = Some c" "gs_config s = Some config" "rc_target_stack config = ''fastapi''"
    "run_synthesis c ''fastapi'' (Some fastapi_synthesis_adapter) = Inr ts"
proof -
  obtain c config where c: "gs_comprehension s = Some c" "gs_config s = Some config"
    and run: "run_synthesis c (rc_target_stack config) None = Inr ts"
    using assms by (auto simp: synthesis_node_def no_update_def split: option.splits if_splits)
  from run obtain a where "get_target_synthesis_adapter (rc_target_stack config) = Inr a"
    by (auto simp: run_synthesis_def)
  then have "rc_target_stack config = ''fastapi''" by (simp add: get_target_synthesis_adapter_Inr)
  with c run show ?thesis by (intro that) (simp_all add: run_synthesis_fastapi)
qed

lemma follow_no_fanout:
  "follow targets name = Inr c \<Longrightarrow> c \<in> snd ` set targets"
  by (auto simp: follow_def dest!: map_of_SomeD intro: rev_image_eqI)

lemma next_of_fanout:
  assumes "next_of n s now1 now2 = Inr (Fanout sends)"
  shows "n \<in> {N_synthesis, N_budget_reconcile, N_error_analysis}" "sends \<noteq> []"
    "\<exists>k. map gs_current_task sends = map Some (take k (get_ready_tasks (gs_tasks s)))"
    "route_to_editors s now1 now2 = Inr (Sends sends)"
proof -
  have r: "n \<in> {N_synthesis, N_budget_reconcile, N_error_analysis} \<and> sends \<noteq> [] \<and>
      route_to_editors s now1 now2 = Inr (Sends sends)"
    using assms by (cases n) (auto simp: dispatch_def dest!: follow_no_fanout split: sum.splits route.splits if_splits)
  then show "n \<in> {N_synthesis, N_budget_reconcile, N_error_analysis}" "sends \<noteq> []"
    "route_to_editors s now1 now2 = Inr (Sends sends)" by auto
  then show "\<exists>k. map gs_current_task sends = map Some (take k (get_ready_tasks (gs_tasks s)))"
    by (intro route_sends_prefix)
qed

definition fanout_ok :: "run \<Rightarrow> bool" where
  "fanout_ok r \<longleftrightarrow> (\<forall>sends. rn_control r = Fanout sends \<longrightarrow> sends \<noteq> [] \<and>
     (\<exists>k. map gs_current_task sends = map Some (take k (get_ready_tasks (gs_tasks (rn_state r))))))"

lemma step_fanout_ok: "step r r' \<Longrightarrow> fanout_ok r'"
proof (induction rule: step.induct)
  case (node r n u f' evs now1 now2 c)
  show ?case
    unfolding fanout_ok_def run.select_convs using node(4) next_of_fanout(2,3) by blast
next
  case (resume r u f' evs now1 now2 c)
  have "c \<noteq> Fanout sends" for sends
    using resume(3) next_of_fanout(1) [of N_approval_gate] by blast
  then show ?case by (simp add: fanout_ok_def)
qed (auto simp: fanout_ok_def)

definition tasks_distinct :: "run \<Rightarrow> bool" where
  "tasks_distinct r \<longleftrightarrow> distinct (map mt_id (gs_tasks (rn_state r)))"

lemma node_step_tasks:
  assumes "node_step n s f u f' evs" "n \<notin> {N_synthesis, N_error_analysis, N_budget_abort}"
  shows "gs_tasks (apply_update s u) = gs_tasks s"
  using node_step_frame [OF assms(1)] assms(2) by (simp add: node_frame_def)

lemma ready_active: "t \<in> set (get_ready_tasks ts) \<Longrightarrow> t \<in> set ts \<and> active t"
  by (auto simp: get_ready_tasks_def is_ready_def active_def)

lemma send_ids: "map gs_current_task sends = map Some ts \<Longrightarrow> map send_id sends = map mt_id ts"
  by (induction sends arbitrary: ts) (auto simp: send_id_def)

text \<open>Every way a step can change the task list.\<close>

lemma step_tasks [consumes 3, case_names same planned wave analysis abort]:
  assumes "step r r'" "tasks_distinct r" "fanout_ok r"
  obtains "gs_tasks (rn_state r') = gs_tasks (rn_state r)"
      "(\<exists>sends. rn_control r = Fanout sends) \<Longrightarrow> \<exists>e. rn_control r' = Crashed e"
    | c ts where "rn_control r = At N_synthesis" "gs_comprehension (rn_state r) = Some c"
      "run_synthesis c ''fastapi'' (Some fastapi_synthesis_adapter) = Inr ts"
      "gs_tasks (rn_state r') = merge_task_lists (gs_tasks (rn_state r)) ts"
    | sends ts g where "rn_control r = Fanout sends" "rn_control r' = At N_budget_reconcile" "ts \<noteq> []"
      "set ts \<subseteq> set (get_ready_tasks (gs_tasks (rn_state r)))" "distinct (map mt_id ts)"
      "\<exists>costs. rn_log r' = rn_log r @ Ev_Dispatch (map mt_id ts) # map (\<lambda>c. Ev_Cost c True) costs"
      "gs_tasks (rn_state r') = map g (gs_tasks (rn_state r))"
      "\<And>t. t \<in> set (gs_tasks (rn_state r)) \<Longrightarrow> if t \<in> set ts then edited t (g t) else g t = t"
    | g where "rn_control r = At N_error_analysis" "gs_tasks (rn_state r') = map g (gs_tasks (rn_state r))"
      "\<And>t. t \<in> set (gs_tasks (rn_state r)) \<Longrightarrow>
         g t = t \<or> judged (gs_retry_round (rn_state r) + 1 < max_rounds (rn_state r)) t (g t)"
    | g where "rn_control r = At N_budget_abort" "gs_tasks (rn_state r') = map g (gs_tasks (rn_state r))"
      "\<And>t. t \<in> set (gs_tasks (rn_state r)) \<Longrightarrow> if mt_status t \<in> set UNFINISHED then dropped t (g t) else g t = t"
proof -
  note same = that(1) and planned = that(2) and waved = that(3) and analysed = that(4) and aborted = that(5)
  have ctrl: thesis if at: "rn_control r = At n" and ns: "node_step n (rn_state r) (rn_files r) u f' evs"
    and st: "rn_state r' = apply_update (rn_state r) u" for n u f' evs
  proof -
    consider "n \<notin> {N_synthesis, N_error_analysis, N_budget_abort}" | "n = N_synthesis" | "n = N_error_analysis"
      | "n = N_budget_abort" by blast
    then show thesis
    proof cases
      case 1
      then show thesis using node_step_tasks [OF ns 1] at st by (intro same) auto
    next
      case 2
      with ns have syn: "synthesis_node (rn_state r) = Inr u" by (auto elim: node_step_synthesis)
      show thesis
      proof (cases "up_tasks u")
        case None
        then show thesis using at st by (intro same) auto
      next
        case (Some ts)
        from syn Some obtain c config where "gs_comprehension (rn_state r) = Some c"
          "run_synthesis c ''fastapi'' (Some fastapi_synthesis_adapter) = Inr ts"
          by (rule synthesis_node_plan)
        then show thesis using at st Some 2 by (intro planned) auto
      qed
    next
      case 3
      with ns obtain analyzer now where "error_analysis_node analyzer now (rn_state r) = Inr u"
        by (auto elim: node_step_analysis)
      then obtain g where "gs_tasks (apply_update (rn_state r) u) = map g (gs_tasks (rn_state r))"
        "\<And>t. t \<in> set (gs_tasks (rn_state r)) \<Longrightarrow>
           g t = t \<or> judged (gs_retry_round (rn_state r) + 1 < max_rounds (rn_state r)) t (g t)"
        using analysis_tasks_map [OF assms(2) [unfolded tasks_distinct_def]] by blast
      then show thesis using at st 3 by (intro analysed) auto
    next
      case 4
      with ns obtain now where "budget_abort_node now (rn_state r) = Inr u" by (auto elim: node_step_abort)
      then obtain g where "gs_tasks (apply_update (rn_state r) u) = map g (gs_tasks (rn_state r))"
        "\<And>t. t \<in> set (gs_tasks (rn_state r)) \<Longrightarrow> if mt_status t \<in> set UNFINISHED then dropped t (g t) else g t = t"
        using abort_tasks_map [OF assms(2) [unfolded tasks_distinct_def]] by blast
      then show thesis using at st 4 by (intro aborted) auto
    qed
  qed
  from assms(1) show thesis
  proof (cases rule: step.cases)
    case (node n u f' evs now1 now2 c)
    then show thesis by (intro ctrl) auto
  next
    case (wave sends us us')
    obtain k where k: "map gs_current_task sends = map Some (take k (get_ready_tasks (gs_tasks (rn_state r))))" "sends \<noteq> []"
      using assms(3) wave(2) by (auto simp: fanout_ok_def)
    let ?ts = "take k (get_ready_tasks (gs_tasks (rn_state r)))"
    have ts: "set ?ts \<subseteq> set (get_ready_tasks (gs_tasks (rn_state r)))" by (rule set_take_subset)
    then have "set ?ts \<subseteq> set (gs_tasks (rn_state r))" using ready_active by blast
    from wave_tasks [OF assms(2) [unfolded tasks_distinct_def] this k(1) wave(3,4)]
    obtain g where "gs_tasks (merge_updates (rn_state r) us') = map g (gs_tasks (rn_state r))"
      "\<And>t. t \<in> set (gs_tasks (rn_state r)) \<Longrightarrow> if t \<in> set ?ts then edited t (g t) else g t = t" by blast
    moreover have "?ts \<noteq> []" using k by (metis list.map_disc_iff)
    moreover have "distinct (map mt_id (get_ready_tasks (gs_tasks (rn_state r))))"
      using assms(2) by (simp add: tasks_distinct_def ready_distinct)
    then have "distinct (map mt_id ?ts)" by (simp add: distinct_take flip: take_map)
    moreover have ids: "map send_id sends = map mt_id ?ts" using k(1) by (rule send_ids)
    moreover have "rn_log r' = rn_log r @ Ev_Dispatch (map mt_id ?ts) #
        map (\<lambda>c. Ev_Cost c True) (concat (map update_costs us'))"
      unfolding wave(1) ids by simp
    ultimately show thesis using wave(1,2) ts by (intro that(3) [of sends ?ts g] exI) simp_all
  next
    case (resume u f' evs now1 now2 c)
    have "gs_tasks (apply_update (rn_state r) u) = gs_tasks (rn_state r)"
      by (rule node_step_tasks [OF resume(3)]) simp
    then show thesis using resume by (intro same) auto
  next
    case (crash_route n u f' evs now1 now2 e)
    then show thesis by (intro ctrl) auto
  qed (auto intro: same)
qed

end
