(* ===== verification/Pipeline_Safety.thy ===== *)
theory Pipeline_Safety
  imports Pipeline_Tasks
begin

text \<open>
  What a run may do to the outside world. The invariant \<open>ship_inv\<close> follows the files from the suite
  that tested them to the request that publishes them, together with the draft and the recorded
  approval; the books of the second part charge every model call exactly once.
\<close>

section \<open>What the log says\<close>

definition suites :: "event list \<Rightarrow> (file_diff list \<times> test_result) list" where
  "suites = List.map_filter (\<lambda>e. case e of Ev_Suite ds r \<Rightarrow> Some (ds, r) | _ \<Rightarrow> None)"

definition publications :: "event list \<Rightarrow> publish_request list" where
  "publications = List.map_filter (\<lambda>e. case e of Ev_Publish q \<Rightarrow> Some q | _ \<Rightarrow> None)"

definition human_approved :: "event list \<Rightarrow> bool" where
  "human_approved events \<longleftrightarrow> (\<exists>d. Ev_Decision d \<in> set events \<and> is_approved d)"

lemma map_filter_append: "List.map_filter f (xs @ ys) = List.map_filter f xs @ List.map_filter f ys"
  by (simp add: List.map_filter_def)

lemma log_append [simp]:
  "suites (xs @ ys) = suites xs @ suites ys" "publications (xs @ ys) = publications xs @ publications ys"
  "human_approved (xs @ ys) \<longleftrightarrow> human_approved xs \<or> human_approved ys"
  by (auto simp: suites_def publications_def map_filter_append human_approved_def)

lemma log_simps [simp]:
  "suites [] = []" "suites (Ev_Suite ds r # es) = (ds, r) # suites es"
  "publications [] = []" "publications (Ev_Publish q # es) = q # publications es"
  "suites (Ev_Cost c b # es) = suites es" "publications (Ev_Cost c b # es) = publications es"
  "suites (Ev_Dispatch ids # es) = suites es" "publications (Ev_Dispatch ids # es) = publications es"
  "suites (Ev_Interrupt p # es) = suites es" "publications (Ev_Interrupt p # es) = publications es"
  "suites (Ev_Decision d # es) = suites es" "publications (Ev_Decision d # es) = publications es"
  "suites (Ev_Analysis # es) = suites es" "publications (Ev_Analysis # es) = publications es"
  "publications (Ev_Suite ds r # es) = publications es" "suites (Ev_Publish q # es) = suites es"
  by (simp_all add: suites_def publications_def List.map_filter_simps)

lemma publications_mem: "q \<in> set (publications es) \<longleftrightarrow> Ev_Publish q \<in> set es"
proof (induction es)
  case (Cons e es)
  then show ?case by (cases e) auto
qed simp

lemma suites_mem: "(ds, r) \<in> set (suites es) \<longleftrightarrow> Ev_Suite ds r \<in> set es"
proof (induction es)
  case (Cons e es)
  then show ?case by (cases e) auto
qed simp

lemma no_suites: "(\<And>ds r. Ev_Suite ds r \<notin> set es) \<Longrightarrow> suites es = []"
  using suites_mem by (metis ex_in_conv set_empty surj_pair)

lemma no_publications: "(\<And>q. Ev_Publish q \<notin> set es) \<Longrightarrow> publications es = []"
  using publications_mem by (metis ex_in_conv set_empty)

lemma wave_log [simp]: "suites (map (\<lambda>c. Ev_Cost c b) cs) = []" "publications (map (\<lambda>c. Ev_Cost c b) cs) = []"
  by (auto intro: no_suites no_publications)

section \<open>The shipping invariant\<close>

definition suite_passed :: "graph_state \<Rightarrow> bool" where
  "suite_passed s \<longleftrightarrow> (\<exists>r. gs_full_suite_result s = Some r \<and> tr_outcome r = Out_PASSED)"

definition drafted :: "control \<Rightarrow> bool" where
  "drafted c \<longleftrightarrow> c \<in> {At N_request_approval, At N_approval_gate, Waiting_Approval, At N_pr_publish}"

definition shipping :: "control \<Rightarrow> bool" where
  "shipping c \<longleftrightarrow> c = At N_aggregate \<or> drafted c"

definition over :: "control \<Rightarrow> bool" where
  "over c \<longleftrightarrow> c = Finished \<or> (\<exists>e. c = Crashed e)"

text \<open>The last suite ran on these files and passed.\<close>

definition last_passed :: "event list \<Rightarrow> file_diff list \<Rightarrow> bool" where
  "last_passed events ds \<longleftrightarrow> (\<exists>r. suites events \<noteq> [] \<and> last (suites events) = (ds, r) \<and> tr_outcome r = Out_PASSED)"

definition draft_ready :: "run_config \<Rightarrow> graph_state \<Rightarrow> bool" where
  "draft_ready config s \<longleftrightarrow> shippable (effective_of s) \<and>
     gs_aggregated_diff_paths s = map fd_path (effective_of s) \<and>
     gs_pr_draft s = Some (build_pr_draft config (effective_results (gs_editor_results s) (gs_tasks s))
       (gs_tasks s) (gs_comprehension s))"

definition approval_needed :: "run_config \<Rightarrow> bool" where
  "approval_needed config \<longleftrightarrow> truthy (rc_github_target_repo config) \<and>
     rc_require_human_approval_before_pr config \<noteq> Some False"

definition publication_ok :: "run_config \<Rightarrow> event list \<Rightarrow> publish_request \<Rightarrow> bool" where
  "publication_ok config events q \<longleftrightarrow> last_passed events (pq_files q) \<and> shippable (pq_files q) \<and>
     rc_github_target_repo config = Some (pq_repo_full_name q) \<and> pq_repo_full_name q \<noteq> '''' \<and>
     pq_branch_name q = ''stackmigrate/'' @ rc_run_id config \<and>
     (approval_needed config \<longrightarrow> human_approved events)"

definition ship_inv :: "run_config \<Rightarrow> run \<Rightarrow> bool" where
  "ship_inv config r \<longleftrightarrow>
     gs_config (rn_state r) = Some config \<and>
     (\<not> over (rn_control r) \<and> \<not> shipping (rn_control r) \<longrightarrow> \<not> suite_passed (rn_state r)) \<and>
     (shipping (rn_control r) \<longrightarrow> last_passed (rn_log r) (effective_of (rn_state r))) \<and>
     (\<not> over (rn_control r) \<and> \<not> drafted (rn_control r) \<longrightarrow> gs_pr_draft (rn_state r) = None) \<and>
     (drafted (rn_control r) \<longrightarrow> draft_ready config (rn_state r)) \<and>
     (gs_approval_status (rn_state r) = Some ''approved'' \<longrightarrow> human_approved (rn_log r)) \<and>
     (\<not> over (rn_control r) \<longrightarrow> publications (rn_log r) = []) \<and>
     length (publications (rn_log r)) \<le> 1 \<and>
     (\<forall>q \<in> set (publications (rn_log r)). publication_ok config (rn_log r) q)"

lemma needs_approval_config: "gs_config s = Some config \<Longrightarrow> needs_human_approval s = approval_needed config"
  by (auto simp: needs_human_approval_def approval_needed_def split: option.splits)

lemma control_kinds [simp]:
  "\<not> over (At n)" "\<not> over (Fanout as)" "\<not> over Waiting_Approval" "over Finished" "over (Crashed e)"
  "\<not> drafted (Fanout as)" "\<not> drafted Finished" "\<not> drafted (Crashed e)" "drafted Waiting_Approval"
  "\<not> shipping (Fanout as)" "\<not> shipping Finished" "\<not> shipping (Crashed e)" "shipping Waiting_Approval"
  "drafted (At n) \<longleftrightarrow> n \<in> {N_request_approval, N_approval_gate, N_pr_publish}"
  "shipping (At n) \<longleftrightarrow> n \<in> {N_aggregate, N_request_approval, N_approval_gate, N_pr_publish}"
  by (auto simp: over_def drafted_def shipping_def)

lemma follow_cases: "follow targets name = Inr c \<Longrightarrow> (name, c) \<in> set targets"
  by (auto simp: follow_def dest: map_of_SomeD)

text \<open>The edges that matter: before the suite nothing leads to shipping.\<close>

lemma next_before_suite:
  assumes "next_of n s now1 now2 = Inr c"
    "n \<in> {N_comprehension, N_synthesis, N_budget_reconcile, N_error_analysis, N_budget_abort}"
  shows "\<not> shipping c" "\<not> drafted c"
  using assms
  by (auto simp: dispatch_def dest!: follow_cases split: sum.splits route.splits if_splits)

lemma next_after_sandbox:
  "next_of N_sandbox_test s now1 now2 = Inr (if suite_passed s then At N_aggregate else At N_error_analysis)"
  by (cases "gs_full_suite_result s") (simp_all add: follow_def route_after_sandbox_def suite_passed_def route_names)

lemma next_after_aggregate:
  "next_of N_aggregate s now1 now2 =
     Inr (if gs_pr_draft s = None then Finished
          else if needs_human_approval s then At N_request_approval else At N_pr_publish)"
  by (cases "gs_pr_draft s = None"; cases "needs_human_approval s")
    (simp_all add: follow_def route_after_aggregate_def route_names del: not_None_eq)

lemma next_after_gate:
  "next_of N_approval_gate s now1 now2 =
     Inr (if gs_approval_status s = Some ''approved'' then At N_pr_publish else Finished)"
  by (simp add: follow_def route_after_approval_def route_names)

lemma effective_frame:
  "node_frame n s u \<Longrightarrow> n \<notin> {N_synthesis, N_error_analysis, N_budget_abort} \<Longrightarrow> effective_of (apply_update s u) = effective_of s"
  by (simp add: node_frame_def)

lemma ship_over:
  assumes "gs_config (rn_state r) = Some config" "over (rn_control r)" "publications (rn_log r) = []"
    "gs_approval_status (rn_state r) = Some ''approved'' \<longrightarrow> human_approved (rn_log r)"
  shows "ship_inv config r"
  using assms by (auto simp: ship_inv_def over_def)

text \<open>The nodes before the suite.\<close>

lemma ship_early:
  assumes inv: "ship_inv config r" "rn_control r = At n"
    and n: "n \<in> {N_comprehension, N_synthesis, N_budget_reconcile, N_error_analysis, N_budget_abort}"
    and ns: "node_step n (rn_state r) (rn_files r) u f' evs"
    and c: "\<not> shipping c"
  shows "ship_inv config \<lparr>rn_control = c, rn_state = apply_update (rn_state r) u, rn_files = f', rn_log = rn_log r @ evs\<rparr>"
proof -
  have fr: "up_full_suite_result u = None" "up_pr_draft u = None" "up_approval_status u = None"
    using node_step_frame [OF ns] n by (auto simp: node_frame_def)
  have "suites evs = []" "publications evs = []"
    using n node_step_events(1,3) [OF ns] by (auto intro!: no_suites no_publications)
  moreover have "\<not> drafted c" using c by (simp add: shipping_def)
  moreover have "\<not> shipping (At n)" using n by auto
  ultimately show ?thesis
    using inv c n by (auto simp: ship_inv_def fr suite_passed_def)
qed

lemma ship_sandbox:
  assumes inv: "ship_inv config r" "rn_control r = At N_sandbox_test"
    and ns: "node_step N_sandbox_test (rn_state r) (rn_files r) u f' evs"
    and c: "next_of N_sandbox_test (apply_update (rn_state r) u) now1 now2 = Inr c"
  shows "ship_inv config \<lparr>rn_control = c, rn_state = apply_update (rn_state r) u, rn_files = f', rn_log = rn_log r @ evs\<rparr>"
proof -
  let ?s = "rn_state r" and ?s' = "apply_update (rn_state r) u"
  have fr: "up_pr_draft u = None" "up_approval_status u = None" "effective_of ?s' = effective_of ?s"
    using node_step_frame [OF ns] by (auto simp: node_frame_def)
  have evs: "evs = (case up_full_suite_result u of None \<Rightarrow> [] | Some r \<Rightarrow> [Ev_Suite (effective_of ?s) r])"
    using ns by (auto elim: node_step_sandbox)
  have pub: "publications evs = []" by (simp add: evs split: option.split)
  have old: "\<not> suite_passed ?s" "publications (rn_log r) = []" "gs_pr_draft ?s = None" "gs_config ?s = Some config"
    "gs_approval_status ?s = Some ''approved'' \<longrightarrow> human_approved (rn_log r)"
    using inv by (auto simp: ship_inv_def)
  have c': "c = (if suite_passed ?s' then At N_aggregate else At N_error_analysis)"
    using c [unfolded next_after_sandbox] by simp
  show ?thesis
  proof (cases "suite_passed ?s'")
    case True
    then obtain res where "up_full_suite_result u = Some res" "tr_outcome res = Out_PASSED"
      using old(1) by (cases "up_full_suite_result u") (auto simp: suite_passed_def)
    then have "last_passed (rn_log r @ evs) (effective_of ?s')"
      unfolding fr(3) by (simp add: evs last_passed_def)
    then show ?thesis using True c' old fr pub by (auto simp: ship_inv_def)
  next
    case False
    then show ?thesis using c' old fr pub by (auto simp: ship_inv_def)
  qed
qed

lemma ship_aggregate:
  assumes inv: "ship_inv config r" "rn_control r = At N_aggregate"
    and ns: "node_step N_aggregate (rn_state r) (rn_files r) u f' evs"
    and c: "next_of N_aggregate (apply_update (rn_state r) u) now1 now2 = Inr c"
  shows "ship_inv config \<lparr>rn_control = c, rn_state = apply_update (rn_state r) u, rn_files = f', rn_log = rn_log r @ evs\<rparr>"
proof -
  let ?s = "rn_state r" and ?s' = "apply_update (rn_state r) u"
  have agg: "aggregate_node ?s = Inr u" and evs: "evs = []"
    using ns by (auto elim: node_step_aggregate)
  have fr: "up_approval_status u = None" "up_full_suite_result u = None" "effective_of ?s' = effective_of ?s"
    "gs_tasks ?s' = gs_tasks ?s" "gs_editor_results ?s' = gs_editor_results ?s" "gs_comprehension ?s' = gs_comprehension ?s"
    using node_step_frame [OF ns] aggregate_node_frame [OF agg] by (auto simp: node_frame_def aggregate_frame_def)
  have old: "last_passed (rn_log r) (effective_of ?s)" "publications (rn_log r) = []" "gs_pr_draft ?s = None"
    "gs_config ?s = Some config" "gs_approval_status ?s = Some ''approved'' \<longrightarrow> human_approved (rn_log r)"
    using inv by (auto simp: ship_inv_def)
  show ?thesis
  proof (cases "up_pr_draft u")
    case None
    then have "c = Finished" using c [unfolded next_after_aggregate] old(3) by simp
    then show ?thesis using old fr evs by (intro ship_over) auto
  next
    case (Some d)
    have ds: "shippable (effective_of ?s)" using aggregate_draft(1) [OF agg] Some by simp
    have "draft_ready config ?s'"
      using aggregate_draft(3) [OF agg Some] Some old(4) ds fr by (auto simp: draft_ready_def)
    moreover have "gs_pr_draft ?s' = Some d" using Some by simp
    then have "c = At N_request_approval \<or> c = At N_pr_publish"
      using c [unfolded next_after_aggregate] by (auto split: if_splits)
    ultimately show ?thesis using old fr evs by (auto simp: ship_inv_def)
  qed
qed

lemma ship_publish:
  assumes inv: "ship_inv config r" "rn_control r = At N_pr_publish"
    and ns: "node_step N_pr_publish (rn_state r) (rn_files r) u f' evs"
  shows "ship_inv config \<lparr>rn_control = Finished, rn_state = apply_update (rn_state r) u, rn_files = f', rn_log = rn_log r @ evs\<rparr>"
proof -
  let ?s = "rn_state r" and ?s' = "apply_update (rn_state r) u"
  obtain publisher qs where p: "pr_publish_node publisher ?s = (Inr u, qs)" and evs: "evs = map Ev_Publish qs"
    using ns by (auto elim: node_step_publish)
  have fr: "up_approval_status u = None" using publish_node_frame [OF p] by (simp add: publish_frame_def)
  have log: "suites evs = []" "publications evs = qs"
    unfolding evs by (induction qs) simp_all
  have old: "last_passed (rn_log r) (effective_of ?s)" "publications (rn_log r) = []" "draft_ready config ?s"
    "gs_config ?s = Some config" "gs_approval_status ?s = Some ''approved'' \<longrightarrow> human_approved (rn_log r)"
    using inv by (auto simp: ship_inv_def)
  from p show ?thesis
  proof (cases rule: publish_node_cases)
    case none
    then show ?thesis using old fr log by (intro ship_over) auto
  next
    case (published config' repo draft)
    let ?q = "publish_request_of ?s config' repo draft"
    have c: "config' = config" using published(1) old(4) by simp
    have "draft = build_pr_draft config (effective_results (gs_editor_results ?s) (gs_tasks ?s)) (gs_tasks ?s)
        (gs_comprehension ?s)"
      using published(4) old(3) by (simp add: draft_ready_def)
    then have "pq_branch_name ?q = ''stackmigrate/'' @ rc_run_id config"
      by (simp add: publish_request_of_def build_pr_draft_def Let_def)
    moreover have "pq_files ?q = effective_of ?s" "pq_repo_full_name ?q = repo"
      by (simp_all add: publish_request_of_def)
    moreover have "last_passed (rn_log r @ evs) (effective_of ?s)"
      using old(1) log by (simp add: last_passed_def)
    moreover have "approval_needed config \<longrightarrow> human_approved (rn_log r @ evs)"
      using published(5) old(5) needs_approval_config [OF old(4)] by simp
    ultimately have "publication_ok config (rn_log r @ evs) ?q"
      using old(3) published(2,3) c by (simp add: publication_ok_def draft_ready_def)
    then show ?thesis
      using old fr log published(6) by (auto simp: ship_inv_def)
  qed
qed

lemma ship_inv_step:
  assumes "step r r'" "ship_inv config r"
  shows "ship_inv config r'"
  using assms(1)
proof (cases rule: step.cases)
  case (node n u f' evs now1 now2 c)
  consider "n \<in> {N_comprehension, N_synthesis, N_budget_reconcile, N_error_analysis, N_budget_abort}"
    | "n = N_sandbox_test" | "n = N_aggregate" | "n = N_request_approval" | "n = N_pr_publish"
    using node(3) by (cases n) auto
  then show ?thesis
  proof cases
    case 1
    then show ?thesis
      unfolding node(1) using ship_early [OF assms(2) node(2) 1 node(4)] next_before_suite [OF node(5) 1] by blast
  next
    case 2
    then show ?thesis
      unfolding node(1) using ship_sandbox [OF assms(2)] node(2,4,5) by blast
  next
    case 3
    then show ?thesis
      unfolding node(1) using ship_aggregate [OF assms(2)] node(2,4,5) by blast
  next
    case 4
    have req: "request_approval_node (rn_state r) = Inr u" "evs = []"
      using node(4) unfolding 4 by (auto elim: node_step_request)
    then have "u = no_update\<lparr>up_phase := Some Ph_AWAITING_APPROVAL\<rparr>" by (simp add: request_approval_node_def)
    moreover have "c = At N_approval_gate" using node(5) unfolding 4 by simp
    ultimately show ?thesis
      unfolding node(1) using assms(2) node(2) 4 req(2)
      by (auto simp: ship_inv_def draft_ready_def no_update_def)
  next
    case 5
    then have "c = Finished" using node(5) by simp
    with 5 show ?thesis
      unfolding node(1) using ship_publish [OF assms(2)] node(2,4) by blast
  qed
next
  case (wave sends us us')
  have fr: "\<forall>u \<in> set us'. branch_frame u" using branches_frame wave(3,4) by blast
  show ?thesis
    unfolding wave(1) using assms(2) wave(2)
    by (auto simp: ship_inv_def merge_updates_frame [OF fr] suite_passed_def human_approved_def)
next
  case (pause p)
  then show ?thesis using assms(2) by (auto simp: ship_inv_def last_passed_def)
next
  case (resume u f' evs now1 now2 c)
  obtain d where gate: "approval_gate_node d (rn_state r) = Inr u" and evs: "evs = [Ev_Decision d]"
    using resume(3) by (auto elim: node_step_gate)
  have fr: "approval_frame u" using approval_frames(2) [OF gate] .
  have "gs_approval_status (apply_update (rn_state r) u) = Some ''approved'' \<longleftrightarrow> is_approved d"
    using approval_gate_outcome(1) [OF gate] by (simp split: if_splits)
  moreover have "c = (if gs_approval_status (apply_update (rn_state r) u) = Some ''approved'' then At N_pr_publish else Finished)"
    using resume(4) by (simp only: next_after_gate sum.inject)
  moreover have "gs_config (apply_update (rn_state r) u) = gs_config (rn_state r)"
    "gs_comprehension (apply_update (rn_state r) u) = gs_comprehension (rn_state r)"
    "gs_tasks (apply_update (rn_state r) u) = gs_tasks (rn_state r)"
    "gs_editor_results (apply_update (rn_state r) u) = gs_editor_results (rn_state r)"
    "gs_pr_draft (apply_update (rn_state r) u) = gs_pr_draft (rn_state r)"
    "gs_aggregated_diff_paths (apply_update (rn_state r) u) = gs_aggregated_diff_paths (rn_state r)"
    using fr by (simp_all add: approval_frame_def)
  ultimately show ?thesis
    unfolding resume(1) using assms(2) resume(2)
    by (auto simp: ship_inv_def draft_ready_def evs last_passed_def human_approved_def simp del: apply_update_simps)
next
  case (crash_node n e)
  then show ?thesis using assms(2) by (intro ship_over) (auto simp: ship_inv_def)
next
  case (crash_route n u f' evs now1 now2 e)
  have "n \<noteq> N_pr_publish" using crash_route(5) by (cases n) auto
  then have "publications evs = []" "up_approval_status u = None"
    using node_step_events(3) [OF crash_route(4)] node_step_frame [OF crash_route(4)] crash_route(3)
    by (auto intro!: no_publications simp: node_frame_def)
  then show ?thesis using assms(2) crash_route(1,2) by (intro ship_over) (auto simp: ship_inv_def)
next
  case (crash_branch sends a generator now1 now2 produced e)
  then show ?thesis using assms(2) by (intro ship_over) (auto simp: ship_inv_def)
next
  case (crash_resume e)
  then show ?thesis using assms(2) by (intro ship_over) (auto simp: ship_inv_def)
qed

lemma ship_inv_start: "ship_inv config (start_run config budget rounds f)"
  by (auto simp: ship_inv_def start_run_def fresh_state_def empty_state_def suite_passed_def)

lemma ship_inv_reachable:
  assumes "steps (start_run config budget rounds f) r"
  shows "ship_inv config r"
  using assms by (induction rule: rtranclp_induct) (auto intro: ship_inv_start ship_inv_step)

end
