(* ===== verification/Pipeline_Termination.thy ===== *)
theory Pipeline_Termination
  imports Pipeline_Tasks
begin

text \<open>
  Every run ends. The measure is lexicographic: the two nodes that run once, the work the task list
  still allows (each dispatch and each retry uses some up), and the distance of the control point to
  the end. The same weights bound how often one task is dispatched and how many analyses run.
\<close>

section \<open>The invariant of the task list\<close>

definition retries_ok :: "run \<Rightarrow> bool" where
  "retries_ok r \<longleftrightarrow> (\<forall>t \<in> set (gs_tasks (rn_state r)).
     active t \<or> mt_status t = St_SUCCEEDED \<longrightarrow> mt_retry_count t \<le> mt_max_retries t)"

definition well_formed :: "run \<Rightarrow> bool" where
  "well_formed r \<longleftrightarrow> tasks_distinct r \<and> retries_ok r \<and> fanout_ok r"

lemma edited_facts:
  assumes "edited t n"
  shows "mt_id n = mt_id t" "mt_max_retries n = mt_max_retries t"
    "active n \<or> mt_status n = St_SUCCEEDED \<Longrightarrow> mt_retry_count t \<le> mt_max_retries t \<Longrightarrow> mt_retry_count n \<le> mt_max_retries n"
  using assms by (auto simp: edited_def same_task_def active_def)

lemma judged_facts:
  assumes "judged again t n"
  shows "mt_id n = mt_id t" "mt_max_retries n = mt_max_retries t" "mt_status t = St_SUCCEEDED"
    "active n \<or> mt_status n = St_SUCCEEDED \<Longrightarrow> mt_retry_count n \<le> mt_max_retries n"
  using assms by (auto simp: judged_def same_task_def active_def)

lemma dropped_facts:
  "dropped t n \<Longrightarrow> mt_id n = mt_id t \<and> mt_max_retries n = mt_max_retries t \<and> mt_status n = St_SKIPPED"
  by (simp add: dropped_def same_task_def)

lemma well_formed_step:
  assumes "step r r'" "well_formed r"
  shows "well_formed r'"
proof -
  let ?ts = "gs_tasks (rn_state r)"
  have inv: "tasks_distinct r" "retries_ok r" "fanout_ok r"
    using assms(2) by (simp_all add: well_formed_def)
  have map_ok: "tasks_distinct r' \<and> retries_ok r'" if "gs_tasks (rn_state r') = map g ?ts"
    "\<And>t. t \<in> set ?ts \<Longrightarrow> mt_id (g t) = mt_id t \<and>
       (active (g t) \<or> mt_status (g t) = St_SUCCEEDED \<longrightarrow> mt_retry_count (g t) \<le> mt_max_retries (g t))" for g
  proof -
    have "map mt_id (map g ?ts) = map mt_id ?ts" using that(2) by simp
    then show ?thesis
      using inv(1) that unfolding tasks_distinct_def retries_ok_def that(1) by (simp only:) auto
  qed
  from assms(1) inv(1,3) have "tasks_distinct r' \<and> retries_ok r'"
  proof (cases rule: step_tasks)
    case same
    then show ?thesis using inv by (simp add: tasks_distinct_def retries_ok_def)
  next
    case (planned c ts)
    have "mt_retry_count t \<le> mt_max_retries t" if "t \<in> set ts" for t
      using fastapi_layout.plan_pending [OF planned(3) that] by simp
    then show ?thesis
      using planned(4) inv(2) set_merge_subset [of ?ts ts]
      by (auto simp: tasks_distinct_def retries_ok_def distinct_merge)
  next
    case (wave sends ts g)
    show ?thesis
    proof (rule map_ok [OF wave(7)])
      fix t assume t: "t \<in> set ?ts"
      show "mt_id (g t) = mt_id t \<and>
          (active (g t) \<or> mt_status (g t) = St_SUCCEEDED \<longrightarrow> mt_retry_count (g t) \<le> mt_max_retries (g t))"
      proof (cases "t \<in> set ts")
        case True
        then have "active t" using wave(4) ready_active by blast
        then have "mt_retry_count t \<le> mt_max_retries t" using inv(2) t by (simp add: retries_ok_def)
        then show ?thesis using edited_facts [of t "g t"] wave(8) [OF t] True by auto
      next
        case False
        then show ?thesis using wave(8) [OF t] inv(2) t by (simp add: retries_ok_def)
      qed
    qed
  next
    case (analysis g)
    show ?thesis
    proof (rule map_ok [OF analysis(2)])
      fix t assume t: "t \<in> set ?ts"
      show "mt_id (g t) = mt_id t \<and>
          (active (g t) \<or> mt_status (g t) = St_SUCCEEDED \<longrightarrow> mt_retry_count (g t) \<le> mt_max_retries (g t))"
        using analysis(3) [OF t] judged_facts inv(2) t unfolding retries_ok_def by metis
    qed
  next
    case (abort g)
    show ?thesis
    proof (rule map_ok [OF abort(2)])
      fix t assume t: "t \<in> set ?ts"
      show "mt_id (g t) = mt_id t \<and>
          (active (g t) \<or> mt_status (g t) = St_SUCCEEDED \<longrightarrow> mt_retry_count (g t) \<le> mt_max_retries (g t))"
        using abort(3) [OF t] dropped_facts [of t "g t"] inv(2) t
        by (auto simp: retries_ok_def active_def split: if_splits)
    qed
  qed
  then show ?thesis using step_fanout_ok [OF assms(1)] by (simp add: well_formed_def)
qed

lemma well_formed_start: "well_formed (start_run config budget rounds f)"
  by (simp add: well_formed_def start_run_def fresh_state_def empty_state_def tasks_distinct_def
      retries_ok_def fanout_ok_def)

lemma steps_invariant:
  assumes "steps r r'" "I r" "\<And>a b. step a b \<Longrightarrow> I a \<Longrightarrow> I b"
  shows "I r'"
  using assms(1,2) by (induction rule: rtranclp_induct) (auto intro: assms(3))

lemma well_formed_reachable: "steps (start_run config budget rounds f) r \<Longrightarrow> well_formed r"
  by (rule steps_invariant [where I = well_formed]) (auto intro: well_formed_start well_formed_step)

section \<open>The measure\<close>

definition weight :: "migration_task \<Rightarrow> nat" where
  "weight t =
     (if active t then 2 * nat (mt_max_retries t + 1 - mt_retry_count t) + 1
      else if mt_status t = St_SUCCEEDED then 2 * nat (mt_max_retries t + 1 - mt_retry_count t)
      else 0)"

definition work :: "run \<Rightarrow> nat" where
  "work r = sum_list (map weight (gs_tasks (rn_state r)))"

fun stage :: "control \<Rightarrow> nat" where
  "stage (At N_comprehension) = 2"
| "stage (At N_synthesis) = 1"
| "stage _ = 0"

fun rank :: "control \<Rightarrow> nat" where
  "rank (At N_comprehension) = 11"
| "rank (At N_synthesis) = 10"
| "rank (At N_budget_reconcile) = 9"
| "rank (At N_sandbox_test) = 8"
| "rank (At N_error_analysis) = 7"
| "rank (At N_aggregate) = 6"
| "rank (At N_request_approval) = 5"
| "rank (At N_approval_gate) = 4"
| "rank Waiting_Approval = 3"
| "rank (At N_pr_publish) = 2"
| "rank (At N_budget_abort) = 2"
| "rank (Fanout sends) = 1"
| "rank Finished = 0"
| "rank (Crashed e) = 0"

lemma weight_edited: "active t \<Longrightarrow> mt_retry_count t \<le> mt_max_retries t \<Longrightarrow> edited t n \<Longrightarrow> weight n < weight t"
  by (auto simp: weight_def edited_def same_task_def active_def)

lemma weight_judged: "mt_retry_count t \<le> mt_max_retries t \<Longrightarrow> judged again t n \<Longrightarrow> weight n < weight t"
  by (auto simp: weight_def judged_def same_task_def active_def)

lemma weight_dropped: "dropped t n \<Longrightarrow> weight n = 0"
  by (simp add: weight_def dropped_def active_def)

lemma sum_list_le: "\<forall>x \<in> set xs. f x \<le> (g x :: nat) \<Longrightarrow> sum_list (map f xs) \<le> sum_list (map g xs)"
  by (induction xs) auto

lemma sum_list_less:
  "\<forall>x \<in> set xs. f x \<le> (g x :: nat) \<Longrightarrow> y \<in> set xs \<Longrightarrow> f y < g y \<Longrightarrow> sum_list (map f xs) < sum_list (map g xs)"
  by (induction xs) (auto simp: add_less_le_mono add_le_less_mono sum_list_le)

text \<open>Apart from a wave, a step moves the control point down.\<close>

lemma next_of_down:
  assumes "next_of n s now1 now2 = Inr c"
  shows "stage c < stage (At n) \<or> stage c = stage (At n) \<and> rank c < rank (At n)"
  using assms by (cases n) (auto simp: dispatch_def dest!: follow_no_fanout split: sum.splits route.splits if_splits)

lemma step_down:
  assumes "step r r'"
  shows "(\<exists>sends. rn_control r = Fanout sends \<and> rn_control r' = At N_budget_reconcile) \<or>
    stage (rn_control r') < stage (rn_control r) \<or>
    stage (rn_control r') = stage (rn_control r) \<and> rank (rn_control r') < rank (rn_control r)"
  using assms
proof (cases rule: step.cases)
  case (node n u f' evs now1 now2 c)
  then show ?thesis using next_of_down [OF node(5)] by auto
next
  case (resume u f' evs now1 now2 c)
  then have "c = At N_pr_publish \<or> c = Finished" by (auto dest!: follow_no_fanout)
  then show ?thesis using resume by auto
next
  case (crash_node n e)
  then show ?thesis by (cases n) auto
next
  case (crash_route n u f' evs now1 now2 e)
  then show ?thesis by (cases n) auto
qed auto

lemma stage_one: "stage c = 1 \<Longrightarrow> rank c = 10"
  by (cases c rule: stage.cases) auto

lemma step_decreases:
  assumes "step r r'" "well_formed r"
  shows "(r', r) \<in> measures [\<lambda>r. stage (rn_control r), work, \<lambda>r. rank (rn_control r)]"
proof -
  have inv: "tasks_distinct r" "retries_ok r" "fanout_ok r"
    using assms(2) by (simp_all add: well_formed_def)
  have le: "work r' \<le> work r" if "gs_tasks (rn_state r') = map g (gs_tasks (rn_state r))"
    "\<And>t. t \<in> set (gs_tasks (rn_state r)) \<Longrightarrow> weight (g t) \<le> weight t" for g
    using that by (simp add: work_def comp_def sum_list_le)
  have down: ?thesis if "work r' \<le> work r" "\<nexists>sends. rn_control r = Fanout sends \<and> rn_control r' = At N_budget_reconcile"
    using step_down [OF assms(1)] that by auto
  have bound: "mt_retry_count t \<le> mt_max_retries t"
    if "t \<in> set (gs_tasks (rn_state r))" "active t \<or> mt_status t = St_SUCCEEDED" for t
    using inv(2) that unfolding retries_ok_def by blast
  from assms(1) inv(1,3) show ?thesis
  proof (cases rule: step_tasks)
    case same
    then show ?thesis by (intro down) (auto simp: work_def)
  next
    case (planned c ts)
    then show ?thesis using step_down [OF assms(1)] stage_one [of "rn_control r'"] by auto
  next
    case (wave sends ts g)
    have "weight (g t) \<le> weight t" if t: "t \<in> set (gs_tasks (rn_state r))" for t
    proof (cases "t \<in> set ts")
      case True
      then have "active t" using wave(4) ready_active by blast
      with wave(8) [OF t] True bound [OF t] weight_edited show ?thesis by fastforce
    next
      case False
      with wave(8) [OF t] show ?thesis by simp
    qed
    moreover obtain t where "t \<in> set ts" using wave(3) by (cases ts) auto
    moreover from this have t: "t \<in> set (gs_tasks (rn_state r))" "active t" using wave(4) ready_active by blast+
    ultimately have "work r' < work r"
      using wave(8) [OF t(1)] weight_edited bound [OF t(1)] t(2)
      unfolding work_def wave(7) by (auto simp: comp_def intro!: sum_list_less [where y = t])
    then show ?thesis using wave by simp
  next
    case (analysis g)
    have "weight (g t) \<le> weight t" if t: "t \<in> set (gs_tasks (rn_state r))" for t
      using analysis(3) [OF t] weight_judged judged_facts(3) bound [OF t] by fastforce
    from le [OF analysis(2) this] show ?thesis using analysis(1) by (intro down) auto
  next
    case (abort g)
    have "weight (g t) \<le> weight t" if t: "t \<in> set (gs_tasks (rn_state r))" for t
      using abort(3) [OF t] weight_dropped by (cases "mt_status t \<in> set UNFINISHED") auto
    from le [OF abort(2) this] show ?thesis using abort(1) by (intro down) auto
  qed
qed

lemma no_infinite_run:
  assumes "\<rho> 0 = start_run config budget rounds f"
  shows "\<exists>i. \<not> step (\<rho> i) (\<rho> (Suc i))"
proof (rule ccontr)
  assume "\<not> ?thesis"
  then have st: "step (\<rho> i) (\<rho> (Suc i))" for i by simp
  have "well_formed (\<rho> i)" for i
    by (induction i) (simp_all add: assms well_formed_start well_formed_step [OF st])
  then have "(\<rho> (Suc i), \<rho> i) \<in> measures [\<lambda>r. stage (rn_control r), work, \<lambda>r. rank (rn_control r)]" for i
    by (intro step_decreases st)
  then show False
    using wf_measures wf_iff_no_infinite_down_chain by blast
qed

section \<open>A run is never stuck\<close>

lemma node_total: "(\<exists>u f' evs. node_step n s f u f' evs) \<or> (\<exists>e. node_raises n s f e)"
proof (cases n)
  case N_comprehension
  then show ?thesis
    by (cases "comprehension_node (Dir_Tree [] []) (\<lambda>i p. Inl (ValueError '''')) 0 s")
      (auto intro: node_step.intros node_raises.intros)
next
  case N_synthesis
  then show ?thesis by (cases "synthesis_node s") (auto intro: node_step.intros node_raises.intros)
next
  case N_budget_reconcile
  then show ?thesis by (cases "budget_reconcile_node s") (auto intro: node_step.intros node_raises.intros)
next
  case N_sandbox_test
  then show ?thesis
    by (cases "sandbox_test_node (\<lambda>p. p) (\<lambda>w a g. (Inl (ValueError ''''), g)) s f"; cases "fst (sandbox_test_node (\<lambda>p. p) (\<lambda>w a g. (Inl (ValueError ''''), g)) s f)")
      (auto intro: node_step.intros node_raises.intros)
next
  case N_error_analysis
  then show ?thesis
    by (cases "error_analysis_node (\<lambda>p. Inl (ValueError '''')) 0 s") (auto intro: node_step.intros node_raises.intros)
next
  case N_aggregate
  then show ?thesis by (cases "aggregate_node s") (auto intro: node_step.intros node_raises.intros)
next
  case N_request_approval
  then show ?thesis by (cases "request_approval_node s") (auto intro: node_step.intros node_raises.intros)
next
  case N_approval_gate
  then show ?thesis
    by (cases "approval_gate_node (Not_A_Dict J_Null) s") (auto intro: node_step.intros node_raises.intros)
next
  case N_pr_publish
  let ?p = "pr_publish_node (\<lambda>q. Inl (ValueError ''''))"
  show ?thesis
  proof (cases "fst (?p s)")
    case (Inl e)
    then show ?thesis unfolding N_pr_publish by (blast intro: node_raises.intros)
  next
    case (Inr u)
    then have "?p s = (Inr u, snd (?p s))" by (cases "?p s") simp
    then show ?thesis unfolding N_pr_publish by (blast intro: node_step.publish)
  qed
next
  case N_budget_abort
  then show ?thesis by (cases "budget_abort_node 0 s") (auto intro: node_step.intros node_raises.intros)
qed

lemma branches_total:
  "(\<exists>us. list_all2 branch sends us) \<or> (\<exists>a \<in> set sends. \<exists>e. editor_node (\<lambda>p. Inl (ValueError '''')) 0 0 0 a = Inl e)"
proof (induction sends)
  case (Cons a sends)
  then show ?case
    by (cases "editor_node (\<lambda>p. Inl (ValueError '''')) 0 0 0 a") (auto simp: branch_def list_all2_Cons1)
qed simp

definition ended :: "control \<Rightarrow> bool" where
  "ended c \<longleftrightarrow> c = Finished \<or> (\<exists>e. c = Crashed e)"

lemma step_or_ended: "ended (rn_control r) \<or> (\<exists>r'. step r r')"
proof (cases "rn_control r")
  case (At n)
  show ?thesis
  proof (cases "n = N_approval_gate")
    case True
    show ?thesis
    proof (cases "approval_request (rn_state r)")
      case (Inl e)
      then have "approval_gate_node (Not_A_Dict J_Null) (rn_state r) = Inl e"
        by (simp add: approval_gate_node_def)
      then have "node_raises n (rn_state r) (rn_files r) e" unfolding True by (rule node_raises.intros)
      then show ?thesis using crash_node [OF At] by blast
    next
      case (Inr p)
      then show ?thesis using pause At True by blast
    qed
  next
    case False
    consider u f' evs where "node_step n (rn_state r) (rn_files r) u f' evs" | e where "node_raises n (rn_state r) (rn_files r) e"
      using node_total by blast
    then show ?thesis
    proof cases
      case 1
      then show ?thesis
        using node [OF At False 1] crash_route [OF At False 1]
        by (cases "next_of n (apply_update (rn_state r) u) 0 0") blast+
    next
      case 2
      then show ?thesis using crash_node [OF At] by blast
    qed
  qed
next
  case (Fanout sends)
  show ?thesis
    using branches_total [of sends] wave [OF Fanout] crash_branch [OF Fanout] by blast
next
  case Waiting_Approval
  consider u f' evs where "node_step N_approval_gate (rn_state r) (rn_files r) u f' evs"
    | e where "node_raises N_approval_gate (rn_state r) (rn_files r) e"
    using node_total by blast
  then show ?thesis
  proof cases
    case 1
    have "\<exists>c. next_of N_approval_gate (apply_update (rn_state r) u) 0 0 = Inr c"
      by (simp add: follow_def route_after_approval_def route_names)
    then show ?thesis using resume [OF Waiting_Approval 1] by blast
  next
    case 2
    then show ?thesis using crash_resume [OF Waiting_Approval] by blast
  qed
qed (simp_all add: ended_def)

text \<open>From every point the run reaches an end, whatever the collaborators answer.\<close>

lemma runs_end:
  assumes "well_formed r"
  shows "\<exists>r'. steps r r' \<and> ended (rn_control r')"
proof -
  let ?m = "measures [\<lambda>r. stage (rn_control r), work, \<lambda>r. rank (rn_control r)]"
  have "well_formed r \<longrightarrow> (\<exists>r'. steps r r' \<and> ended (rn_control r'))" for r
  proof (induction r rule: wf_induct_rule [OF wf_measures [of "[\<lambda>r. stage (rn_control r), work, \<lambda>r. rank (rn_control r)]"]])
    case (1 r)
    show ?case
    proof
      assume wf: "well_formed r"
      show "\<exists>r'. steps r r' \<and> ended (rn_control r')"
      proof (cases "ended (rn_control r)")
        case True
        then show ?thesis by blast
      next
        case False
        then obtain r1 where s: "step r r1" using step_or_ended by blast
        from 1 [OF step_decreases [OF s wf]] well_formed_step [OF s wf]
        obtain r' where "steps r1 r'" "ended (rn_control r')" by blast
        then show ?thesis using s by (meson converse_rtranclp_into_rtranclp)
      qed
    qed
  qed
  with assms show ?thesis by blast
qed

section \<open>How often a task is dispatched\<close>

fun dispatched :: "string \<Rightarrow> event list \<Rightarrow> nat" where
  "dispatched i [] = 0"
| "dispatched i (Ev_Dispatch ids # evs) = count_list ids i + dispatched i evs"
| "dispatched i (_ # evs) = dispatched i evs"

lemma dispatched_append [simp]: "dispatched i (xs @ ys) = dispatched i xs + dispatched i ys"
  by (induction i xs rule: dispatched.induct) simp_all

lemma dispatched_none: "(\<And>ids. Ev_Dispatch ids \<notin> set evs) \<Longrightarrow> dispatched i evs = 0"
  by (induction i evs rule: dispatched.induct) auto

lemma dispatched_costs [simp]: "dispatched i (map (\<lambda>c. Ev_Cost c b) cs) = 0"
  by (rule dispatched_none) auto

lemma count_distinct: "distinct xs \<Longrightarrow> count_list xs i = (if i \<in> set xs then 1 else 0)"
  by (induction xs) auto

text \<open>How many dispatches a task may have behind it.\<close>

definition quota :: "migration_task \<Rightarrow> int" where
  "quota t = (if active t then mt_retry_count t
              else if mt_status t = St_SUCCEEDED then mt_retry_count t + 1
              else mt_max_retries t + 1)"

definition dispatch_ok :: "run \<Rightarrow> bool" where
  "dispatch_ok r \<longleftrightarrow> (\<forall>t \<in> set (gs_tasks (rn_state r)). int (dispatched (mt_id t) (rn_log r)) \<le> quota t) \<and>
     (0 < stage (rn_control r) \<longrightarrow> gs_tasks (rn_state r) = [] \<and> (\<forall>ids. Ev_Dispatch ids \<notin> set (rn_log r)))"

lemma dispatch_log_same:
  assumes "step r r'" "\<nexists>sends. rn_control r = Fanout sends"
  shows "\<exists>evs. rn_log r' = rn_log r @ evs \<and> (\<forall>ids. Ev_Dispatch ids \<notin> set evs)"
  using assms by (cases rule: step.cases) (auto dest: node_step_events(4))

lemma stage_zero_stays: "step r r' \<Longrightarrow> 0 < stage (rn_control r') \<Longrightarrow> rn_control r = At N_comprehension"
  using step_down [of r r'] stage_one [of "rn_control r'"] by (cases "rn_control r" rule: stage.cases) auto

lemma quota_edited: "active t \<Longrightarrow> mt_retry_count t \<le> mt_max_retries t \<Longrightarrow> edited t n \<Longrightarrow> quota t + 1 \<le> quota n"
  by (auto simp: quota_def edited_def same_task_def active_def)

lemma quota_judged: "mt_retry_count t \<le> mt_max_retries t \<Longrightarrow> judged again t n \<Longrightarrow> quota t \<le> quota n"
  by (auto simp: quota_def judged_def same_task_def active_def)

lemma quota_dropped:
  "dropped t n \<Longrightarrow> mt_status t \<in> set UNFINISHED \<Longrightarrow> active t \<longrightarrow> mt_retry_count t \<le> mt_max_retries t \<Longrightarrow> quota t \<le> quota n"
  by (auto simp: quota_def dropped_def same_task_def active_def UNFINISHED_def)

lemma dispatch_ok_step:
  assumes "step r r'" "well_formed r" "dispatch_ok r"
  shows "dispatch_ok r'"
proof -
  have inv: "tasks_distinct r" "retries_ok r" "fanout_ok r"
    using assms(2) by (simp_all add: well_formed_def)
  let ?ts = "gs_tasks (rn_state r)"
  have bound: "mt_retry_count t \<le> mt_max_retries t" if "t \<in> set ?ts" "active t \<or> mt_status t = St_SUCCEEDED" for t
    using inv(2) that unfolding retries_ok_def by blast
  have quota_t: "int (dispatched (mt_id t) (rn_log r)) \<le> quota t" if "t \<in> set ?ts" for t
    using assms(3) that by (simp add: dispatch_ok_def)
  have quiet: "dispatched i (rn_log r') = dispatched i (rn_log r)" if "\<nexists>sends. rn_control r = Fanout sends" for i
    using dispatch_log_same [OF assms(1) that] dispatched_none by auto
  have late: "gs_tasks (rn_state r') = [] \<and> (\<forall>ids. Ev_Dispatch ids \<notin> set (rn_log r'))"
    if "0 < stage (rn_control r')"
  proof -
    have c: "rn_control r = At N_comprehension" using stage_zero_stays [OF assms(1) that] .
    then have e: "?ts = []" "\<forall>ids. Ev_Dispatch ids \<notin> set (rn_log r)" using assms(3) by (simp_all add: dispatch_ok_def)
    from assms(1) inv(1,3) have "gs_tasks (rn_state r') = []"
      by (cases rule: step_tasks) (use c e in auto)
    with e dispatch_log_same [OF assms(1)] c show ?thesis by auto
  qed
  have "\<forall>t \<in> set (gs_tasks (rn_state r')). int (dispatched (mt_id t) (rn_log r')) \<le> quota t"
    using assms(1) inv(1,3)
  proof (cases rule: step_tasks)
    case same
    have "rn_log r' = rn_log r" if "rn_control r = Fanout sends" for sends
      using assms(1) same(2) that by (cases rule: step.cases) auto
    then have "dispatched i (rn_log r') = dispatched i (rn_log r)" for i using quiet by metis
    with same(1) quota_t show ?thesis by simp
  next
    case (planned c ts)
    have e: "?ts = []" "\<forall>ids. Ev_Dispatch ids \<notin> set (rn_log r)"
      using assms(3) planned(1) by (simp_all add: dispatch_ok_def)
    have "dispatched i (rn_log r') = 0" for i using quiet planned(1) e(2) dispatched_none by simp
    moreover have "set (gs_tasks (rn_state r')) \<subseteq> set ts"
      using planned(4) set_merge_subset [of ?ts ts] e(1) by simp
    moreover have "0 \<le> quota t" if "t \<in> set ts" for t
      using fastapi_layout.plan_pending [OF planned(3) that] by (simp add: quota_def active_def)
    ultimately show ?thesis by auto
  next
    case (wave sends ts g)
    have log: "dispatched i (rn_log r') = dispatched i (rn_log r) + (if i \<in> mt_id ` set ts then 1 else 0)" for i
      using wave(6) count_distinct [OF wave(5), of i] by auto
    have "int (dispatched (mt_id (g t)) (rn_log r')) \<le> quota (g t)" if t: "t \<in> set ?ts" for t
    proof (cases "t \<in> set ts")
      case True
      then have "active t" using wave(4) ready_active by blast
      moreover have e: "edited t (g t)" using wave(8) [OF t] True by simp
      ultimately have "quota t + 1 \<le> quota (g t)" using bound [OF t] quota_edited by blast
      then show ?thesis using quota_t [OF t] True edited_facts(1) [OF e] by (simp add: log)
    next
      case False
      have "mt_id t \<notin> mt_id ` set ts"
      proof
        assume "mt_id t \<in> mt_id ` set ts"
        then obtain t' where "t' \<in> set ts" "mt_id t' = mt_id t" by auto
        moreover have "t' \<in> set ?ts" using calculation(1) wave(4) ready_active by blast
        ultimately show False using inv(1) t False by (metis distinct_map inj_onD tasks_distinct_def)
      qed
      then show ?thesis using quota_t [OF t] wave(8) [OF t] False by (simp add: log)
    qed
    then show ?thesis unfolding wave(7) by auto
  next
    case (analysis g)
    have "mt_id (g t) = mt_id t \<and> quota t \<le> quota (g t)" if t: "t \<in> set ?ts" for t
      using analysis(3) [OF t] judged_facts quota_judged bound [OF t] by fastforce
    then show ?thesis using quota_t quiet analysis(1) unfolding analysis(2) by fastforce
  next
    case (abort g)
    have "mt_id (g t) = mt_id t \<and> quota t \<le> quota (g t)" if t: "t \<in> set ?ts" for t
      using abort(3) [OF t] dropped_facts [of t "g t"] quota_dropped [of t "g t"] bound [OF t]
      by (cases "mt_status t \<in> set UNFINISHED") auto
    then show ?thesis using quota_t quiet abort(1) unfolding abort(2) by fastforce
  qed
  with late show ?thesis by (simp add: dispatch_ok_def)
qed

lemma dispatch_ok_start: "dispatch_ok (start_run config budget rounds f)"
  by (simp add: dispatch_ok_def start_run_def fresh_state_def empty_state_def)

lemma quota_le: "well_formed r \<Longrightarrow> t \<in> set (gs_tasks (rn_state r)) \<Longrightarrow> quota t \<le> mt_max_retries t + 1"
  by (auto simp: quota_def well_formed_def retries_ok_def)

section \<open>Waves\<close>

text \<open>What a wave of a well-formed run consists of.\<close>

lemma fanout_ready:
  assumes "well_formed r" "rn_control r = Fanout sends"
  shows "distinct (map send_id sends) \<and> sends \<noteq> [] \<and>
    (\<forall>a \<in> set sends. \<exists>t. gs_current_task a = Some t \<and> t \<in> set (gs_tasks (rn_state r)) \<and>
       mt_status t \<in> {St_PENDING, St_RETRYING} \<and>
       (\<forall>dep \<in> set (mt_depends_on_task_ids t).
          \<exists>d \<in> set (gs_tasks (rn_state r)). mt_id d = dep \<and> mt_status d = St_SUCCEEDED))"
proof -
  let ?tasks = "gs_tasks (rn_state r)"
  have d: "distinct (map mt_id ?tasks)" using assms(1) by (simp add: well_formed_def tasks_distinct_def)
  obtain k where ne: "sends \<noteq> []" and k: "map gs_current_task sends = map Some (take k (get_ready_tasks ?tasks))"
    using assms by (auto simp: well_formed_def fanout_ok_def)
  have "distinct (map mt_id (take k (get_ready_tasks ?tasks)))"
    using ready_distinct [OF d] by (simp add: take_map [symmetric])
  then have "distinct (map send_id sends)" by (simp add: send_ids [OF k])
  moreover have "\<exists>t \<in> set (get_ready_tasks ?tasks). gs_current_task a = Some t" if "a \<in> set sends" for a
  proof -
    have "gs_current_task a \<in> set (map Some (take k (get_ready_tasks ?tasks)))"
      using that unfolding k [symmetric] by simp
    then show ?thesis by (auto dest: in_set_takeD)
  qed
  ultimately show ?thesis using ne get_ready_tasks_iff [OF d] by metis
qed

text \<open>The order in which the branches of a wave are merged does not matter.\<close>

lemma edited_ids: "list_all2 edited ts ns \<Longrightarrow> map mt_id ns = map mt_id ts"
  by (induction rule: list_all2_induct) (auto simp: edited_facts)

lemma wave_order:
  assumes "distinct (map mt_id (gs_tasks s))" "set ts \<subseteq> set (gs_tasks s)" "distinct (map mt_id ts)"
    and "map gs_current_task sends = map Some ts" "list_all2 branch sends us" "mset us' = mset us"
  shows "gs_tasks (merge_updates s us') = gs_tasks (merge_updates s us) \<and>
    mset (gs_editor_results (merge_updates s us')) = mset (gs_editor_results (merge_updates s us)) \<and>
    mset (gs_budget_deltas (merge_updates s us')) = mset (gs_budget_deltas (merge_updates s us))"
proof -
  have fr: "\<forall>u \<in> set us. branch_frame u" "\<forall>u \<in> set us'. branch_frame u"
    using branches_frame [OF assms(5) refl] branches_frame [OF assms(5,6)] by blast+
  have ids: "map mt_id (concat (map update_tasks us)) = map mt_id ts"
    by (rule edited_ids [OF branches_tasks [OF assms(5,4)]])
  have "merge_task_lists (gs_tasks s) (concat (map update_tasks us)) =
      merge_task_lists (gs_tasks s) (concat (map update_tasks us'))"
  proof (rule merge_order_irrelevant [OF assms(1)])
    have "mt_id ` set (concat (map update_tasks us)) = mt_id ` set ts"
      using arg_cong [OF ids, of set] by simp
    then show "mt_id ` set (concat (map update_tasks us)) \<subseteq> mt_id ` set (gs_tasks s)" using assms(2) by auto
    show "distinct (map mt_id (concat (map update_tasks us)))" unfolding ids by (rule assms(3))
    show "mset (concat (map update_tasks us)) = mset (concat (map update_tasks us'))"
      by (rule mset_concat_perm [OF assms(6), symmetric])
  qed
  then have "gs_tasks (merge_updates s us') = gs_tasks (merge_updates s us)"
    by (simp add: merge_updates_tasks [OF assms(1)])
  moreover have "mset (gs_editor_results (merge_updates s us')) = mset (gs_editor_results (merge_updates s us))"
    by (simp only: merge_updates_frame [OF fr(1)] merge_updates_frame [OF fr(2)] mset_append mset_concat_perm [OF assms(6)])
  moreover have "mset (gs_budget_deltas (merge_updates s us')) = mset (gs_budget_deltas (merge_updates s us))"
    by (simp only: merge_updates_frame [OF fr(1)] merge_updates_frame [OF fr(2)] mset_append mset_concat_perm [OF assms(6)])
  ultimately show ?thesis by blast
qed

end
