(* ===== verification/Driver.thy ===== *)
theory Driver
  imports Pipeline_Safety Pipeline_Termination
begin

text \<open>
  An executable run of the graph of \<open>app/graph/build.py\<close>: the collaborators are fixed functions (the
  arguments of \<open>build_graph\<close>, a clock and the reviewer's decision), a wave runs its branches in the
  order of the list, and \<open>advance\<close> makes the one move that is due. The lemmas show that it refines
  the step relation and that it always reaches an end.
\<close>

section \<open>Collaborators\<close>

record collaborators =
  co_tree :: dir_tree
  co_extractor :: "nat \<Rightarrow> string \<Rightarrow> extraction_response result"
  co_code_generator :: "string \<Rightarrow> editor_response result"
  co_error_analyzer :: "string \<Rightarrow> error_analysis_response result"
  co_realpath :: "string \<Rightarrow> string"
  co_sandbox_runner :: sandbox_runner
  co_pr_publisher :: pr_publisher
  co_decision :: decision
  co_clock :: "nat \<Rightarrow> rat"

section \<open>One move\<close>

fun perform ::
  "collaborators \<Rightarrow> rat \<Rightarrow> node \<Rightarrow> graph_state \<Rightarrow> fs \<Rightarrow> (state_update \<times> fs \<times> event list) result" where
  "perform co now N_comprehension s f =
     try_bind (comprehension_node (co_tree co) (co_extractor co) now s) (\<lambda>u.
       Inr (u, f, comprehension_costs (co_tree co) (co_extractor co) now s))"
| "perform co now N_synthesis s f = try_bind (synthesis_node s) (\<lambda>u. Inr (u, f, []))"
| "perform co now N_budget_reconcile s f = try_bind (budget_reconcile_node s) (\<lambda>u. Inr (u, f, []))"
| "perform co now N_sandbox_test s f =
     (case sandbox_test_node (co_realpath co) (co_sandbox_runner co) s f of
        (Inl e, f') \<Rightarrow> Inl e
      | (Inr u, f') \<Rightarrow> Inr (u, f',
          case up_full_suite_result u of None \<Rightarrow> [] | Some r \<Rightarrow> [Ev_Suite (effective_of s) r]))"
| "perform co now N_error_analysis s f =
     try_bind (error_analysis_node (co_error_analyzer co) now s) (\<lambda>u.
       Inr (u, f, Ev_Analysis # analysis_costs (co_error_analyzer co) now s))"
| "perform co now N_aggregate s f = try_bind (aggregate_node s) (\<lambda>u. Inr (u, f, []))"
| "perform co now N_request_approval s f = try_bind (request_approval_node s) (\<lambda>u. Inr (u, f, []))"
| "perform co now N_approval_gate s f =
     try_bind (approval_gate_node (co_decision co) s) (\<lambda>u. Inr (u, f, [Ev_Decision (co_decision co)]))"
| "perform co now N_pr_publish s f =
     (case pr_publish_node (co_pr_publisher co) s of
        (Inl e, qs) \<Rightarrow> Inl e
      | (Inr u, qs) \<Rightarrow> Inr (u, f, map Ev_Publish qs))"
| "perform co now N_budget_abort s f = try_bind (budget_abort_node now s) (\<lambda>u. Inr (u, f, []))"

definition run_node :: "collaborators \<Rightarrow> rat \<Rightarrow> rat \<Rightarrow> node \<Rightarrow> run \<Rightarrow> run" where
  "run_node co now1 now2 n r =
     (case perform co now1 n (rn_state r) (rn_files r) of
        Inl e \<Rightarrow> r\<lparr>rn_control := Crashed e\<rparr>
      | Inr (u, f', evs) \<Rightarrow>
          let s = apply_update (rn_state r) u
          in \<lparr>rn_control = (case next_of n s now1 now2 of Inl e \<Rightarrow> Crashed e | Inr c \<Rightarrow> c),
              rn_state = s, rn_files = f', rn_log = rn_log r @ evs\<rparr>)"

definition run_wave :: "collaborators \<Rightarrow> rat \<Rightarrow> rat \<Rightarrow> graph_state list \<Rightarrow> run \<Rightarrow> run" where
  "run_wave co now1 now2 sends r =
     (case try_map (editor_node (co_code_generator co) now1 now2 now1) sends of
        Inl e \<Rightarrow> r\<lparr>rn_control := Crashed e\<rparr>
      | Inr us \<Rightarrow> \<lparr>rn_control = At N_budget_reconcile, rn_state = merge_updates (rn_state r) us,
          rn_files = rn_files r,
          rn_log = rn_log r @ Ev_Dispatch (map send_id sends) #
            map (\<lambda>c. Ev_Cost c True) (concat (map update_costs us))\<rparr>)"

definition pause_run :: "run \<Rightarrow> run" where
  "pause_run r =
     (case approval_request (rn_state r) of
        Inl e \<Rightarrow> r\<lparr>rn_control := Crashed e\<rparr>
      | Inr p \<Rightarrow> r\<lparr>rn_control := Waiting_Approval, rn_log := rn_log r @ [Ev_Interrupt p]\<rparr>)"

definition advance :: "collaborators \<Rightarrow> rat \<Rightarrow> rat \<Rightarrow> run \<Rightarrow> run" where
  "advance co now1 now2 r =
     (case rn_control r of
        At n \<Rightarrow> if n = N_approval_gate then pause_run r else run_node co now1 now2 n r
      | Fanout sends \<Rightarrow> run_wave co now1 now2 sends r
      | Waiting_Approval \<Rightarrow> run_node co now1 now2 N_approval_gate r
      | Finished \<Rightarrow> r
      | Crashed e \<Rightarrow> r)"

fun drive :: "nat \<Rightarrow> collaborators \<Rightarrow> nat \<Rightarrow> run \<Rightarrow> run" where
  "drive 0 co i r = r"
| "drive (Suc n) co i r = drive n co (i + 1) (advance co (co_clock co (2 * i)) (co_clock co (2 * i + 1)) r)"

section \<open>The driver refines the step relation\<close>

lemma perform_Inr: "perform co now n s f = Inr (u, f', evs) \<Longrightarrow> node_step n s f u f' evs"
  by (cases n) (auto intro: node_step.intros split: sum.splits prod.splits)

lemma perform_Inl: "perform co now n s f = Inl e \<Longrightarrow> node_raises n s f e"
  by (cases n) (auto simp: try_bind_eq_Inl intro: node_raises.intros(1-8,10)
      intro!: node_raises.intros(9) [of "co_pr_publisher co"] split: sum.splits prod.splits)

lemma run_node_step:
  assumes "rn_control r = At n \<and> n \<noteq> N_approval_gate \<or> rn_control r = Waiting_Approval \<and> n = N_approval_gate"
  shows "step r (run_node co now1 now2 n r)"
proof (cases "perform co now1 n (rn_state r) (rn_files r)")
  case (Inl e)
  with assms show ?thesis
    by (auto simp: run_node_def intro: step.crash_node step.crash_resume perform_Inl)
next
  case (Inr x)
  obtain u f' evs where x: "x = (u, f', evs)" by (cases x) auto
  note ns = perform_Inr [OF Inr [unfolded x]]
  show ?thesis
  proof (cases "next_of n (apply_update (rn_state r) u) now1 now2")
    case nx: (Inl e)
    then have "n \<noteq> N_approval_gate" using next_after_gate [of "apply_update (rn_state r) u" now1 now2] by auto
    with nx assms Inr x show ?thesis by (auto simp: run_node_def intro: step.crash_route [OF _ _ ns])
  next
    case nx: (Inr c)
    from assms show ?thesis
    proof
      assume "rn_control r = At n \<and> n \<noteq> N_approval_gate"
      with nx Inr x show ?thesis by (auto simp: run_node_def intro: step.node [OF _ _ ns])
    next
      assume w: "rn_control r = Waiting_Approval \<and> n = N_approval_gate"
      with ns have "node_step N_approval_gate (rn_state r) (rn_files r) u f' evs" by simp
      with w nx Inr x show ?thesis by (auto simp: run_node_def intro: step.resume simp del: next_of.simps)
    qed
  qed
qed


lemma run_wave_step:
  assumes "rn_control r = Fanout sends"
  shows "step r (run_wave co now1 now2 sends r)"
proof (cases "try_map (editor_node (co_code_generator co) now1 now2 now1) sends")
  case (Inl e)
  then obtain a where "a \<in> set sends" "editor_node (co_code_generator co) now1 now2 now1 a = Inl e"
    unfolding try_map_Inl by fastforce
  with assms Inl show ?thesis by (auto simp: run_wave_def intro: step.crash_branch)
next
  case (Inr us)
  from this [unfolded try_map_Inr] have "list_all2 branch sends us"
    by (rule list_all2_mono) (auto simp: branch_def)
  from step.wave [OF assms this refl] Inr show ?thesis by (simp add: run_wave_def)
qed

lemma pause_run_step:
  assumes "rn_control r = At N_approval_gate"
  shows "step r (pause_run r)"
proof (cases "approval_request (rn_state r)")
  case (Inl e)
  then have "node_raises N_approval_gate (rn_state r) (rn_files r) e"
    by (intro node_raises.intros(8) [of "Not_A_Dict J_Null"]) (simp add: approval_gate_node_def)
  with assms Inl show ?thesis by (auto simp: pause_run_def intro: step.crash_node)
next
  case (Inr p)
  with assms show ?thesis by (auto simp: pause_run_def intro: step.pause)
qed

lemma advance_step:
  assumes "\<not> ended (rn_control r)"
  shows "step r (advance co now1 now2 r)"
proof (cases "rn_control r")
  case (At n)
  then show ?thesis
    using pause_run_step run_node_step [of r n co now1 now2] by (auto simp: advance_def)
next
  case (Fanout sends)
  then show ?thesis using run_wave_step by (simp add: advance_def)
next
  case Waiting_Approval
  then show ?thesis using run_node_step [of r N_approval_gate co now1 now2] by (simp add: advance_def)
qed (use assms in \<open>simp_all add: ended_def\<close>)

lemma advance_ended: "ended (rn_control r) \<Longrightarrow> advance co now1 now2 r = r"
  by (auto simp: advance_def ended_def)

lemma drive_steps: "steps r (drive n co i r)"
proof (induction n arbitrary: i r)
  case (Suc n)
  have "steps r (advance co (co_clock co (2 * i)) (co_clock co (2 * i + 1)) r)" (is "steps r ?r")
    using advance_step advance_ended by (metis r_into_rtranclp rtranclp.rtrancl_refl)
  also have "steps ?r (drive (Suc n) co i r)" using Suc by simp
  finally show ?case .
qed simp

lemma drive_ended: "ended (rn_control r) \<Longrightarrow> drive n co i r = r"
  by (induction n arbitrary: i) (simp_all add: advance_ended)

lemma drive_add: "drive (m + n) co i r = drive n co (i + m) (drive m co i r)"
  by (induction m arbitrary: i r) (simp_all add: add.commute add.left_commute)

section \<open>Enough fuel\<close>

text \<open>Some fuel brings every well-formed run to its end, and more fuel changes nothing.\<close>

lemma drive_ends:
  assumes "well_formed r"
  shows "\<exists>n. \<forall>m \<ge> n. ended (rn_control (drive m co i r)) \<and> drive m co i r = drive n co i r"
proof -
  have "\<exists>n. ended (rn_control (drive n co i r))" if "well_formed r" for i r
    using that
  proof (induction r arbitrary: i rule: wf_induct_rule [OF wf_measures
        [of "[\<lambda>r. stage (rn_control r), work, \<lambda>r. rank (rn_control r)]"]])
    case (1 r)
    let ?r = "advance co (co_clock co (2 * i)) (co_clock co (2 * i + 1)) r"
    show ?case
    proof (cases "ended (rn_control r)")
      case True
      then have "ended (rn_control (drive 0 co i r))" by simp
      then show ?thesis by blast
    next
      case False
      note s = advance_step [OF False, of co "co_clock co (2 * i)" "co_clock co (2 * i + 1)"]
      obtain n where "ended (rn_control (drive n co (i + 1) ?r))"
        using 1(1) [OF step_decreases [OF s 1(2)] well_formed_step [OF s 1(2)]] by blast
      then have "ended (rn_control (drive (Suc n) co i r))" by simp
      then show ?thesis by blast
    qed
  qed
  then obtain n where n: "ended (rn_control (drive n co i r))" using assms by blast
  have "drive m co i r = drive n co i r" if "n \<le> m" for m
    using drive_add [of n "m - n" co i r] drive_ended [OF n] that by simp
  with n show ?thesis by metis
qed

end
