(* ===== verification/Production.thy ===== *)
theory Production
  imports Driver
begin

text \<open>
  The collaborators that \<open>build_graph\<close> takes when it is given none: the three model clients, the Docker
  sandbox and the GitHub publisher, over an environment that stands for the settings, the models, the
  daemon, the API, the checkout and the clock. The theory follows a publication back through the graph, the workspace and
  the two containers: the published files are what lay in the workspace when pytest passed without
  network.
\<close>

section \<open>Default collaborators\<close>

text \<open>
  The daemon answers a container that sees a workspace; \<open>en_disk\<close> is what the two containers leave on the
  disk. A model is what langchain builds from the settings of a client; a request to it is numbered in
  the comprehension loop, as the driver does. \<open>en_prices\<close> is what \<open>load_prices\<close> returned at import.
\<close>

record environment =
  en_environ :: environ
  en_prices :: prices
  en_tree :: dir_tree
  en_extraction_model :: "chat_settings \<Rightarrow> nat \<Rightarrow> string \<Rightarrow> file_extraction_result raw_reply result"
  en_editor_model :: "chat_settings \<Rightarrow> string \<Rightarrow> editor_generation_result raw_reply result"
  en_analysis_model :: "chat_settings \<Rightarrow> string \<Rightarrow> error_analysis_llm_result raw_reply result"
  en_realpath :: "string \<Rightarrow> string"
  en_install :: "string \<Rightarrow> fs \<Rightarrow> container_reply"
  en_test :: "string \<Rightarrow> fs \<Rightarrow> container_reply"
  en_disk :: "string \<Rightarrow> fs \<Rightarrow> fs"
  en_api :: "publish_request \<Rightarrow> api_reply"
  en_decision :: decision
  en_clock :: "nat \<Rightarrow> rat"

text \<open>\<open>DockerSandboxRunner()\<close>, with \<open>SandboxLimits()\<close>.\<close>

definition docker_sandbox :: "environment \<Rightarrow> sandbox_runner" where
  "docker_sandbox env ws adapter f =
     (fst (docker_run (en_realpath env) default_limits ws adapter None (en_install env ws f) (en_test env ws f)),
      en_disk env ws f)"

definition default_code_generator :: "environment \<Rightarrow> string \<Rightarrow> editor_response result" where
  "default_code_generator env = editor_client (en_prices env)
     (fst (get_model (en_editor_model env) editor_settings (new_client (EDITOR_MODEL (en_environ env)))))"

definition default_error_analyzer :: "environment \<Rightarrow> string \<Rightarrow> error_analysis_response result" where
  "default_error_analyzer env = error_analysis_client (en_prices env)
     (fst (get_model (en_analysis_model env) error_analysis_settings (new_client (ERROR_ANALYSIS_MODEL (en_environ env)))))"

text \<open>\<open>ExtractionClient()\<close> and \<open>GitHubPRPublisher()\<close>.\<close>

definition default_extractor :: "environment \<Rightarrow> nat \<Rightarrow> string \<Rightarrow> extraction_response result" where
  "default_extractor env i = extraction_client (en_prices env)
     (fst (get_model (en_extraction_model env) extraction_settings (new_client (DEFAULT_MODEL (en_environ env)))) i)"

definition publisher_token :: "string option \<Rightarrow> environ \<Rightarrow> string option" where
  "publisher_token token environ = (if truthy token then token else map_of environ ''GITHUB_TOKEN'')"

definition default_pr_publisher :: "environment \<Rightarrow> pr_publisher" where
  "default_pr_publisher env q = fst (github_publish (publisher_token None (en_environ env)) (en_api env q) q)"

definition default_collaborators :: "environment \<Rightarrow> collaborators" where
  "default_collaborators env =
     \<lparr>co_tree = en_tree env,
      co_extractor = default_extractor env,
      co_code_generator = default_code_generator env,
      co_error_analyzer = default_error_analyzer env,
      co_realpath = en_realpath env,
      co_sandbox_runner = docker_sandbox env,
      co_pr_publisher = default_pr_publisher env,
      co_decision = en_decision env,
      co_clock = en_clock env\<rparr>"

section \<open>Where a suite result comes from\<close>

definition suite_ran :: "collaborators \<Rightarrow> string \<Rightarrow> file_diff list \<Rightarrow> test_result \<Rightarrow> bool" where
  "suite_ran co ws ds res \<longleftrightarrow> (\<exists>rs ts f disk written stack adapter out f'.
     ds = effective_diffs rs ts \<and> prepare_workspace (co_realpath co) ws rs ts f = (disk, Inr written) \<and>
     get_target_test_adapter stack = Inr adapter \<and>
     co_sandbox_runner co ws adapter disk = (Inr out, f') \<and> res = sr_test_result out)"

definition suites_ran :: "collaborators \<Rightarrow> string \<Rightarrow> run \<Rightarrow> bool" where
  "suites_ran co ws r \<longleftrightarrow> (\<forall>(ds, res) \<in> set (suites (rn_log r)). suite_ran co ws ds res)"

lemma perform_suites:
  assumes "perform co now n s f = Inr (u, f', evs)" "gs_config s = Some config" "(ds, res) \<in> set (suites evs)"
  shows "suite_ran co (rc_target_workspace_path config) ds res"
proof (cases "n = N_sandbox_test")
  case False
  with node_step_events(1) [OF perform_Inr [OF assms(1)]] assms(3) show ?thesis by (auto simp: suites_mem)
next
  case True
  then obtain f2 where node: "sandbox_test_node (co_realpath co) (co_sandbox_runner co) s f = (Inr u, f2)"
    and evs: "evs = (case up_full_suite_result u of None \<Rightarrow> [] | Some r \<Rightarrow> [Ev_Suite (effective_of s) r])"
    using assms(1) by (auto split: prod.splits sum.splits)
  have e: "up_full_suite_result u = Some res" "ds = effective_of s"
    using assms(3) evs by (auto split: option.splits)
  from node show ?thesis
  proof (cases rule: sandbox_cases)
    case (tested config' f1 written adapter run)
    then show ?thesis
      using e assms(2) unfolding suite_ran_def
      by (intro exI [of _ "gs_editor_results s"] exI [of _ "gs_tasks s"] exI [of _ f] exI [of _ f1] exI [of _ written]
          exI [of _ "rc_target_stack config"] exI [of _ adapter] exI [of _ run] exI [of _ f2]) simp
  qed (use e in simp_all)
qed

lemma advance_suites:
  assumes "suites_ran co (rc_target_workspace_path config) r" "gs_config (rn_state r) = Some config"
  shows "suites_ran co (rc_target_workspace_path config) (advance co now1 now2 r)"
proof -
  have "suites_ran co (rc_target_workspace_path config) (run_node co now1 now2 n r)" for n
    using assms perform_suites [of co now1 n "rn_state r" "rn_files r"]
    by (auto simp: run_node_def suites_ran_def Let_def split: sum.split prod.split)
  moreover have "suites (rn_log (run_wave co now1 now2 sends r)) = suites (rn_log r)"
    "suites (rn_log (pause_run r)) = suites (rn_log r)" for sends
    by (auto simp: run_wave_def pause_run_def split: sum.split)
  ultimately show ?thesis
    using assms(1) by (auto simp: advance_def suites_ran_def split: control.split)
qed

lemma drive_suites:
  assumes "steps (start_run config budget rounds f) r" "suites_ran co (rc_target_workspace_path config) r"
  shows "suites_ran co (rc_target_workspace_path config) (drive n co i r)"
  using assms
proof (induction n arbitrary: i r)
  case (Suc n)
  let ?r = "advance co (co_clock co (2 * i)) (co_clock co (2 * i + 1)) r"
  have "gs_config (rn_state r) = Some config"
    using ship_inv_reachable [OF Suc.prems(1)] by (simp add: ship_inv_def)
  with Suc.prems(2) have "suites_ran co (rc_target_workspace_path config) ?r" by (rule advance_suites)
  moreover have "steps r ?r" using drive_steps [of r 1 co i] by simp
  with Suc.prems(1) have "steps (start_run config budget rounds f) ?r" by (rule rtranclp_trans)
  ultimately show ?case using Suc.IH by simp
qed simp

section \<open>What pytest saw\<close>

lemma publishable_plain: "publishable_path_problem p = None \<Longrightarrow> plain_segments (py_split (CHR ''/'') p)"
  using publishable_None(5) split_no_sep by (auto simp: plain_segments_def)

text \<open>The effective files are there whatever superseded attempts wrote.\<close>

lemma effective_written:
  assumes "prepare_workspace plain_realpath ws rs ts f = (disk, Inr written)" "plain_realpath ws \<noteq> ''/''"
    and "\<forall>d \<in> set (effective_diffs rs ts). plain_segments (py_split (CHR ''/'') (fd_path d))"
    and "d \<in> set (effective_diffs rs ts)"
  shows "file_at disk (plain_realpath ws @ ''/'' @ fd_path d) = Some (fd_content d)"
proof -
  let ?full = "\<lambda>p. plain_realpath ws @ ''/'' @ p" and ?ds = "effective_diffs rs ts"
  obtain f1 where app: "apply_diffs plain_realpath ws ?ds f1 = (disk, Inr written)"
    using assms(1) by (auto simp: prepare_workspace_def split: sum.splits)
  then obtain f0 where f0: "makedirs ws f1 = Inr f0"
    by (auto simp: apply_diffs_def split: sum.splits)
  have "try_map (resolve_diff plain_realpath ws) ?ds = Inr (map (\<lambda>d. (?full (fd_path d), d)) ?ds)"
    using assms(3) resolve_plain [OF assms(2)]
    by (auto simp: try_map_Inr list_all2_map2 intro: list.rel_refl_strong)
  with app f0 have w: "write_resolved (map (\<lambda>d. (?full (fd_path d), d)) ?ds) f0 = (disk, Inr written)"
    by (simp add: apply_diffs_def)
  have "distinct (map fst (map (\<lambda>d. (?full (fd_path d), d)) ?ds))"
    using effective_paths_distinct [of rs ts] by (auto simp: distinct_map inj_on_def)
  from distinct_key_find [OF this, of "(?full (fd_path d), d)"] assms(4) write_resolved_Inr [OF w]
  show ?thesis by simp
qed

lemma registered_test_adapter: "get_target_test_adapter stack = Inr a \<Longrightarrow> a = fastapi_test_adapter"
  by (auto simp: get_target_test_adapter_def lookup_adapter_def TARGET_TEST_ADAPTERS_def Let_def split: if_splits)

lemma passed_offline:
  assumes "docker_run realpath limits ws fastapi_test_adapter tid y_install y_test = (Inr r, ev)"
    and "tr_outcome (sr_test_result r) = Out_PASSED"
  shows "cy_wait y_install = Inr (Some 0)" "cy_wait y_test = Inr (Some 0)"
    "Docker_Run (test_container realpath limits ws fastapi_test_adapter) \<in> set ev" "count_list ev Docker_Remove = 2"
proof -
  obtain out code where v: "cy_wait y_install = Inr (Some 0)"
    "ev = [Docker_Run (install_container realpath limits ws fastapi_test_adapter), Docker_Wait (sl_install_timeout_seconds limits),
          Docker_Logs, Docker_Remove,
          Docker_Run (test_container realpath limits ws fastapi_test_adapter), Docker_Wait (sl_test_timeout_seconds limits),
          Docker_Logs, Docker_Remove]"
    "cy_wait y_test = Inr (Some code) \<or> code = - 1"
    "ta_parse_test_output fastapi_test_adapter out code = (Out_PASSED, tr_failing_tests (sr_test_result r))"
    using docker_run_verdict [OF assms(1)] assms(2) by auto
  have "code = 0" using v(4) fastapi_tests.passed_iff [of out code] by (simp add: fastapi_test_adapter_def)
  then show "cy_wait y_install = Inr (Some 0)" "cy_wait y_test = Inr (Some 0)"
    "Docker_Run (test_container realpath limits ws fastapi_test_adapter) \<in> set ev" "count_list ev Docker_Remove = 2"
    using v(1-3) by auto
qed

lemma published_tested:
  assumes "q \<in> set (publications (rn_log (drive n (default_collaborators env) i (start_run config budget rounds f))))"
    and "en_realpath env = plain_realpath" "plain_realpath (rc_target_workspace_path config) \<noteq> ''/''"
  obtains disk out ev where
    "\<forall>d \<in> set (pq_files q). file_at disk (plain_realpath (rc_target_workspace_path config) @ ''/'' @ fd_path d) = Some (fd_content d)"
    "docker_run plain_realpath default_limits (rc_target_workspace_path config) fastapi_test_adapter None
       (en_install env (rc_target_workspace_path config) disk) (en_test env (rc_target_workspace_path config) disk) = (Inr out, ev)"
    "tr_outcome (sr_test_result out) = Out_PASSED"
proof -
  let ?co = "default_collaborators env" and ?ws = "rc_target_workspace_path config"
  let ?r = "drive n ?co i (start_run config budget rounds f)"
  have "publication_ok config (rn_log ?r) q"
    using ship_inv_reachable [OF drive_steps] assms(1) by (auto simp: ship_inv_def)
  then obtain res where res: "(pq_files q, res) \<in> set (suites (rn_log ?r))" "tr_outcome res = Out_PASSED"
    "\<forall>d \<in> set (pq_files q). publishable_path_problem (fd_path d) = None"
    by (auto simp: publication_ok_def last_passed_def shippable_def dest: last_in_set)
  have "suites_ran ?co ?ws ?r"
    by (rule drive_suites [OF rtranclp.rtrancl_refl]) (simp add: suites_ran_def start_run_def)
  with res(1) have "suite_ran ?co ?ws (pq_files q) res" by (auto simp: suites_ran_def)
  then obtain rs ts f0 disk written stack adapter out f' where s: "pq_files q = effective_diffs rs ts"
    "prepare_workspace plain_realpath ?ws rs ts f0 = (disk, Inr written)"
    "get_target_test_adapter stack = Inr adapter"
    "docker_sandbox env ?ws adapter disk = (Inr out, f')" "res = sr_test_result out"
    by (auto simp: suite_ran_def default_collaborators_def assms(2))
  have "\<forall>d \<in> set (pq_files q). file_at disk (plain_realpath ?ws @ ''/'' @ fd_path d) = Some (fd_content d)"
    using effective_written [OF s(2) assms(3)] publishable_plain res(3) by (simp add: s(1))
  moreover obtain ev where "docker_run plain_realpath default_limits ?ws fastapi_test_adapter None
      (en_install env ?ws disk) (en_test env ?ws disk) = (Inr out, ev)"
    using s(4) registered_test_adapter [OF s(3)] by (auto simp: docker_sandbox_def assms(2))
      (metis prod.collapse)
  ultimately show thesis using that res(2) s(5) by blast
qed

end
