(* ===== verification/Pipeline_Budget.thy ===== *)
theory Pipeline_Budget
  imports Pipeline_Termination
begin

text \<open>
  The two budgets of a run. Money and calls: every model call that the log records is charged to
  \<open>BudgetState\<close> exactly once and in order, also across parallel waves. Retries: the number of
  analyses of failed suites never exceeds the round cap.
\<close>

section \<open>The books\<close>

definition costs :: "event list \<Rightarrow> (rat \<times> bool) list" where
  "costs = List.map_filter (\<lambda>e. case e of Ev_Cost c b \<Rightarrow> Some (c, b) | _ \<Rightarrow> None)"

definition charge :: "budget_state \<Rightarrow> rat \<times> bool \<Rightarrow> budget_state" where
  "charge b x = record_call b (fst x) 1 (snd x)"

abbreviation charges :: "budget_state \<Rightarrow> (rat \<times> bool) list \<Rightarrow> budget_state" where
  "charges \<equiv> foldl charge"

lemma costs_append [simp]: "costs (xs @ ys) = costs xs @ costs ys"
  by (simp add: costs_def List.map_filter_def)

lemma costs_simps [simp]:
  "costs [] = []" "costs (Ev_Cost c b # es) = (c, b) # costs es" "costs (Ev_Dispatch ids # es) = costs es"
  "costs (Ev_Suite ds r # es) = costs es" "costs (Ev_Interrupt p # es) = costs es" "costs (Ev_Decision d # es) = costs es"
  "costs (Ev_Publish q # es) = costs es" "costs (Ev_Analysis # es) = costs es"
  by (simp_all add: costs_def List.map_filter_simps)

lemma costs_map [simp]: "costs (map (\<lambda>c. Ev_Cost c b) cs) = map (\<lambda>c. (c, b)) cs"
  by (induction cs) simp_all

lemma costs_publish [simp]: "costs (map Ev_Publish qs) = []"
  by (induction qs) simp_all

lemma charges_True: "charges b (map (\<lambda>c. (c, True)) cs) = charge_all b cs"
  by (induction cs arbitrary: b) (simp_all add: charge_def charge_all_Cons)

lemma charges_calls: "bs_llm_calls_made (charges b xs) = bs_llm_calls_made b + int (length xs)"
  by (induction xs arbitrary: b) (simp_all add: charge_def budget_simps)

lemma charges_limits: "bs_max_usd (charges b xs) = bs_max_usd b" "bs_max_llm_calls (charges b xs) = bs_max_llm_calls b"
  "bs_max_wall_clock_seconds (charges b xs) = bs_max_wall_clock_seconds b" "bs_started_at (charges b xs) = bs_started_at b"
  by (induction xs arbitrary: b) (simp_all add: charge_def budget_simps)

lemma charges_spent: "bs_spent_usd (charges b xs) = foldl fadd (bs_spent_usd b) (map fst xs)"
  by (induction xs arbitrary: b) (simp_all add: charge_def budget_simps)

text \<open>Deltas that no reconciliation has folded in yet.\<close>

definition pending :: "graph_state \<Rightarrow> rat list" where
  "pending s = drop (gs_budget_deltas_consumed s) (gs_budget_deltas s)"

definition in_books :: "budget_state \<Rightarrow> graph_state \<Rightarrow> event list \<Rightarrow> bool" where
  "in_books b0 s events \<longleftrightarrow> gs_budget_deltas_consumed s \<le> length (gs_budget_deltas s) \<and>
     (\<exists>charged. costs events = charged @ map (\<lambda>c. (c, True)) (pending s) \<and> gs_budget s = Some (charges b0 charged))"

lemma settled: "in_books b0 s es \<Longrightarrow> pending s = [] \<Longrightarrow> gs_budget s = Some (charges b0 (costs es))"
  by (auto simp: in_books_def)

lemma analysis_costs_update:
  assumes "error_analysis_node analyzer now s = Inr u"
  shows "(up_budget u = None \<and> analysis_costs analyzer now s = []) \<or>
    (\<exists>b cost. gs_budget s = Some b \<and> up_budget u = Some (record_call b cost 1 True) \<and>
       analysis_costs analyzer now s = [Ev_Cost cost True])"
proof -
  obtain b where b: "gs_budget s = Some b" using assms by (auto simp: error_analysis_node_def)
  note node = assms [unfolded error_analysis_node_def b need_simps(2) try_bind_simps(2)]
  show ?thesis
  proof (cases "gs_full_suite_result s")
    case None
    with node show ?thesis by (auto simp: b analysis_costs_def)
  next
    case t: (Some t)
    show ?thesis
    proof (cases "candidate_tasks s = [] \<or> is_exhausted b now")
      case True
      with node show ?thesis by (auto simp: b t analysis_costs_def split: if_splits)
    next
      case False
      with node show ?thesis
        by (cases "analyzer (build_analysis_prompt t (candidate_tasks s) (gs_editor_results s))")
          (auto simp: b t analysis_costs_def)
    qed
  qed
qed

lemma books_node:
  assumes ns: "node_step n s f u f' evs" and books: "in_books b0 s es" and late: "n \<noteq> N_budget_reconcile \<Longrightarrow> pending s = []"
  shows "in_books b0 (apply_update s u) (es @ evs)" "pending (apply_update s u) = []"
proof -
  have fr: "up_budget_deltas u = None" "n \<noteq> N_budget_reconcile \<longrightarrow> up_budget_deltas_consumed u = None"
    "n \<notin> {N_comprehension, N_budget_reconcile, N_error_analysis} \<longrightarrow> up_budget u = None"
    using node_step_frame [OF ns] by (auto simp: node_frame_def)
  have le: "gs_budget_deltas_consumed s \<le> length (gs_budget_deltas s)" using books by (simp add: in_books_def)
  have plain: "in_books b0 (apply_update s u) (es @ evs) \<and> pending (apply_update s u) = []"
    if "n \<noteq> N_budget_reconcile" "overwrite_opt (gs_budget s) (up_budget u) = Some (charges b0 (costs es @ costs evs))"
    using that fr late [OF that(1)] le by (simp add: in_books_def pending_def)
  have keep: "overwrite_opt (gs_budget s) (up_budget u) = Some (charges b0 (costs es @ costs evs))"
    if "n \<noteq> N_budget_reconcile" "up_budget u = None" "costs evs = []"
    using that settled [OF books late] by simp
  have add: "overwrite_opt (gs_budget s) (up_budget u) = Some (charges b0 (costs es @ costs evs))"
    if "n \<noteq> N_budget_reconcile" "gs_budget s = Some b" "up_budget u = Some (record_call b c 1 t)" "costs evs = [(c, t)]" for b c t
    using that settled [OF books late] by (simp add: charge_def)
  have "in_books b0 (apply_update s u) (es @ evs) \<and> pending (apply_update s u) = []"
  proof (cases n)
    case N_comprehension
    with ns obtain tree extractor now where c: "comprehension_node tree extractor now s = Inr u"
      and evs: "evs = comprehension_costs tree extractor now s" by (auto elim: node_step_comprehension)
    have cfg: "gs_config s \<noteq> None" using c by (auto simp: comprehension_node_def need_def split: option.splits)
    from c show ?thesis
    proof (cases rule: comprehension_node_cases)
      case (1 b)
      then have "costs evs = []" using cfg by (auto simp: evs comprehension_costs_def)
      then show ?thesis using N_comprehension 1 by (intro plain keep) simp_all
    next
      case (2 b config r cost errs calls)
      then have "costs evs = [(cost, False)]" by (simp add: evs comprehension_costs_def)
      then show ?thesis using N_comprehension 2 by (intro plain add) simp_all
    qed
  next
    case N_budget_reconcile
    with ns have c: "budget_reconcile_node s = Inr u" and evs: "evs = []" by (auto elim: node_step_reconcile)
    obtain charged where ch: "costs es = charged @ map (\<lambda>c. (c, True)) (pending s)" "gs_budget s = Some (charges b0 charged)"
      using books by (auto simp: in_books_def)
    have u: "u = no_update\<lparr>up_budget := Some (charge_all (charges b0 charged) (pending s)),
        up_budget_deltas_consumed := Some (length (gs_budget_deltas s))\<rparr>"
      using c ch(2) by (simp add: budget_reconcile_node_def pending_def Let_def)
    show ?thesis
      by (simp add: in_books_def pending_def u no_update_def evs) (simp add: ch charges_True pending_def)
  next
    case N_error_analysis
    with ns obtain analyzer now where c: "error_analysis_node analyzer now s = Inr u"
      and evs: "evs = Ev_Analysis # analysis_costs analyzer now s" by (auto elim: node_step_analysis)
    from analysis_costs_update [OF c] show ?thesis
    proof
      assume "up_budget u = None \<and> analysis_costs analyzer now s = []"
      then show ?thesis using N_error_analysis by (intro plain keep) (simp_all add: evs)
    next
      assume "\<exists>b cost. gs_budget s = Some b \<and> up_budget u = Some (record_call b cost 1 True) \<and>
        analysis_costs analyzer now s = [Ev_Cost cost True]"
      then show ?thesis using N_error_analysis by (elim exE conjE) (intro plain add, simp_all add: evs)
    qed
  next
    case N_synthesis
    then have "evs = []" using ns by (auto elim: node_step_synthesis)
    then show ?thesis using N_synthesis fr by (intro plain keep) simp_all
  next
    case N_sandbox_test
    then have "costs evs = []" using ns by (auto elim!: node_step_sandbox split: option.split)
    then show ?thesis using N_sandbox_test fr by (intro plain keep) simp_all
  next
    case N_aggregate
    then have "evs = []" using ns by (auto elim: node_step_aggregate)
    then show ?thesis using N_aggregate fr by (intro plain keep) simp_all
  next
    case N_request_approval
    then have "evs = []" using ns by (auto elim: node_step_request)
    then show ?thesis using N_request_approval fr by (intro plain keep) simp_all
  next
    case N_approval_gate
    then have "costs evs = []" using ns by (auto elim!: node_step_gate)
    then show ?thesis using N_approval_gate fr by (intro plain keep) simp_all
  next
    case N_pr_publish
    then have "costs evs = []" using ns by (auto elim!: node_step_publish)
    then show ?thesis using N_pr_publish fr by (intro plain keep) simp_all
  next
    case N_budget_abort
    then have "evs = []" using ns by (auto elim: node_step_abort)
    then show ?thesis using N_budget_abort fr by (intro plain keep) simp_all
  qed
  then show "in_books b0 (apply_update s u) (es @ evs)" "pending (apply_update s u) = []" by simp_all
qed

definition books_inv :: "budget_state \<Rightarrow> run \<Rightarrow> bool" where
  "books_inv b0 r \<longleftrightarrow> in_books b0 (rn_state r) (rn_log r) \<and>
     (rn_control r = At N_budget_reconcile \<or> (\<exists>e. rn_control r = Crashed e) \<or> pending (rn_state r) = [])"

lemma next_not_reconcile: "next_of n s now1 now2 = Inr c \<Longrightarrow> c \<noteq> At N_budget_reconcile"
  by (cases n) (auto simp: dispatch_def dest!: follow_no_fanout split: sum.splits route.splits if_splits)

lemma books_inv_step:
  assumes "step r r'" "books_inv b0 r"
  shows "books_inv b0 r'"
proof -
  have b: "in_books b0 (rn_state r) (rn_log r)" using assms(2) by (simp add: books_inv_def)
  from assms(1) show ?thesis
  proof (cases rule: step.cases)
    case (node n u f' evs now1 now2 c)
    have "n \<noteq> N_budget_reconcile \<Longrightarrow> pending (rn_state r) = []"
      using assms(2) node(2) by (auto simp: books_inv_def)
    from books_node [OF node(4) b this] show ?thesis by (simp add: books_inv_def node(1))
  next
    case (wave sends us us')
    have fr: "\<forall>u \<in> set us'. branch_frame u" using branches_frame wave(3,4) by blast
    have "pending (rn_state r) = []" using assms(2) wave(2) by (auto simp: books_inv_def)
    then have p: "pending (merge_updates (rn_state r) us') = concat (map update_costs us')"
      using b by (simp add: pending_def in_books_def merge_updates_frame [OF fr])
    have "in_books b0 (merge_updates (rn_state r) us')
        (rn_log r @ Ev_Dispatch (map send_id sends) # map (\<lambda>c. Ev_Cost c True) (concat (map update_costs us')))"
      using b \<open>pending (rn_state r) = []\<close> unfolding in_books_def p
      by (simp add: merge_updates_frame [OF fr] del: map_concat)
    then show ?thesis by (simp add: books_inv_def wave(1))
  next
    case (pause p)
    then show ?thesis using assms(2) by (auto simp: books_inv_def in_books_def)
  next
    case (resume u f' evs now1 now2 c)
    have "N_approval_gate \<noteq> N_budget_reconcile \<Longrightarrow> pending (rn_state r) = []"
      using assms(2) resume(2) by (auto simp: books_inv_def)
    from books_node [OF resume(3) b this] show ?thesis by (simp add: books_inv_def resume(1))
  next
    case (crash_route n u f' evs now1 now2 e)
    have "n \<noteq> N_budget_reconcile \<Longrightarrow> pending (rn_state r) = []"
      using assms(2) crash_route(2) by (auto simp: books_inv_def)
    from books_node [OF crash_route(4) b this] show ?thesis by (simp add: books_inv_def crash_route(1))
  qed (use b in \<open>simp_all add: books_inv_def\<close>)
qed

lemma books_inv_start: "books_inv b0 (start_run config b0 rounds f)"
  by (simp add: books_inv_def start_run_def fresh_state_def empty_state_def in_books_def pending_def)

lemma books_reachable: "steps (start_run config b0 rounds f) r \<Longrightarrow> books_inv b0 r"
  by (rule steps_invariant [where I = "books_inv b0"]) (auto intro: books_inv_start books_inv_step)

section \<open>Dispatch is gated by the budget\<close>

text \<open>
  A fanout starts only from a budget that is not exhausted, and a fanout of more than one branch
  fits into what is left at the largest call cost seen so far.
\<close>

lemma fanout_budget:
  assumes "next_of n s now1 now2 = Inr (Fanout sends)" "gs_budget s = Some b" "budget_ok b"
  shows "\<not> is_exhausted b now1" "int (length sends) \<le> int (length (get_ready_tasks (gs_tasks s)))"
    "1 < length sends \<Longrightarrow> of_nat (length sends) * call_reserve b \<le> fadd (remaining_usd b) epsilon"
proof -
  let ?ready = "get_ready_tasks (gs_tasks s)"
  have r: "route_to_editors s now1 now2 = Inr (Sends sends)" by (rule next_of_fanout(4) [OF assms(1)])
  then have ne: "?ready \<noteq> []" and ex: "\<not> is_exhausted b now1"
    using assms(2) by (auto simp: route_to_editors_def Let_def split: if_splits)
  obtain k where k: "affordable_calls b (int (length ?ready)) now2 = Inr k"
    "try_map (make_send s) (take (nat k) ?ready) = Inr sends"
    using r ne ex assms(2) by (auto simp: route_to_editors_def Let_def)
  have len: "length sends = length (take (nat k) ?ready)"
    using list_all2_lengthD [OF k(2) [unfolded try_map_Inr]] by simp
  show "\<not> is_exhausted b now1" by (rule ex)
  show "int (length sends) \<le> int (length ?ready)" using len by simp
  have "k \<le> int (length ?ready)" "0 \<le> k" using affordable_calls_range [OF k(1)] by auto
  with len have k': "int (length sends) = k" by simp
  show "of_nat (length sends) * call_reserve b \<le> fadd (remaining_usd b) epsilon" if "1 < length sends"
  proof -
    have "of_int k * call_reserve b \<le> fadd (remaining_usd b) epsilon"
      using affordable_calls_fit [OF assms(3) k(1)] k' that by simp
    then show ?thesis by (simp flip: k')
  qed
qed

section \<open>The number of analyses\<close>

definition analyses :: "event list \<Rightarrow> nat" where
  "analyses events = length (filter (\<lambda>e. e = Ev_Analysis) events)"

lemma analyses_append [simp]: "analyses (xs @ ys) = analyses xs + analyses ys"
  by (simp add: analyses_def)

lemma analyses_none: "Ev_Analysis \<notin> set es \<Longrightarrow> analyses es = 0"
  by (auto simp: analyses_def filter_empty_conv)

definition round_cap :: "int option \<Rightarrow> int" where
  "round_cap rounds = (case rounds of None \<Rightarrow> DEFAULT_MAX_RETRY_ROUNDS
     | Some n \<Rightarrow> if n = 0 then DEFAULT_MAX_RETRY_ROUNDS else n)"

lemma max_rounds_cap: "max_rounds s = round_cap (gs_max_retry_rounds s)"
  by (simp add: max_rounds_def round_cap_def)

definition rounds_inv :: "int option \<Rightarrow> run \<Rightarrow> bool" where
  "rounds_inv rounds r \<longleftrightarrow> gs_max_retry_rounds (rn_state r) = rounds \<and>
     gs_retry_round (rn_state r) = int (analyses (rn_log r)) \<and>
     gs_retry_round (rn_state r) \<le> max 1 (round_cap rounds) \<and>
     (\<not> ended (rn_control r) \<longrightarrow> gs_retry_round (rn_state r) < max 1 (round_cap rounds)) \<and>
     (rn_control r \<in> {At N_sandbox_test, At N_error_analysis} \<longrightarrow> get_ready_tasks (gs_tasks (rn_state r)) = [])"

lemma next_to_sandbox:
  "next_of n s now1 now2 = Inr (At N_sandbox_test) \<Longrightarrow> get_ready_tasks (gs_tasks s) = []"
  by (cases n) (auto simp: dispatch_def follow_def route_names route_no_ready_iff [unfolded route_names]
      split: sum.splits route.splits if_splits)

lemma next_to_analysis: "next_of n s now1 now2 = Inr (At N_error_analysis) \<Longrightarrow> n = N_sandbox_test"
  by (cases n) (auto simp: dispatch_def dest!: follow_no_fanout split: sum.splits route.splits if_splits)

lemma next_needs_ready:
  "next_of N_error_analysis s now1 now2 = Inr c \<Longrightarrow> \<not> ended c \<Longrightarrow> get_ready_tasks (gs_tasks s) \<noteq> []"
  by (auto simp: dispatch_def ended_def follow_def route_to_editors_def split: sum.splits route.splits if_splits)

text \<open>In the last round an analysis makes no task ready.\<close>

lemma last_round_ready:
  assumes "distinct (map mt_id ts)" "get_ready_tasks ts = []"
    and "\<And>t. t \<in> set ts \<Longrightarrow> g t = t \<or> judged False t (g t)"
  shows "get_ready_tasks (map g ts) = []"
proof (rule ccontr)
  assume "get_ready_tasks (map g ts) \<noteq> []"
  then obtain x where x: "x \<in> set (get_ready_tasks (map g ts))" by (meson hd_in_set)
  have "mt_id (g t) = mt_id t" if "t \<in> set ts" for t
    using assms(3) [OF that] by (auto simp: judged_def same_task_def)
  then have ids: "map mt_id (map g ts) = map mt_id ts" by simp
  have d: "distinct (map mt_id (map g ts))" unfolding ids by (rule assms(1))
  from x [unfolded get_ready_tasks_iff [OF d]] obtain t where t: "t \<in> set ts" "x = g t"
    and st: "mt_status (g t) \<in> {St_PENDING, St_RETRYING}"
    and deps: "\<forall>i \<in> set (mt_depends_on_task_ids (g t)). \<exists>e \<in> set ts. mt_id (g e) = i \<and> mt_status (g e) = St_SUCCEEDED"
    by auto
  have same: "g e = e" if "e \<in> set ts" "mt_status (g e) \<in> {St_PENDING, St_RETRYING, St_SUCCEEDED}" for e
    using assms(3) [OF that(1)] that(2) by (auto simp: judged_def)
  have "g t = t" using same t(1) st by blast
  moreover have "\<exists>e \<in> set ts. mt_id e = i \<and> mt_status e = St_SUCCEEDED" if "i \<in> set (mt_depends_on_task_ids (g t))" for i
    using deps that same by (metis insertCI)
  ultimately have "t \<in> set (get_ready_tasks ts)"
    unfolding get_ready_tasks_iff [OF assms(1)] using t(1) st by simp
  with assms(2) show False by simp
qed

lemma rounds_inv_step:
  assumes "step r r'" "rounds_inv rounds r" "well_formed r"
  shows "rounds_inv rounds r'"
proof -
  let ?s = "rn_state r"
  have inv: "gs_max_retry_rounds ?s = rounds" "gs_retry_round ?s = int (analyses (rn_log r))"
    "gs_retry_round ?s \<le> max 1 (round_cap rounds)"
    "\<not> ended (rn_control r) \<Longrightarrow> gs_retry_round ?s < max 1 (round_cap rounds)"
    "rn_control r \<in> {At N_sandbox_test, At N_error_analysis} \<Longrightarrow> get_ready_tasks (gs_tasks ?s) = []"
    using assms(2) by (auto simp: rounds_inv_def)
  have other: "gs_retry_round (apply_update ?s u) = gs_retry_round ?s \<and> analyses (rn_log r @ evs) = analyses (rn_log r)"
    if "node_step n ?s (rn_files r) u f' evs" "n \<noteq> N_error_analysis" for n u f' evs
    using node_step_frame [OF that(1)] node_step_events(5) [OF that(1,2)] that(2)
    by (simp add: node_frame_def analyses_none)
  have analysis: "gs_retry_round (apply_update ?s u) = gs_retry_round ?s + 1 \<and>
      analyses (rn_log r @ evs) = analyses (rn_log r) + 1"
    if ns: "node_step N_error_analysis ?s (rn_files r) u f' evs" for u f' evs
  proof -
    obtain analyzer now where "evs = Ev_Analysis # analysis_costs analyzer now ?s"
      using ns by (elim node_step_analysis) blast
    moreover have "Ev_Analysis \<notin> set (analysis_costs analyzer now ?s)"
      by (auto simp: analysis_costs_def split: option.splits if_splits sum.splits)
    ultimately show ?thesis
      using node_step_frame [OF ns] analyses_none by (simp add: node_frame_def analyses_def)
  qed
  from assms(1) show ?thesis
  proof (cases rule: step.cases)
    case (node n u f' evs now1 now2 c)
    show ?thesis
    proof (cases "n = N_error_analysis")
      case True
      then have a: "gs_retry_round (apply_update ?s u) = gs_retry_round ?s + 1" "analyses (rn_log r @ evs) = analyses (rn_log r) + 1"
        using analysis node(4) by blast+
      have lt: "gs_retry_round ?s < max 1 (round_cap rounds)" using inv(4) node(2) by (simp add: ended_def)
      have "gs_retry_round ?s + 1 < round_cap rounds" if "\<not> ended c"
      proof (rule ccontr)
        assume "\<not> ?thesis"
        then have no: "\<not> gs_retry_round ?s + 1 < max_rounds ?s" by (simp add: max_rounds_cap inv(1))
        obtain analyzer now where e: "error_analysis_node analyzer now ?s = Inr u"
          using node(4) True by (auto elim: node_step_analysis)
        have d: "distinct (map mt_id (gs_tasks ?s))" using assms(3) by (simp add: well_formed_def tasks_distinct_def)
        from analysis_tasks_map [OF d e] obtain g where g: "gs_tasks (apply_update ?s u) = map g (gs_tasks ?s)"
          "\<And>t. t \<in> set (gs_tasks ?s) \<Longrightarrow> g t = t \<or> judged False t (g t)"
          using no by auto
        have "get_ready_tasks (gs_tasks (apply_update ?s u)) = []"
          unfolding g(1) using last_round_ready [OF d _ g(2)] inv(5) node(2) True by simp
        with next_needs_ready [OF node(5) [unfolded True] that] show False by simp
      qed
      moreover have "c \<notin> {At N_sandbox_test, At N_error_analysis}"
        using node(5) unfolding True
        by (auto simp: dispatch_def dest!: follow_no_fanout split: sum.splits route.splits if_splits)
      ultimately show ?thesis using a lt inv(1,2) by (auto simp: rounds_inv_def node(1) simp del: apply_update_simps(16))
    next
      case False
      have "get_ready_tasks (gs_tasks (apply_update ?s u)) = []" if "c \<in> {At N_sandbox_test, At N_error_analysis}"
      proof (cases "c = At N_sandbox_test")
        case True
        then show ?thesis using next_to_sandbox [OF node(5) [unfolded True]] by blast
      next
        case False
        with that node(5) have "n = N_sandbox_test" using next_to_analysis by auto
        moreover from this have "gs_tasks (apply_update ?s u) = gs_tasks ?s" using node_step_tasks [OF node(4)] by simp
        ultimately show ?thesis using inv(5) node(2) by simp
      qed
      then show ?thesis
        using other [OF node(4) False] inv node(2) by (auto simp: rounds_inv_def node(1) ended_def simp del: apply_update_simps(6,16))
    qed
  next
    case (wave sends us us')
    have fr: "\<forall>u \<in> set us'. branch_frame u" using branches_frame wave(3,4) by blast
    have "analyses (Ev_Dispatch (map send_id sends) # map (\<lambda>c. Ev_Cost c True) (concat (map update_costs us'))) = 0"
      by (rule analyses_none) auto
    then show ?thesis
      using inv wave(2) by (simp add: rounds_inv_def wave(1) merge_updates_frame [OF fr] ended_def)
  next
    case (pause p)
    then show ?thesis using inv by (simp add: rounds_inv_def ended_def analyses_def)
  next
    case (resume u f' evs now1 now2 c)
    have "c = At N_pr_publish \<or> c = Finished" using resume(4) by (auto dest!: follow_no_fanout)
    then show ?thesis
      using other [OF resume(3)] inv resume(2)
      by (auto simp: rounds_inv_def resume(1) ended_def simp del: apply_update_simps(16))
  next
    case (crash_node n e)
    then show ?thesis using inv by (simp add: rounds_inv_def ended_def)
  next
    case (crash_route n u f' evs now1 now2 e)
    show ?thesis
    proof (cases "n = N_error_analysis")
      case True
      then show ?thesis
        using analysis [OF crash_route(4) [unfolded True]] inv crash_route(2)
        by (auto simp: rounds_inv_def crash_route(1) ended_def simp del: apply_update_simps(16))
    next
      case False
      then show ?thesis
        using other [OF crash_route(4) False] inv
        by (auto simp: rounds_inv_def crash_route(1) ended_def simp del: apply_update_simps(16))
    qed
  next
    case (crash_branch sends a generator now1 now2 produced e)
    then show ?thesis using inv by (simp add: rounds_inv_def ended_def)
  next
    case (crash_resume e)
    then show ?thesis using inv by (simp add: rounds_inv_def ended_def)
  qed
qed

lemma rounds_inv_start: "rounds_inv rounds (start_run config b0 rounds f)"
  by (auto simp: rounds_inv_def start_run_def fresh_state_def empty_state_def analyses_def max_def)

lemma rounds_reachable: "steps (start_run config b0 rounds f) r \<Longrightarrow> rounds_inv rounds r \<and> well_formed r"
  by (rule steps_invariant [where I = "\<lambda>r. rounds_inv rounds r \<and> well_formed r"])
    (auto intro: rounds_inv_start rounds_inv_step well_formed_start well_formed_step)

end
