(* ===== verification/Api.thy ===== *)
theory Api
  imports Worker Pipeline_Safety Pipeline_Termination
begin

text \<open>
  \<open>app/api\<close>: authentication, the status response, submission, and the decision on a paused run.
  A compiled graph with its checkpointer is a store of runs by thread id; \<open>aget_state\<close> reads it and
  \<open>ainvoke(Command(resume))\<close> continues a run. The locale \<open>resumable\<close> states what the routes need of
  the graph; \<open>resume_run\<close>, the gate and the publishing node executed on the model, interprets it.
  Concurrent requests for one run are a transition system around the per-run lock.
\<close>

section \<open>Authentication (\<open>auth.py\<close>)\<close>

definition load_api_key :: "environ \<Rightarrow> string option result" where
  "load_api_key environ =
     (if truthy (map_of environ ''STACKMIGRATE_API_KEY'') then Inr (map_of environ ''STACKMIGRATE_API_KEY'')
      else if map_of environ ''STACKMIGRATE_ALLOW_NO_AUTH'' = Some ''1'' then Inr None
      else Inl (RuntimeError (''STACKMIGRATE_API_KEY is not set. Set it to a long random secret ''
        @ ''(e.g. `python -c '' @ [CHR 0x22] @ ''import secrets; print(secrets.token_urlsafe(32))'' @ [CHR 0x22] @ ''`). ''
        @ ''For local development only, STACKMIGRATE_ALLOW_NO_AUTH=1 disables authentication.'')))"

text \<open>An \<open>HTTPException\<close>: status code and detail.\<close>

type_synonym http_error = "nat \<times> string"

definition require_api_key :: "string option \<Rightarrow> string option \<Rightarrow> http_error + unit" where
  "require_api_key api_key x_api_key =
     (case api_key of
        None \<Rightarrow> Inr ()
      | Some key \<Rightarrow>
          (case x_api_key of
             None \<Rightarrow> Inl (401, ''Invalid or missing API key'')
           | Some given \<Rightarrow> if given \<noteq> key then Inl (401, ''Invalid or missing API key'') else Inr ()))"

section \<open>Status (\<open>app.py\<close>, \<open>schemas.py\<close>)\<close>

record task_summary =
  ts_id :: string
  ts_status :: string
  ts_target_files :: "string list"
  ts_retry_count :: int

record pending_approval =
  pa_title :: string
  pa_body :: string
  pa_branch_name :: string
  pa_files :: "string list"

record migration_status_response =
  ms_run_id :: string
  ms_phase :: "string option"
  ms_tasks :: "task_summary list"
  ms_budget_spent_usd :: "rat option"
  ms_budget_max_usd :: "rat option"
  ms_budget_llm_calls_made :: "int option"
  ms_budget_max_llm_calls :: "int option"
  ms_budget_max_wall_clock_seconds :: "int option"
  ms_full_suite_outcome :: "string option"
  ms_pr_draft :: "(string \<times> string) option" \<comment> \<open>title, branch name\<close>
  ms_pr_url :: "string option"
  ms_approval_status :: "string option"
  ms_human_feedback :: "string option"
  ms_pending_approval :: "pending_approval option"
  ms_error_log_tail :: "string list"

text \<open>A snapshot: the state, and the nodes that run next.\<close>

definition is_awaiting_approval :: "run \<Rightarrow> bool" where
  "is_awaiting_approval r \<longleftrightarrow> rn_control r = At N_approval_gate \<or> rn_control r = Waiting_Approval"

definition state_to_status_response :: "string \<Rightarrow> graph_state \<Rightarrow> bool \<Rightarrow> migration_status_response" where
  "state_to_status_response run_id s awaiting_approval =
     \<lparr>ms_run_id = run_id,
      ms_phase = map_option phase_value (gs_phase s),
      ms_tasks = map (\<lambda>t. \<lparr>ts_id = mt_id t, ts_status = status_value (mt_status t),
        ts_target_files = map tf_path (mt_target_files t), ts_retry_count = mt_retry_count t\<rparr>) (gs_tasks s),
      ms_budget_spent_usd = map_option bs_spent_usd (gs_budget s),
      ms_budget_max_usd = map_option bs_max_usd (gs_budget s),
      ms_budget_llm_calls_made = map_option bs_llm_calls_made (gs_budget s),
      ms_budget_max_llm_calls = map_option bs_max_llm_calls (gs_budget s),
      ms_budget_max_wall_clock_seconds = map_option bs_max_wall_clock_seconds (gs_budget s),
      ms_full_suite_outcome = map_option (\<lambda>r. outcome_value (tr_outcome r)) (gs_full_suite_result s),
      ms_pr_draft = map_option (\<lambda>d. (pd_title d, pd_branch_name d)) (gs_pr_draft s),
      ms_pr_url = gs_pr_url s,
      ms_approval_status = gs_approval_status s,
      ms_human_feedback = gs_human_feedback s,
      ms_pending_approval = (if awaiting_approval
        then map_option (\<lambda>d. \<lparr>pa_title = pd_title d, pa_body = pd_body d, pa_branch_name = pd_branch_name d,
               pa_files = gs_aggregated_diff_paths s\<rparr>) (gs_pr_draft s)
        else None),
      ms_error_log_tail = drop (length (gs_error_log s) - 20) (gs_error_log s)\<rparr>"

type_synonym run_store = "(string \<times> run) list"

definition not_found :: "string \<Rightarrow> http_error" where
  "not_found run_id = (404, ''No migration run found with id '' @ [CHR 0x27] @ run_id @ [CHR 0x27])"

definition get_migration_status :: "run_store \<Rightarrow> string \<Rightarrow> http_error + migration_status_response" where
  "get_migration_status store run_id =
     (case map_of store run_id of
        None \<Rightarrow> Inl (not_found run_id)
      | Some r \<Rightarrow> Inr (state_to_status_response run_id (rn_state r) (is_awaiting_approval r)))"

text \<open>\<open>submit_migration\<close>: the identifier, and the message handed to the queue.\<close>

definition submit_migration :: "string \<Rightarrow> migration_request \<Rightarrow> (string \<times> string) \<times> (string \<times> migration_request)" where
  "submit_migration uuid_hex payload =
     (let run_id = ''run-'' @ take 12 uuid_hex in ((run_id, ''queued''), (run_id, payload)))"

section \<open>Decisions\<close>

record approve_response =
  ar_run_id :: string
  ar_phase :: "string option"
  ar_pr_url :: "string option"

definition make_decision :: "bool \<Rightarrow> string option \<Rightarrow> decision" where
  "make_decision approved feedback = Decision_Dict (Some (J_Bool approved)) feedback"

definition optional_repr :: "string option \<Rightarrow> string" where
  "optional_repr v = (case v of None \<Rightarrow> ''None'' | Some s \<Rightarrow> py_repr s)"

definition not_awaiting :: "string \<Rightarrow> graph_state \<Rightarrow> http_error" where
  "not_awaiting run_id s = (409, ''Run '' @ [CHR 0x27] @ run_id @ [CHR 0x27]
     @ '' is not awaiting approval (current phase: '' @ optional_repr (map_option phase_value (gs_phase s)) @ '').'')"

text \<open>
  The body of the lock: the snapshot is read and checked, then \<open>graph.ainvoke(Command(resume=decision))\<close>,
  the parameter \<open>resume\<close>, continues the run; an exception out of it is a 500.
\<close>

definition check_run :: "string \<Rightarrow> run_store \<Rightarrow> http_error + run" where
  "check_run run_id store =
     (case map_of store run_id of
        None \<Rightarrow> Inl (not_found run_id)
      | Some r \<Rightarrow> if \<not> is_awaiting_approval r then Inl (not_awaiting run_id (rn_state r)) else Inr r)"

definition resume_reply :: "string \<Rightarrow> run \<Rightarrow> http_error + approve_response" where
  "resume_reply run_id r =
     (case rn_control r of
        Crashed e \<Rightarrow> Inl (500, ''Internal Server Error'')
      | _ \<Rightarrow> Inr \<lparr>ar_run_id = run_id, ar_phase = map_option phase_value (gs_phase (rn_state r)),
               ar_pr_url = gs_pr_url (rn_state r)\<rparr>)"

definition decide ::
  "(decision \<Rightarrow> run \<Rightarrow> run) \<Rightarrow> string \<Rightarrow> bool \<Rightarrow> string option \<Rightarrow> run_store \<Rightarrow>
     (http_error + approve_response) \<times> run_store" where
  "decide resume run_id approved feedback store =
     (case check_run run_id store of
        Inl e \<Rightarrow> (Inl e, store)
      | Inr r \<Rightarrow> let r' = resume (make_decision approved feedback) r
                 in (resume_reply run_id r', dict_put run_id r' store))"

definition approve_migration where
  "approve_migration resume run_id feedback store = decide resume run_id True feedback store"

definition reject_migration where
  "reject_migration resume run_id feedback store = decide resume run_id False feedback store"

section \<open>The graph as the routes see it\<close>

locale resumable =
  fixes resume :: "decision \<Rightarrow> run \<Rightarrow> run"
  assumes resume_steps: "rn_control r = Waiting_Approval \<Longrightarrow> steps r (resume d r)"
    and resume_ends: "rn_control r = Waiting_Approval \<Longrightarrow> ended (rn_control (resume d r))"
    and resume_completes: "rn_control r = Waiting_Approval \<Longrightarrow> gs_config (rn_state r) = Some config \<Longrightarrow>
      gs_pr_draft (rn_state r) = Some draft \<Longrightarrow>
      rn_control (resume d r) = Finished \<and> (\<exists>qs. rn_log (resume d r) = rn_log r @ Ev_Decision d # map Ev_Publish qs)"
begin

text \<open>A decided run is not awaiting approval any more, so a second decision is a conflict.\<close>

lemma ended_not_awaiting: "ended (rn_control r) \<Longrightarrow> \<not> is_awaiting_approval r"
  by (auto simp: ended_def is_awaiting_approval_def)

lemma decide_first:
  assumes "map_of store run_id = Some r" "rn_control r = Waiting_Approval"
    and "decide resume run_id a f store = (out, store')"
  shows "out = resume_reply run_id (resume (make_decision a f) r)"
    "store' = dict_put run_id (resume (make_decision a f) r) store"
  using assms by (auto simp: decide_def check_run_def is_awaiting_approval_def Let_def)

lemma decide_ended:
  assumes "map_of store run_id = Some r" "ended (rn_control r)"
  shows "decide resume run_id a f store = (Inl (not_awaiting run_id (rn_state r)), store)"
  using assms ended_not_awaiting by (auto simp: decide_def check_run_def)

lemma decide_twice:
  assumes "map_of store run_id = Some r" "rn_control r = Waiting_Approval"
    and "gs_config (rn_state r) = Some config" "gs_pr_draft (rn_state r) = Some draft"
    and "decide resume run_id a1 f1 store = (out1, store1)" "decide resume run_id a2 f2 store1 = (out2, store2)"
  shows "\<exists>resp. out1 = Inr resp" "\<exists>msg. out2 = Inl (409, msg)" "store2 = store1"
proof -
  let ?r = "resume (make_decision a1 f1) r"
  note first = decide_first [OF assms(1,2,5)]
  show "\<exists>resp. out1 = Inr resp"
    using resume_completes [OF assms(2-4), of "make_decision a1 f1"] by (simp add: first(1) resume_reply_def)
  have "map_of store1 run_id = Some ?r" by (simp add: first(2) update_conv)
  then have "decide resume run_id a2 f2 store1 = (Inl (not_awaiting run_id (rn_state ?r)), store1)"
    using resume_ends [OF assms(2)] by (rule decide_ended)
  then show "\<exists>msg. out2 = Inl (409, msg)" "store2 = store1"
    using assms(6) by (auto simp: not_awaiting_def)
qed

end

text \<open>The resumed run, executed: the gate, its edge, and the publishing node.\<close>

definition resume_run :: "pr_publisher \<Rightarrow> decision \<Rightarrow> run \<Rightarrow> run" where
  "resume_run publisher d r =
     (case approval_gate_node d (rn_state r) of
        Inl e \<Rightarrow> r\<lparr>rn_control := Crashed e\<rparr>
      | Inr u \<Rightarrow>
          let s = apply_update (rn_state r) u; events = rn_log r @ [Ev_Decision d]
          in if route_after_approval s = APPROVED
             then (case pr_publish_node publisher s of
                     (Inl e, qs) \<Rightarrow> \<lparr>rn_control = Crashed e, rn_state = s, rn_files = rn_files r, rn_log = events\<rparr>
                   | (Inr u', qs) \<Rightarrow> \<lparr>rn_control = Finished, rn_state = apply_update s u',
                       rn_files = rn_files r, rn_log = events @ map Ev_Publish qs\<rparr>)
             else \<lparr>rn_control = Finished, rn_state = s, rn_files = rn_files r, rn_log = events\<rparr>)"

lemma gate_total: "gs_pr_draft s = Some draft \<Longrightarrow> \<exists>u. approval_gate_node d s = Inr u"
  by (auto simp: approval_gate_node_def approval_request_def need_def Let_def)

lemma publish_total: "gs_config s = Some config \<Longrightarrow> \<exists>u. fst (pr_publish_node publisher s) = Inr u"
  by (auto simp: pr_publish_node_def need_def truthy_def Let_def split: option.split)

interpretation resumed: resumable "resume_run publisher" for publisher
proof
  fix r :: run and d
  assume w: "rn_control r = Waiting_Approval"
  let ?s = "rn_state r"
  show "ended (rn_control (resume_run publisher d r))"
    by (auto simp: resume_run_def ended_def Let_def split: sum.split prod.split)
  show "steps r (resume_run publisher d r)"
  proof (cases "approval_gate_node d ?s")
    case (Inl e)
    then have "step r (r\<lparr>rn_control := Crashed e\<rparr>)"
      by (intro crash_resume [OF w] node_raises.intros)
    with Inl show ?thesis by (simp add: resume_run_def)
  next
    case (Inr u)
    let ?s' = "apply_update ?s u"
    have ns: "node_step N_approval_gate ?s (rn_files r) u (rn_files r) [Ev_Decision d]"
      using Inr by (rule node_step.gate)
    show ?thesis
    proof (cases "gs_approval_status ?s' = Some ''approved''")
      case False
      have "step r \<lparr>rn_control = Finished, rn_state = ?s', rn_files = rn_files r, rn_log = rn_log r @ [Ev_Decision d]\<rparr>"
        using False by (intro resume [OF w ns]) (simp only: next_after_gate if_False)
      moreover have "resume_run publisher d r =
          \<lparr>rn_control = Finished, rn_state = ?s', rn_files = rn_files r, rn_log = rn_log r @ [Ev_Decision d]\<rparr>"
        using Inr False by (simp add: resume_run_def Let_def route_after_approval_def route_names)
      ultimately show ?thesis by (simp only: r_into_rtranclp)
    next
      case True
      let ?r1 = "\<lparr>rn_control = At N_pr_publish, rn_state = ?s', rn_files = rn_files r, rn_log = rn_log r @ [Ev_Decision d]\<rparr>"
      have s1: "step r ?r1"
        using True by (intro resume [OF w ns]) (simp only: next_after_gate if_True simp_thms)
      obtain out qs where p: "pr_publish_node publisher ?s' = (out, qs)" by fastforce
      show ?thesis
      proof (cases out)
        case (Inl e)
        then have "step ?r1 (?r1\<lparr>rn_control := Crashed e\<rparr>)"
          using p by (intro crash_node [of _ N_pr_publish]) (auto intro!: node_raises.intros(9) [of publisher])
        with s1 have "steps r (?r1\<lparr>rn_control := Crashed e\<rparr>)" by simp
        then show ?thesis
          using Inr True Inl p by (simp add: resume_run_def Let_def route_after_approval_def route_names)
      next
        case (Inr u')
        then have "node_step N_pr_publish ?s' (rn_files r) u' (rn_files r) (map Ev_Publish qs)"
          using p by (intro node_step.publish) simp
        then have "step ?r1 \<lparr>rn_control = Finished, rn_state = apply_update (rn_state ?r1) u', rn_files = rn_files r,
            rn_log = rn_log ?r1 @ map Ev_Publish qs\<rparr>"
          by (intro step.node [where n = N_pr_publish]) simp_all
        then have "step ?r1 \<lparr>rn_control = Finished, rn_state = apply_update ?s' u', rn_files = rn_files r,
            rn_log = (rn_log r @ [Ev_Decision d]) @ map Ev_Publish qs\<rparr>" by simp
        with s1 have "steps r \<lparr>rn_control = Finished, rn_state = apply_update ?s' u', rn_files = rn_files r,
            rn_log = (rn_log r @ [Ev_Decision d]) @ map Ev_Publish qs\<rparr>" by (intro rtranclp.rtrancl_into_rtrancl [OF r_into_rtranclp])
        then show ?thesis
          using \<open>approval_gate_node d ?s = Inr u\<close> True Inr p
          by (simp add: resume_run_def Let_def route_after_approval_def route_names)
      qed
    qed
  qed
  show "rn_control (resume_run publisher d r) = Finished \<and>
      (\<exists>qs. rn_log (resume_run publisher d r) = rn_log r @ Ev_Decision d # map Ev_Publish qs)"
    if a: "gs_config ?s = Some config" "gs_pr_draft ?s = Some draft" for config draft
  proof -
    obtain u where u: "approval_gate_node d ?s = Inr u" using gate_total [OF a(2)] by blast
    obtain u' where "fst (pr_publish_node publisher (apply_update ?s u)) = Inr u'"
      using publish_total [of "apply_update ?s u" config] a(1) by auto
    with u show ?thesis
      by (cases "pr_publish_node publisher (apply_update ?s u)")
        (auto simp: resume_run_def Let_def intro: exI [of _ "[]"])
  qed
qed

end
