(* ===== verification/Shapes.thy ===== *)
theory Shapes
  imports Api
begin

text \<open>
  Values as the routes find them in a checkpoint. \<open>_field\<close> and \<open>_enum_value\<close> accept a pydantic model
  or a plain dictionary, an enum member or its value; \<open>status_response\<close> is \<open>_state_to_status_response\<close>
  over such values, and the theory shows that it yields the typed status response of the theory
  \<open>Api\<close> in whichever shape the checkpointer hands the state back. The list of types that the
  serializer may rebuild is compared with the types the state can hold.
\<close>

section \<open>Values\<close>

datatype pyval =
    P_None | P_Bool bool | P_Str string | P_Int int | P_Float rat
  | P_Enum string \<comment> \<open>a member, by its value\<close>
  | P_List "pyval list"
  | P_Dict "(string \<times> pyval) list"
  | P_Model "(string \<times> pyval) list" \<comment> \<open>a pydantic model, by its fields\<close>

fun truth :: "pyval \<Rightarrow> bool" where
  "truth P_None = False"
| "truth (P_Bool b) = b"
| "truth (P_Str s) = (s \<noteq> [])"
| "truth (P_Int n) = (n \<noteq> 0)"
| "truth (P_Float x) = (x \<noteq> 0)"
| "truth (P_Enum v) = True"
| "truth (P_List xs) = (xs \<noteq> [])"
| "truth (P_Dict kv) = (kv \<noteq> [])"
| "truth (P_Model kv) = True"

definition lookup_or :: "pyval \<Rightarrow> string \<Rightarrow> (string \<times> pyval) list \<Rightarrow> pyval" where
  "lookup_or alt name kv = (case map_of kv name of None \<Rightarrow> alt | Some v \<Rightarrow> v)"

text \<open>\<open>_field\<close>; a value that is neither a model nor a dictionary has none of the fields asked for.\<close>

definition field :: "pyval \<Rightarrow> string \<Rightarrow> pyval \<Rightarrow> pyval" where
  "field obj name alt =
     (case obj of
        P_None \<Rightarrow> alt
      | P_Dict kv \<Rightarrow> lookup_or alt name kv
      | P_Model kv \<Rightarrow> lookup_or alt name kv
      | _ \<Rightarrow> alt)"

definition enum_value :: "pyval \<Rightarrow> pyval \<Rightarrow> pyval" where
  "enum_value x alt = (case x of P_None \<Rightarrow> alt | P_Enum v \<Rightarrow> P_Str v | _ \<Rightarrow> x)"

definition items :: "pyval \<Rightarrow> pyval list" where
  "items v = (case v of P_List xs \<Rightarrow> xs | _ \<Rightarrow> [])"

section \<open>The status, over values\<close>

text \<open>\<open>values.get(...)\<close> on the snapshot's dictionary.\<close>

abbreviation get_value :: "(string \<times> pyval) list \<Rightarrow> string \<Rightarrow> pyval" where
  "get_value values name \<equiv> lookup_or P_None name values"

definition task_summary_of :: "pyval \<Rightarrow> (string \<times> pyval) list" where
  "task_summary_of t =
     [(''id'', field t ''id'' P_None),
      (''status'', enum_value (field t ''status'' P_None) P_None),
      (''target_files'', P_List (map (\<lambda>tf. field tf ''path'' P_None) (items (field t ''target_files'' P_None)))),
      (''retry_count'', field t ''retry_count'' (P_Int 0))]"

definition status_response :: "string \<Rightarrow> (string \<times> pyval) list \<Rightarrow> bool \<Rightarrow> (string \<times> pyval) list" where
  "status_response run_id values awaiting_approval =
     (let tasks = items (lookup_or (P_List []) ''tasks'' values);
          budget = get_value values ''budget'';
          pr_draft_obj = get_value values ''pr_draft'';
          pr_draft = (if truth pr_draft_obj
            then P_Model [(''title'', field pr_draft_obj ''title'' P_None),
                          (''branch_name'', field pr_draft_obj ''branch_name'' P_None)]
            else P_None);
          pending = (if awaiting_approval \<and> truth pr_draft_obj
            then P_Model [(''title'', field pr_draft_obj ''title'' P_None),
                          (''body'', field pr_draft_obj ''body'' P_None),
                          (''branch_name'', field pr_draft_obj ''branch_name'' P_None),
                          (''files'', P_List (items (get_value values ''aggregated_diff_paths'')))]
            else P_None);
          full_suite = get_value values ''full_suite_result'';
          error_log = items (get_value values ''error_log'')
      in [(''run_id'', P_Str run_id),
          (''phase'', enum_value (get_value values ''phase'') P_None),
          (''tasks'', P_List (map (\<lambda>t. P_Model (task_summary_of t)) tasks)),
          (''budget_spent_usd'', field budget ''spent_usd'' P_None),
          (''budget_max_usd'', field budget ''max_usd'' P_None),
          (''budget_llm_calls_made'', field budget ''llm_calls_made'' P_None),
          (''budget_max_llm_calls'', field budget ''max_llm_calls'' P_None),
          (''budget_max_wall_clock_seconds'', field budget ''max_wall_clock_seconds'' P_None),
          (''full_suite_outcome'', enum_value (field full_suite ''outcome'' P_None) P_None),
          (''pr_draft'', pr_draft),
          (''pr_url'', get_value values ''pr_url''),
          (''approval_status'', get_value values ''approval_status''),
          (''human_feedback'', get_value values ''human_feedback''),
          (''pending_approval'', pending),
          (''error_log_tail'', P_List (drop (length error_log - 20) error_log))])"

section \<open>A state in a shape\<close>

text \<open>
  A shape says what becomes of a model and of an enum member on the way through the checkpointer:
  unchanged, or a dictionary and the plain value.
\<close>

record shape =
  sh_object :: "(string \<times> pyval) list \<Rightarrow> pyval"
  sh_enum :: "string \<Rightarrow> pyval"

definition faithful :: "shape \<Rightarrow> bool" where
  "faithful sh \<longleftrightarrow> (sh_object sh = P_Model \<or> sh_object sh = P_Dict) \<and> (sh_enum sh = P_Enum \<or> sh_enum sh = P_Str)"

definition strings :: "string list \<Rightarrow> pyval" where
  "strings xs = P_List (map P_Str xs)"

definition task_value :: "shape \<Rightarrow> migration_task \<Rightarrow> pyval" where
  "task_value sh t = sh_object sh
     [(''id'', P_Str (mt_id t)), (''source_unit_ids'', strings (mt_source_unit_ids t)),
      (''target_files'', P_List (map (\<lambda>tf. sh_object sh [(''path'', P_Str (tf_path tf)), (''purpose'', P_Str (tf_purpose tf))])
         (mt_target_files t))),
      (''depends_on_task_ids'', strings (mt_depends_on_task_ids t)),
      (''synthesis_instructions'', P_Str (mt_synthesis_instructions t)),
      (''status'', sh_enum sh (status_value (mt_status t))),
      (''retry_count'', P_Int (mt_retry_count t)), (''max_retries'', P_Int (mt_max_retries t))]"

definition budget_value :: "shape \<Rightarrow> budget_state \<Rightarrow> pyval" where
  "budget_value sh b = sh_object sh
     [(''max_usd'', P_Float (bs_max_usd b)), (''spent_usd'', P_Float (bs_spent_usd b)),
      (''max_llm_calls'', P_Int (bs_max_llm_calls b)), (''llm_calls_made'', P_Int (bs_llm_calls_made b)),
      (''max_wall_clock_seconds'', P_Int (bs_max_wall_clock_seconds b)),
      (''started_at'', P_Float (bs_started_at b)), (''max_call_cost_usd'', P_Float (bs_max_call_cost_usd b)),
      (''default_call_reserve_usd'', P_Float (bs_default_call_reserve_usd b))]"

definition draft_value :: "shape \<Rightarrow> pr_draft \<Rightarrow> pyval" where
  "draft_value sh d = sh_object sh
     [(''title'', P_Str (pd_title d)), (''body'', P_Str (pd_body d)),
      (''branch_name'', P_Str (pd_branch_name d)), (''commit_message'', P_Str (pd_commit_message d))]"

definition suite_value :: "shape \<Rightarrow> test_result \<Rightarrow> pyval" where
  "suite_value sh r = sh_object sh
     [(''task_id'', case tr_task_id r of None \<Rightarrow> P_None | Some i \<Rightarrow> P_Str i),
      (''outcome'', sh_enum sh (outcome_value (tr_outcome r))), (''raw_output'', P_Str (tr_raw_output r)),
      (''failing_tests'', strings (tr_failing_tests r)), (''duration_seconds'', P_Float (tr_duration_seconds r))]"

text \<open>A channel without a value is absent from the snapshot.\<close>

definition channel_value :: "string \<Rightarrow> ('a \<Rightarrow> pyval) \<Rightarrow> 'a option \<Rightarrow> (string \<times> pyval) list" where
  "channel_value name f v = (case v of None \<Rightarrow> [] | Some x \<Rightarrow> [(name, f x)])"

text \<open>The channels that the status reads.\<close>

definition state_values :: "shape \<Rightarrow> graph_state \<Rightarrow> (string \<times> pyval) list" where
  "state_values sh s =
     channel_value ''phase'' (\<lambda>p. sh_enum sh (phase_value p)) (gs_phase s) @
     (''tasks'', P_List (map (task_value sh) (gs_tasks s))) #
     channel_value ''budget'' (budget_value sh) (gs_budget s) @
     channel_value ''pr_draft'' (draft_value sh) (gs_pr_draft s) @
     channel_value ''full_suite_result'' (suite_value sh) (gs_full_suite_result s) @
     channel_value ''pr_url'' P_Str (gs_pr_url s) @
     channel_value ''approval_status'' P_Str (gs_approval_status s) @
     channel_value ''human_feedback'' P_Str (gs_human_feedback s) @
     [(''aggregated_diff_paths'', strings (gs_aggregated_diff_paths s)), (''error_log'', strings (gs_error_log s))]"

section \<open>The typed response, as values\<close>

definition optional :: "('a \<Rightarrow> pyval) \<Rightarrow> 'a option \<Rightarrow> pyval" where
  "optional f v = (case v of None \<Rightarrow> P_None | Some x \<Rightarrow> f x)"

definition response_values :: "migration_status_response \<Rightarrow> (string \<times> pyval) list" where
  "response_values m =
     [(''run_id'', P_Str (ms_run_id m)),
      (''phase'', optional P_Str (ms_phase m)),
      (''tasks'', P_List (map (\<lambda>t. P_Model [(''id'', P_Str (ts_id t)), (''status'', P_Str (ts_status t)),
         (''target_files'', strings (ts_target_files t)), (''retry_count'', P_Int (ts_retry_count t))]) (ms_tasks m))),
      (''budget_spent_usd'', optional P_Float (ms_budget_spent_usd m)),
      (''budget_max_usd'', optional P_Float (ms_budget_max_usd m)),
      (''budget_llm_calls_made'', optional P_Int (ms_budget_llm_calls_made m)),
      (''budget_max_llm_calls'', optional P_Int (ms_budget_max_llm_calls m)),
      (''budget_max_wall_clock_seconds'', optional P_Int (ms_budget_max_wall_clock_seconds m)),
      (''full_suite_outcome'', optional P_Str (ms_full_suite_outcome m)),
      (''pr_draft'', optional (\<lambda>(title, branch). P_Model [(''title'', P_Str title), (''branch_name'', P_Str branch)]) (ms_pr_draft m)),
      (''pr_url'', optional P_Str (ms_pr_url m)),
      (''approval_status'', optional P_Str (ms_approval_status m)),
      (''human_feedback'', optional P_Str (ms_human_feedback m)),
      (''pending_approval'', optional (\<lambda>p. P_Model [(''title'', P_Str (pa_title p)), (''body'', P_Str (pa_body p)),
         (''branch_name'', P_Str (pa_branch_name p)), (''files'', strings (pa_files p))]) (ms_pending_approval m)),
      (''error_log_tail'', strings (ms_error_log_tail m))]"

section \<open>The shape does not matter\<close>

lemma field_object [simp]: "faithful sh \<Longrightarrow> field (sh_object sh kv) name d = lookup_or d name kv"
  by (auto simp: faithful_def field_def)

lemma enum_value_shape [simp]: "faithful sh \<Longrightarrow> enum_value (sh_enum sh v) d = P_Str v"
  by (auto simp: faithful_def enum_value_def)

lemma truth_object [simp]: "faithful sh \<Longrightarrow> kv \<noteq> [] \<Longrightarrow> truth (sh_object sh kv)"
  by (auto simp: faithful_def)

lemma lookup_or_simps [simp]:
  "lookup_or d name [] = d"
  "lookup_or d name ((k, v) # kv) = (if k = name then v else lookup_or d name kv)"
  "lookup_or d name (channel_value k f c @ kv) =
     (if k = name then (case c of None \<Rightarrow> lookup_or d name kv | Some x \<Rightarrow> f x) else lookup_or d name kv)"
  by (auto simp: lookup_or_def channel_value_def split: option.split)

lemma items_simps [simp]: "items (P_List xs) = xs" "items (strings ss) = map P_Str ss" "items P_None = []"
  by (simp_all add: items_def strings_def)

lemma field_none [simp]: "field P_None name d = d" and enum_value_none [simp]: "enum_value P_None d = d"
  by (simp_all add: field_def enum_value_def)

lemma task_summary_shape:
  assumes "faithful sh"
  shows "task_summary_of (task_value sh t) =
    [(''id'', P_Str (mt_id t)), (''status'', P_Str (status_value (mt_status t))),
     (''target_files'', strings (map tf_path (mt_target_files t))), (''retry_count'', P_Int (mt_retry_count t))]"
  using assms by (simp add: task_summary_of_def task_value_def strings_def)

text \<open>The channels, one by one.\<close>

lemma state_channels:
  "get_value (state_values sh s) ''phase'' = optional (\<lambda>p. sh_enum sh (phase_value p)) (gs_phase s)"
  "lookup_or (P_List []) ''tasks'' (state_values sh s) = P_List (map (task_value sh) (gs_tasks s))"
  "get_value (state_values sh s) ''budget'' = optional (budget_value sh) (gs_budget s)"
  "get_value (state_values sh s) ''pr_draft'' = optional (draft_value sh) (gs_pr_draft s)"
  "get_value (state_values sh s) ''full_suite_result'' = optional (suite_value sh) (gs_full_suite_result s)"
  "get_value (state_values sh s) ''pr_url'' = optional P_Str (gs_pr_url s)"
  "get_value (state_values sh s) ''approval_status'' = optional P_Str (gs_approval_status s)"
  "get_value (state_values sh s) ''human_feedback'' = optional P_Str (gs_human_feedback s)"
  "get_value (state_values sh s) ''aggregated_diff_paths'' = strings (gs_aggregated_diff_paths s)"
  "get_value (state_values sh s) ''error_log'' = strings (gs_error_log s)"
  by (simp_all add: state_values_def optional_def split: option.split)

lemma optional_fields:
  assumes "faithful sh"
  shows "enum_value (optional (\<lambda>p. sh_enum sh (g p)) v) P_None = optional P_Str (map_option g v)"
    and "field (optional (budget_value sh) b) ''spent_usd'' P_None = optional P_Float (map_option bs_spent_usd b)"
    and "field (optional (budget_value sh) b) ''max_usd'' P_None = optional P_Float (map_option bs_max_usd b)"
    and "field (optional (budget_value sh) b) ''llm_calls_made'' P_None = optional P_Int (map_option bs_llm_calls_made b)"
    and "field (optional (budget_value sh) b) ''max_llm_calls'' P_None = optional P_Int (map_option bs_max_llm_calls b)"
    and "field (optional (budget_value sh) b) ''max_wall_clock_seconds'' P_None =
      optional P_Int (map_option bs_max_wall_clock_seconds b)"
    and "enum_value (field (optional (suite_value sh) r) ''outcome'' P_None) P_None =
      optional P_Str (map_option (\<lambda>r. outcome_value (tr_outcome r)) r)"
  using assms by (simp_all add: optional_def budget_value_def suite_value_def split: option.split)

lemma status_any_shape:
  assumes "faithful sh"
  shows "status_response run_id (state_values sh s) aw = response_values (state_to_status_response run_id s aw)"
proof (cases "gs_pr_draft s")
  case None
  then show ?thesis
    using assms
    by (simp add: status_response_def response_values_def state_to_status_response_def state_channels
        optional_fields [OF assms] task_summary_shape Let_def comp_def optional_def [of _ None] strings_def drop_map)
next
  case (Some d)
  then show ?thesis
    using assms
    by (simp add: status_response_def response_values_def state_to_status_response_def state_channels
        optional_fields [OF assms] task_summary_shape Let_def comp_def optional_def [of _ "Some _"] optional_def [of _ None]
        draft_value_def strings_def drop_map)
qed

section \<open>Types the serializer may rebuild\<close>

text \<open>The public names of the state package, each with the kind of class it names.\<close>

datatype class_kind = Base_Model | Enum_Class | Typed_Dict

definition state_exports :: "(string \<times> class_kind) list" where
  "state_exports =
    [(''BudgetState'', Base_Model), (''MigrationPhase'', Enum_Class), (''SemanticUnitKind'', Enum_Class),
     (''TaskStatus'', Enum_Class), (''TestOutcome'', Enum_Class), (''GraphState'', Typed_Dict),
     (''MigrationRunConfig'', Typed_Dict), (''ComprehensionResult'', Base_Model), (''DataModelUnit'', Base_Model),
     (''EndpointUnit'', Base_Model), (''PRDraft'', Base_Model), (''FieldSpec'', Base_Model),
     (''MiddlewareUnit'', Base_Model), (''ParameterSpec'', Base_Model), (''RepositoryUnit'', Base_Model),
     (''SemanticUnit'', Base_Model), (''ServiceUnit'', Base_Model), (''ErrorAnalysis'', Base_Model),
     (''EditorResult'', Base_Model), (''FileDiff'', Base_Model), (''MigrationTask'', Base_Model),
     (''TargetFileSpec'', Base_Model), (''TestResult'', Base_Model)]"

text \<open>\<open>state_serde\<close> keeps the models and the enums.\<close>

definition allowed_types :: "string list" where
  "allowed_types = map fst (filter (\<lambda>(name, kind). kind = Base_Model \<or> kind = Enum_Class) state_exports)"

text \<open>The project classes in the annotations of the channels and of the models' fields.\<close>

definition channel_classes :: "string list" where
  "channel_classes = [''MigrationPhase'', ''ComprehensionResult'', ''MigrationTask'', ''EditorResult'', ''TestResult'',
     ''ErrorAnalysis'', ''PRDraft'', ''BudgetState'']"

definition unit_field_classes :: "(string \<times> string list) list" where
  "unit_field_classes =
    [(''DataModelUnit'', [''FieldSpec'']), (''EndpointUnit'', [''ParameterSpec'']),
     (''SemanticUnit'', [''SemanticUnitKind'', ''EndpointUnit'', ''ServiceUnit'', ''DataModelUnit'', ''RepositoryUnit'',
        ''MiddlewareUnit'']),
     (''ComprehensionResult'', [''SemanticUnit''])]"

definition task_field_classes :: "(string \<times> string list) list" where
  "task_field_classes =
    [(''MigrationTask'', [''TargetFileSpec'', ''TaskStatus'']), (''EditorResult'', [''FileDiff'']),
     (''TestResult'', [''TestOutcome''])]"

definition field_classes :: "string \<Rightarrow> string list" where
  "field_classes c = (case map_of (unit_field_classes @ task_field_classes) c of None \<Rightarrow> [] | Some cs \<Rightarrow> cs)"

text \<open>The classes reachable in so many steps; a set of them that is closed contains every class a checkpoint holds.\<close>

definition add_fields :: "string list \<Rightarrow> string list" where
  "add_fields cs = remdups (cs @ concat (map field_classes cs))"

definition checkpoint_classes :: "string list" where
  "checkpoint_classes = add_fields (add_fields (add_fields channel_classes))"

inductive_set occurring :: "string set" where
  channel: "c \<in> set channel_classes \<Longrightarrow> c \<in> occurring"
| inside: "c \<in> occurring \<Longrightarrow> d \<in> set (field_classes c) \<Longrightarrow> d \<in> occurring"

lemma checkpoint_closed:
  "set channel_classes \<subseteq> set checkpoint_classes"
  "list_all (\<lambda>c. list_all (\<lambda>d. d \<in> set checkpoint_classes) (field_classes c)) checkpoint_classes"
  "list_all (\<lambda>c. c \<in> set allowed_types) checkpoint_classes"
  by code_simp+

lemma occurring_allowed: "c \<in> occurring \<Longrightarrow> c \<in> set allowed_types"
proof -
  assume "c \<in> occurring"
  then have "c \<in> set checkpoint_classes"
    by induction (use checkpoint_closed(1,2) in \<open>auto simp: list_all_iff\<close>)
  then show ?thesis using checkpoint_closed(3) by (simp add: list_all_iff)
qed

end
