(* ===== verification/Observability.thy ===== *)
theory Observability
  imports Shapes
begin

text \<open>
  \<open>app/core/observability.py\<close>: the wrapper of the nodes, the log line it writes and the JSON object the
  formatter makes of it, the set-up of the logger and the configuration of an invocation. Clock
  readings are arguments; \<open>json.dumps\<close> is the standard library's. The lemmas: the wrapper hands on what
  the node did, its fields neither collide with a reserved attribute nor with the formatter's own
  fields, and the logger is set up once.
\<close>

section \<open>The wrapper\<close>

text \<open>What a wrapped node can do: return, be interrupted, raise.\<close>

datatype node_outcome = Returned state_update | Interrupted | Raised py_exn

record node_log =
  nl_event :: string
  nl_run_id :: "string option"
  nl_node :: string
  nl_task_id :: "string option"
  nl_phase :: "string option"
  nl_cost_delta_usd :: rat
  nl_budget :: "(rat \<times> rat \<times> int) option" \<comment> \<open>spent, remaining, calls\<close>

definition round4 :: "rat \<Rightarrow> rat" where
  "round4 x = fl (of_int (round_even (x * 10 ^ 4)) / 10 ^ 4)"

definition budget_snapshot :: "budget_state option \<Rightarrow> (rat \<times> rat \<times> int) option" where
  "budget_snapshot b = map_option (\<lambda>b. (round4 (bs_spent_usd b), round4 (remaining_usd b), bs_llm_calls_made b)) b"

definition observed_node ::
  "string \<Rightarrow> (graph_state \<Rightarrow> node_outcome) \<Rightarrow> graph_state \<Rightarrow> node_outcome \<times> node_log" where
  "observed_node name fn s =
     (let base = \<lparr>nl_event = '''', nl_run_id = map_option rc_run_id (gs_config s), nl_node = name,
            nl_task_id = map_option mt_id (gs_current_task s), nl_phase = None, nl_cost_delta_usd = 0,
            nl_budget = None\<rparr>
      in case fn s of
           Interrupted \<Rightarrow> (Interrupted, base\<lparr>nl_event := ''node_interrupted''\<rparr>)
         | Raised e \<Rightarrow> (Raised e, base\<lparr>nl_event := ''node_failed''\<rparr>)
         | Returned u \<Rightarrow> (Returned u, base\<lparr>nl_event := ''node_finished'',
             nl_phase := map_option phase_value (case up_phase u of Some p \<Rightarrow> Some p | None \<Rightarrow> gs_phase s),
             nl_cost_delta_usd := round4 (foldl fadd 0 (case up_budget_deltas u of None \<Rightarrow> [] | Some ds \<Rightarrow> ds)),
             nl_budget := budget_snapshot (case up_budget u of Some b \<Rightarrow> Some b | None \<Rightarrow> gs_budget s)\<rparr>))"

lemma observed_transparent: "fst (observed_node name fn s) = fn s"
  by (simp add: observed_node_def Let_def split: node_outcome.split)

section \<open>Log lines\<close>

text \<open>The \<open>extra\<close> of a line: the base fields, and those of a node that finished.\<close>

definition optional_str :: "string option \<Rightarrow> pyval" where
  "optional_str v = (case v of None \<Rightarrow> P_None | Some s \<Rightarrow> P_Str s)"

definition node_extra :: "node_log \<Rightarrow> int \<Rightarrow> (string \<times> pyval) list" where
  "node_extra l duration_ms =
     [(''run_id'', optional_str (nl_run_id l)), (''node'', P_Str (nl_node l)),
      (''task_id'', optional_str (nl_task_id l)), (''duration_ms'', P_Int duration_ms)] @
     (if nl_event l = ''node_finished''
      then [(''phase'', optional_str (nl_phase l)), (''cost_delta_usd'', P_Float (nl_cost_delta_usd l))] @
        (case nl_budget l of None \<Rightarrow> []
         | Some (spent, remaining, calls) \<Rightarrow>
             [(''budget_spent_usd'', P_Float spent), (''budget_remaining_usd'', P_Float remaining),
              (''llm_calls_made'', P_Int calls)])
      else [])"

text \<open>A log record: its own attributes and those passed by \<open>extra\<close>, in one dictionary.\<close>

record log_record =
  lg_time :: string
  lg_levelname :: string
  lg_message :: string
  lg_attributes :: "(string \<times> pyval) list"
  lg_exception :: "string option"

definition RESERVED :: "string list" where
  "RESERVED = [''name'', ''msg'', ''args'', ''levelname'', ''levelno'', ''pathname'', ''filename'', ''module'',
     ''exc_info'', ''exc_text'', ''stack_info'', ''lineno'', ''funcName'', ''created'', ''msecs'',
     ''relativeCreated'', ''thread'', ''threadName'', ''processName'', ''process'', ''taskName'', ''message'', ''asctime'']"

definition format_payload :: "log_record \<Rightarrow> (string \<times> pyval) list" where
  "format_payload record =
     (let payload = [(''ts'', P_Str (lg_time record)), (''level'', P_Str (lg_levelname record)),
            (''event'', P_Str (lg_message record))];
          payload = foldl (\<lambda>d (k, v). dict_put k v d) payload
            (filter (\<lambda>(k, v). k \<notin> set RESERVED) (lg_attributes record))
      in case lg_exception record of None \<Rightarrow> payload | Some exc \<Rightarrow> dict_put ''exc'' (P_Str exc) payload)"

lemma put_all_lookup:
  "distinct (map fst kvs) \<Longrightarrow>
   map_of (foldl (\<lambda>d (k, v). dict_put k v d) d kvs) j = (case map_of kvs j of None \<Rightarrow> map_of d j | Some v \<Rightarrow> Some v)"
proof (induction kvs arbitrary: d)
  case (Cons kv kvs)
  have "map_of kvs (fst kv) = None" using Cons.prems by (simp add: map_of_eq_None_iff)
  then show ?case using Cons by (cases kv) (auto simp: update_conv split: option.split)
qed simp

lemma node_extra_keys:
  "distinct (map fst (node_extra l ms))"
  "fst ` set (node_extra l ms) \<inter> (set RESERVED \<union> {''ts'', ''level'', ''event'', ''exc''}) = {}"
  by (auto simp: node_extra_def RESERVED_def split: option.split prod.split)

text \<open>The attributes of the record itself are reserved names, so the line holds the extra fields and its three own.\<close>

lemma node_line:
  assumes "lg_attributes rec = own @ node_extra l ms" "fst ` set own \<subseteq> set RESERVED"
  shows "(k, v) \<in> set (node_extra l ms) \<Longrightarrow> map_of (format_payload rec) k = Some v"
    and "map_of (format_payload rec) ''event'' = Some (P_Str (lg_message rec))"
    and "map_of (format_payload rec) ''level'' = Some (P_Str (lg_levelname rec))"
proof -
  have kept: "filter (\<lambda>(k, v). k \<notin> set RESERVED) (lg_attributes rec) = node_extra l ms"
  proof -
    have "filter (\<lambda>(k, v). k \<notin> set RESERVED) own = []"
      using assms(2) by (force simp: filter_empty_conv)
    moreover have "filter (\<lambda>(k, v). k \<notin> set RESERVED) (node_extra l ms) = node_extra l ms"
      using node_extra_keys(2) [of l ms] by (intro filter_True) force
    ultimately show ?thesis by (simp add: assms(1))
  qed
  have other: "map_of (node_extra l ms) j = None" if "j \<in> {''ts'', ''level'', ''event'', ''exc''}" for j
    using node_extra_keys(2) [of l ms] that unfolding map_of_eq_None_iff by blast
  have line: "map_of (format_payload rec) j =
      (case map_of (node_extra l ms) j of None \<Rightarrow>
         map_of [(''ts'', P_Str (lg_time rec)), (''level'', P_Str (lg_levelname rec)), (''event'', P_Str (lg_message rec))] j
       | Some v \<Rightarrow> Some v)" if "j \<noteq> ''exc''" for j
    using that put_all_lookup [OF node_extra_keys(1)]
    by (simp only: format_payload_def Let_def kept) (simp add: update_conv split: option.split)
  show "map_of (format_payload rec) k = Some v" if "(k, v) \<in> set (node_extra l ms)"
  proof -
    have "k \<in> fst ` set (node_extra l ms)" using that by (rule image_eqI [rotated]) simp
    then have k: "k \<noteq> ''exc''" using node_extra_keys(2) [of l ms] by blast
    have "map_of (node_extra l ms) k = Some v"
      using that by (simp only: map_of_eq_Some_iff [OF node_extra_keys(1)])
    with line [OF k] show ?thesis by (simp only: option.case)
  qed
  show "map_of (format_payload rec) ''event'' = Some (P_Str (lg_message rec))"
    "map_of (format_payload rec) ''level'' = Some (P_Str (lg_levelname rec))"
    using line other by simp_all
qed

section \<open>The logger\<close>

datatype formatter = Json_Formatter | Other_Formatter

record logger_state =
  lo_handlers :: "formatter option list"
  lo_level :: int
  lo_propagate :: bool

definition configure_logging :: "int \<Rightarrow> logger_state \<Rightarrow> logger_state" where
  "configure_logging level lg =
     (if Some Json_Formatter \<in> set (lo_handlers lg) then lg
      else lg\<lparr>lo_handlers := lo_handlers lg @ [Some Json_Formatter], lo_level := level, lo_propagate := False\<rparr>)"

lemma configure_once:
  "configure_logging level' (configure_logging level lg) = configure_logging level lg"
  "count_list (lo_handlers lg) (Some Json_Formatter) \<le> 1 \<Longrightarrow>
     count_list (lo_handlers (configure_logging level lg)) (Some Json_Formatter) = 1"
  by (auto simp: configure_logging_def count_list_0_iff intro: le_antisym)
    (metis One_nat_def Suc_leI count_list_0_iff le_antisym neq0_conv)

section \<open>The configuration of an invocation\<close>

record invocation_config =
  ic_thread_id :: string
  ic_run_name :: string
  ic_tags :: "string list"
  ic_metadata :: "(string \<times> pyval) list"

definition run_config_of :: "string \<Rightarrow> string \<Rightarrow> string \<Rightarrow> rat \<Rightarrow> invocation_config" where
  "run_config_of run_id source_stack target_stack max_usd =
     \<lparr>ic_thread_id = run_id, ic_run_name = ''stackmigrate:'' @ run_id,
      ic_tags = [''stackmigrate'', source_stack @ ''->'' @ target_stack],
      ic_metadata = [(''run_id'', P_Str run_id), (''source_stack'', P_Str source_stack),
        (''target_stack'', P_Str target_stack), (''max_usd'', P_Float max_usd)]\<rparr>"

end
