(* ===== verification/Service.thy ===== *)
theory Service
  imports Observability
begin

text \<open>
  The whole service: the routes of \<open>create_app\<close> behind the API key, the queue between
  \<open>CeleryTaskSubmitter.submit\<close> and \<open>run_migration\<close>, and the checkpointed runs that the worker advances.
  The steps of the system are a handled request, the delivery of a queued job, its acknowledgement and
  one move of a run in the worker; a decision is one step, as the theory \<open>Decisions\<close> justifies. The
  invariant relates every run to the requests that were let through, and a redelivered job is shown to
  fail where git refuses a directory that is in use.
\<close>

section \<open>Routes\<close>

text \<open>The optional body of a decision is \<open>None\<close> or a \<open>DecisionRequest\<close> with its optional feedback.\<close>

datatype http_request =
    Get_Healthz
  | Post_Migrations migration_request
  | Get_Migration string
  | Post_Approve string "string option option"
  | Post_Reject string "string option option"

datatype http_response =
    R_Health string
  | R_Submitted "string \<times> string"
  | R_Status migration_status_response
  | R_Decided approve_response
  | R_Error http_error

type_synonym job = "string \<times> migration_request"

record system =
  sy_queue :: "job list"
  sy_store :: run_store
  sy_requests :: "(string option \<times> http_request) list" \<comment> \<open>header and request, oldest first\<close>

definition empty_system :: system where
  "empty_system = \<lparr>sy_queue = [], sy_store = [], sy_requests = []\<rparr>"

definition body_feedback :: "string option option \<Rightarrow> string option" where
  "body_feedback body = (case body of None \<Rightarrow> None | Some feedback \<Rightarrow> feedback)"

definition reply_of :: "('a \<Rightarrow> http_response) \<Rightarrow> http_error + 'a \<Rightarrow> http_response" where
  "reply_of f out = (case out of Inl e \<Rightarrow> R_Error e | Inr x \<Rightarrow> f x)"

text \<open>\<open>CeleryTaskSubmitter.submit\<close>: the job is sent, not run.\<close>

definition celery_submit :: "string \<Rightarrow> migration_request \<Rightarrow> system \<Rightarrow> system" where
  "celery_submit run_id request s = s\<lparr>sy_queue := sy_queue s @ [(run_id, request)]\<rparr>"

text \<open>The bodies of the routes, once the request is let through.\<close>

fun route_body ::
  "(decision \<Rightarrow> run \<Rightarrow> run) \<Rightarrow> string \<Rightarrow> http_request \<Rightarrow> system \<Rightarrow> http_response \<times> system" where
  "route_body resume uuid_hex Get_Healthz s = (R_Health ''ok'', s)"
| "route_body resume uuid_hex (Post_Migrations payload) s =
     (let (reply, run_id, request) = submit_migration uuid_hex payload
      in (R_Submitted reply, celery_submit run_id request s))"
| "route_body resume uuid_hex (Get_Migration run_id) s =
     (reply_of R_Status (get_migration_status (sy_store s) run_id), s)"
| "route_body resume uuid_hex (Post_Approve run_id body) s =
     (let (out, store) = approve_migration resume run_id (body_feedback body) (sy_store s)
      in (reply_of R_Decided out, s\<lparr>sy_store := store\<rparr>))"
| "route_body resume uuid_hex (Post_Reject run_id body) s =
     (let (out, store) = reject_migration resume run_id (body_feedback body) (sy_store s)
      in (reply_of R_Decided out, s\<lparr>sy_store := store\<rparr>))"

text \<open>Every route but \<open>/healthz\<close> depends on the key.\<close>

definition needs_key :: "http_request \<Rightarrow> bool" where
  "needs_key q \<longleftrightarrow> q \<noteq> Get_Healthz"

definition handle ::
  "(decision \<Rightarrow> run \<Rightarrow> run) \<Rightarrow> string option \<Rightarrow> string \<Rightarrow> string option \<Rightarrow> http_request \<Rightarrow> system \<Rightarrow>
     http_response \<times> system" where
  "handle resume api_key uuid_hex x_api_key q s =
     (case (if needs_key q then require_api_key api_key x_api_key else Inr ()) of
        Inl e \<Rightarrow> (R_Error e, s)
      | Inr _ \<Rightarrow> route_body resume uuid_hex q s)"

text \<open>
  Start-up (\<open>main.py\<close>): importing the module imports \<open>core/llm.py\<close>, which reads the token prices, and
  reads the key; the lifespan sets up the logger and opens the checkpointer. An exception keeps the
  server from starting.
\<close>

definition boot ::
  "environ \<Rightarrow> logger_state \<Rightarrow> (prices \<times> string option \<times> string \<times> logger_state) result" where
  "boot environ lg =
     try_bind (load_prices environ) (\<lambda>prices.
     try_bind (load_api_key environ) (\<lambda>api_key.
       let lg = configure_logging 20 lg
       in try_bind (get_conn_string environ) (\<lambda>conn_string. Inr (prices, api_key, conn_string, lg))))"

section \<open>Decisions at the gate\<close>

text \<open>
  A run is also answered when the worker has committed \<open>request_approval\<close> but has not yet executed the
  gate: then the gate computes its payload, calls \<open>interrupt\<close> and receives the decision at once.
\<close>

definition answer_run :: "pr_publisher \<Rightarrow> decision \<Rightarrow> run \<Rightarrow> run" where
  "answer_run publisher d r =
     resume_run publisher d
       (if rn_control r = At N_approval_gate
        then (case approval_request (rn_state r) of
                Inl e \<Rightarrow> r
              | Inr p \<Rightarrow> r\<lparr>rn_control := Waiting_Approval, rn_log := rn_log r @ [Ev_Interrupt p]\<rparr>)
        else r)"

interpretation answered: resumable "answer_run publisher" for publisher
  by unfold_locales (simp_all add: answer_run_def resumed.resume_steps resumed.resume_ends resumed.resume_completes)

lemma answer_steps:
  assumes "is_awaiting_approval r"
  shows "steps r (answer_run publisher d r)"
proof (cases "rn_control r = Waiting_Approval")
  case True
  then show ?thesis by (rule answered.resume_steps)
next
  case False
  with assms have at: "rn_control r = At N_approval_gate" by (simp add: is_awaiting_approval_def)
  show ?thesis
  proof (cases "approval_request (rn_state r)")
    case (Inl e)
    then have gate: "approval_gate_node d (rn_state r) = Inl e" by (simp add: approval_gate_node_def)
    then have "step r (r\<lparr>rn_control := Crashed e\<rparr>)"
      using at by (intro crash_node) (auto intro: node_raises.intros)
    then show ?thesis using Inl gate at by (simp add: answer_run_def resume_run_def)
  next
    case (Inr p)
    let ?w = "r\<lparr>rn_control := Waiting_Approval, rn_log := rn_log r @ [Ev_Interrupt p]\<rparr>"
    have "step r ?w" using at Inr by (rule pause)
    moreover have "steps ?w (resume_run publisher d ?w)" by (rule resumed.resume_steps) simp
    ultimately show ?thesis using at Inr by (simp add: answer_run_def converse_rtranclp_into_rtranclp)
  qed
qed

lemma answer_approved:
  "human_approved (rn_log (answer_run publisher d r)) \<Longrightarrow> human_approved (rn_log r) \<or> is_approved d"
  by (auto simp: answer_run_def resume_run_def human_approved_def Let_def
      split: sum.splits prod.splits if_splits)

section \<open>The system\<close>

text \<open>
  \<open>request\<close>: any client, with any header. \<open>deliver\<close>: the worker prepares a queued job and invokes the
  graph on a fresh thread; the job stays queued until it is acknowledged (\<open>task_acks_late\<close>), which also
  happens when it raised. \<open>progress\<close>: one move of a run that is not paused.
\<close>

inductive system_step :: "string option \<Rightarrow> system \<Rightarrow> system \<Rightarrow> bool" for api_key where
  request: "handle (answer_run publisher) api_key uuid_hex header q s = (reply, s') \<Longrightarrow>
    system_step api_key s (s'\<lparr>sy_requests := sy_requests s @ [(header, q)]\<rparr>)"
| deliver: "(run_id, mg) \<in> set (sy_queue s) \<Longrightarrow> map_of (sy_store s) run_id = None \<Longrightarrow>
    run_migration git base_dir run_id mg now f = Inr r \<Longrightarrow>
    system_step api_key s (s\<lparr>sy_store := dict_put run_id r (sy_store s)\<rparr>)"
| acknowledge: "job \<in> set (sy_queue s) \<Longrightarrow>
    system_step api_key s (s\<lparr>sy_queue := remove1 job (sy_queue s)\<rparr>)"
| progress: "map_of (sy_store s) run_id = Some r \<Longrightarrow> rn_control r \<noteq> Waiting_Approval \<Longrightarrow> step r r' \<Longrightarrow>
    system_step api_key s (s\<lparr>sy_store := dict_put run_id r' (sy_store s)\<rparr>)"

text \<open>The requests that were let through, and what they vouch for.\<close>

definition admitted :: "string option \<Rightarrow> system \<Rightarrow> http_request \<Rightarrow> bool" where
  "admitted api_key s q \<longleftrightarrow>
     (\<exists>header. (header, q) \<in> set (sy_requests s) \<and> require_api_key api_key header = Inr ())"

definition started_by :: "string \<Rightarrow> migration_request \<Rightarrow> run \<Rightarrow> bool" where
  "started_by run_id mg r \<longleftrightarrow> (\<exists>local target budget rounds f.
     steps (start_run (job_config run_id mg local target) budget rounds f) r)"

definition vouched_run :: "string option \<Rightarrow> system \<Rightarrow> string \<Rightarrow> run \<Rightarrow> bool" where
  "vouched_run api_key s run_id r \<longleftrightarrow>
     (\<exists>mg. admitted api_key s (Post_Migrations mg) \<and> started_by run_id mg r) \<and>
     (human_approved (rn_log r) \<longrightarrow> (\<exists>body. admitted api_key s (Post_Approve run_id body)))"

definition vouched :: "string option \<Rightarrow> system \<Rightarrow> bool" where
  "vouched api_key s \<longleftrightarrow>
     (\<forall>(run_id, mg) \<in> set (sy_queue s). admitted api_key s (Post_Migrations mg)) \<and>
     (\<forall>run_id r. map_of (sy_store s) run_id = Some r \<longrightarrow> vouched_run api_key s run_id r)"

lemma vouched_empty: "vouched api_key empty_system"
  by (simp add: vouched_def empty_system_def)

lemma admitted_more:
  "set (sy_requests s) \<subseteq> set (sy_requests s') \<Longrightarrow> admitted api_key s q \<Longrightarrow> admitted api_key s' q"
  by (auto simp: admitted_def)

lemma vouched_run_more:
  assumes "set (sy_requests s) \<subseteq> set (sy_requests s')" "vouched_run api_key s run_id r"
  shows "vouched_run api_key s' run_id r"
  using assms(2) admitted_more [OF assms(1)] unfolding vouched_run_def by blast

text \<open>Moves of the run keep what is vouched, as long as an approval they record was admitted.\<close>

lemma vouched_run_steps:
  assumes "vouched_run api_key s run_id r" "steps r r'"
    and "human_approved (rn_log r') \<Longrightarrow> human_approved (rn_log r) \<or> (\<exists>body. admitted api_key s (Post_Approve run_id body))"
  shows "vouched_run api_key s run_id r'"
proof -
  obtain mg where "admitted api_key s (Post_Migrations mg)" "started_by run_id mg r"
    using assms(1) by (auto simp: vouched_run_def)
  moreover from this(2) have "started_by run_id mg r'"
    unfolding started_by_def using assms(2) by (meson rtranclp_trans)
  ultimately show ?thesis using assms(1,3) unfolding vouched_run_def by blast
qed

lemma vouchedD: "vouched api_key s \<Longrightarrow> map_of (sy_store s) run_id = Some r \<Longrightarrow> vouched_run api_key s run_id r"
  by (simp add: vouched_def)

lemma vouched_put:
  assumes "vouched api_key s" "vouched_run api_key s' run_id r"
    and "sy_store s' = dict_put run_id r (sy_store s)" "set (sy_queue s') \<subseteq> set (sy_queue s)"
    and "set (sy_requests s) \<subseteq> set (sy_requests s')"
  shows "vouched api_key s'"
  using assms(1,2,4) vouched_run_more [OF assms(5)] admitted_more [OF assms(5)]
  by (fastforce simp: vouched_def assms(3) update_conv split: if_splits)

lemma vouched_keep:
  assumes "vouched api_key s" "sy_store s' = sy_store s" "set (sy_requests s) \<subseteq> set (sy_requests s')"
    and "\<forall>(run_id, mg) \<in> set (sy_queue s'). (run_id, mg) \<in> set (sy_queue s) \<or> admitted api_key s' (Post_Migrations mg)"
  shows "vouched api_key s'"
  using assms(1,4) vouched_run_more [OF assms(3)] admitted_more [OF assms(3)]
  by (fastforce simp: vouched_def assms(2))

text \<open>A move in the worker records no decision.\<close>

lemma progress_undecided:
  assumes "step r r'" "rn_control r \<noteq> Waiting_Approval"
  shows "human_approved (rn_log r') \<longleftrightarrow> human_approved (rn_log r)"
proof -
  have node: "\<not> human_approved evs" if "node_step n s f u f' evs" "n \<noteq> N_approval_gate" for n s f u f' evs
    using node_step_events(2) [OF that] by (auto simp: human_approved_def)
  have "\<not> human_approved (Ev_Dispatch ids # map (\<lambda>c. Ev_Cost c True) cs)" "\<not> human_approved [Ev_Interrupt p]"
    for ids cs p by (auto simp: human_approved_def)
  note quiet = node this
  from assms show ?thesis by (cases rule: step.cases) (simp_all add: quiet)
qed

text \<open>A decision that is let through vouches for the approval it records.\<close>

lemma vouched_decision:
  assumes "vouched api_key s" "decide (answer_run publisher) run_id a feedback (sy_store s) = (out, store)"
    and "sy_store s' = store" "sy_queue s' = sy_queue s" "set (sy_requests s) \<subseteq> set (sy_requests s')"
    and "a \<Longrightarrow> \<exists>body. admitted api_key s' (Post_Approve run_id body)"
  shows "vouched api_key s'"
proof (cases "check_run run_id (sy_store s)")
  case (Inl e)
  with assms(2,3) have "sy_store s' = sy_store s" by (simp add: decide_def)
  then show ?thesis using assms(4,5) by (intro vouched_keep [OF assms(1)]) auto
next
  case (Inr r)
  let ?d = "make_decision a feedback"
  have r: "map_of (sy_store s) run_id = Some r" "is_awaiting_approval r"
    using Inr by (auto simp: check_run_def split: option.splits if_splits)
  have run: "vouched_run api_key s' run_id r"
    by (rule vouched_run_more [OF assms(5) vouchedD [OF assms(1) r(1)]])
  have "human_approved (rn_log r) \<or> a" if "human_approved (rn_log (answer_run publisher ?d r))"
    using answer_approved [OF that] by (auto simp: approved_iff make_decision_def)
  with assms(6) have "human_approved (rn_log r) \<or> (\<exists>body. admitted api_key s' (Post_Approve run_id body))"
    if "human_approved (rn_log (answer_run publisher ?d r))" using that by blast
  then have vouched: "vouched_run api_key s' run_id (answer_run publisher ?d r)"
    by (rule vouched_run_steps [OF run answer_steps [OF r(2)]])
  show ?thesis
  proof (rule vouched_put [OF assms(1) vouched])
    show "sy_store s' = dict_put run_id (answer_run publisher ?d r) (sy_store s)"
      using assms(2,3) Inr by (simp add: decide_def Let_def)
  qed (simp_all add: assms(4,5))
qed

lemma vouched_request:
  assumes "vouched api_key s" "handle (answer_run publisher) api_key uuid_hex header q s = (reply, s1)"
  shows "vouched api_key (s1\<lparr>sy_requests := sy_requests s @ [(header, q)]\<rparr>)" (is "vouched api_key ?s'")
proof (cases "needs_key q \<and> require_api_key api_key header \<noteq> Inr ()")
  case True
  then have "s1 = s" using assms(2) by (auto simp: handle_def split: sum.splits)
  then show ?thesis by (intro vouched_keep [OF assms(1)]) auto
next
  case False
  then have body: "route_body (answer_run publisher) uuid_hex q s = (reply, s1)"
    and key: "needs_key q \<Longrightarrow> admitted api_key ?s' q"
    using assms(2) by (auto simp: handle_def admitted_def split: sum.splits if_splits)
  show ?thesis
  proof (cases q)
    case Get_Healthz
    with body show ?thesis by (intro vouched_keep [OF assms(1)]) auto
  next
    case (Get_Migration run_id)
    with body show ?thesis by (intro vouched_keep [OF assms(1)]) auto
  next
    case (Post_Migrations mg)
    with body key show ?thesis
      by (intro vouched_keep [OF assms(1)]) (auto simp: submit_migration_def celery_submit_def Let_def needs_key_def)
  next
    case (Post_Approve run_id b)
    obtain out store where d: "decide (answer_run publisher) run_id True (body_feedback b) (sy_store s) = (out, store)"
      by fastforce
    then show ?thesis
      using body key Post_Approve
      by (intro vouched_decision [OF assms(1) d]) (auto simp: approve_migration_def needs_key_def)
  next
    case (Post_Reject run_id b)
    obtain out store where d: "decide (answer_run publisher) run_id False (body_feedback b) (sy_store s) = (out, store)"
      by fastforce
    then show ?thesis
      using body Post_Reject
      by (intro vouched_decision [OF assms(1) d]) (auto simp: reject_migration_def)
  qed
qed

lemma delivered_run:
  assumes "run_migration git base_dir run_id mg now f = Inr r"
  shows "started_by run_id mg r" "rn_log r = []"
proof -
  obtain local target f' where r: "r = start_run (job_config run_id mg local target)
      (new_budget (mg_max_usd mg) (mg_max_llm_calls mg) (mg_max_wall_clock_seconds mg) now)
      (Some (mg_max_retry_rounds mg)) f'"
    using assms by (auto simp: run_migration_def split: sum.splits prod.splits)
  show "started_by run_id mg r" unfolding started_by_def r by blast
  show "rn_log r = []" by (simp add: r start_run_def)
qed

lemma vouched_step:
  assumes "system_step api_key s s'" "vouched api_key s"
  shows "vouched api_key s'"
  using assms
proof cases
  case (request publisher uuid_hex header q reply s1)
  then show ?thesis using vouched_request [OF assms(2)] by simp
next
  case (deliver run_id mg git base_dir now f r)
  have "vouched_run api_key s run_id r"
    using assms(2) deliver(2) delivered_run [OF deliver(4)]
    by (auto simp: vouched_run_def vouched_def human_approved_def)
  then show ?thesis
    by (intro vouched_put [OF assms(2)]) (auto simp: deliver(1) vouched_run_def admitted_def)
next
  case (acknowledge job)
  then show ?thesis by (intro vouched_keep [OF assms(2)]) (auto dest: in_set_remove1 set_remove1_subset [THEN subsetD])
next
  case (progress run_id r r')
  have "vouched_run api_key s run_id r'"
    using progress_undecided [OF progress(4,3)] progress(4)
    by (intro vouched_run_steps [OF vouchedD [OF assms(2) progress(2)]]) auto
  then show ?thesis
    by (intro vouched_put [OF assms(2)]) (auto simp: progress(1) vouched_run_def admitted_def)
qed

lemma vouched_reachable: "(system_step api_key)\<^sup>*\<^sup>* empty_system s \<Longrightarrow> vouched api_key s"
  by (induction rule: rtranclp_induct) (auto intro: vouched_empty vouched_step)

text \<open>What a publication of a run in the system goes back to.\<close>

lemma publication_vouched:
  assumes "(system_step api_key)\<^sup>*\<^sup>* empty_system s" "map_of (sy_store s) run_id = Some r"
    and "publications (rn_log r) \<noteq> []"
  obtains mg where "admitted api_key s (Post_Migrations mg)" "truthy (mg_github_target_repo mg)"
    "mg_require_human_approval_before_pr mg \<Longrightarrow> \<exists>body. admitted api_key s (Post_Approve run_id body)"
proof -
  have v: "vouched_run api_key s run_id r"
    by (rule vouchedD [OF vouched_reachable [OF assms(1)] assms(2)])
  obtain mg local target budget rounds f where mg: "admitted api_key s (Post_Migrations mg)"
    and run: "steps (start_run (job_config run_id mg local target) budget rounds f) r"
    using v by (auto simp: vouched_run_def started_by_def)
  obtain q where "q \<in> set (publications (rn_log r))" using assms(3) by (cases "publications (rn_log r)") auto
  then have ok: "publication_ok (job_config run_id mg local target) (rn_log r) q"
    using ship_inv_reachable [OF run] by (simp add: ship_inv_def)
  then have "truthy (mg_github_target_repo mg)"
    by (auto simp: publication_ok_def job_config_def truthy_def)
  moreover from this ok have "human_approved (rn_log r)" if "mg_require_human_approval_before_pr mg"
    using that by (simp add: publication_ok_def approval_needed_def job_config_def)
  ultimately show thesis using mg v that unfolding vouched_run_def by blast
qed

section \<open>Requests without the key\<close>

lemma handle_refused:
  assumes "needs_key q" "header \<noteq> Some key"
  shows "handle resume (Some key) uuid_hex header q s = (R_Error (401, ''Invalid or missing API key''), s)"
  using assms by (auto simp: handle_def require_api_key_def split: option.split)

lemma handle_admitted: "handle resume (Some key) uuid_hex (Some key) q s = route_body resume uuid_hex q s"
  by (simp add: handle_def require_api_key_def)

lemma handle_health: "handle resume api_key uuid_hex header Get_Healthz s = route_body resume uuid_hex Get_Healthz s"
  by (simp add: handle_def needs_key_def)

lemma boot_open:
  "(\<exists>prices conn lg'. boot environ lg = Inr (prices, None, conn, lg')) \<longleftrightarrow>
     \<not> isl (load_prices environ) \<and> \<not> truthy (map_of environ ''STACKMIGRATE_API_KEY'') \<and>
     map_of environ ''STACKMIGRATE_ALLOW_NO_AUTH'' = Some ''1'' \<and> truthy (map_of environ ''MIGRATION_DB_URL'')"
  by (cases "load_prices environ")
    (auto simp: boot_def load_api_key_def get_conn_string_def truthy_def Let_def split: option.splits)

section \<open>Progress in the system\<close>

text \<open>A run that is not yet decided got there without leaving the pause, so the worker can make its moves.\<close>

definition undecided :: "run \<Rightarrow> bool" where
  "undecided r \<longleftrightarrow> list_all (\<lambda>e. case e of Ev_Decision d \<Rightarrow> False | _ \<Rightarrow> True) (rn_log r) \<and>
     (case rn_control r of Crashed e \<Rightarrow> False | _ \<Rightarrow> True)"

definition worker_move :: "run \<Rightarrow> run \<Rightarrow> bool" where
  "worker_move r r' \<longleftrightarrow> rn_control r \<noteq> Waiting_Approval \<and> step r r'"

lemma undecided_step:
  assumes "step r r'" "undecided r'"
  shows "undecided r" "worker_move r r'"
proof -
  have decided: "\<not> undecided \<lparr>rn_control = c, rn_state = s', rn_files = f', rn_log = l @ evs\<rparr>"
    if "node_step N_approval_gate s f u f' evs" for s f u f' evs c s' l
    using that by (auto elim: node_step.cases simp: undecided_def)
  show "undecided r"
    using assms by (cases rule: step.cases) (auto simp: undecided_def)
  have "rn_control r \<noteq> Waiting_Approval"
    using assms by (cases rule: step.cases) (auto simp: decided, auto simp: undecided_def)
  then show "worker_move r r'" using assms(1) by (simp add: worker_move_def)
qed

lemma undecided_moves: "steps r r' \<Longrightarrow> undecided r' \<Longrightarrow> worker_move\<^sup>*\<^sup>* r r'"
  by (induction rule: rtranclp_induct) (auto dest: undecided_step intro: rtranclp.rtrancl_into_rtrancl)

lemma system_moves:
  assumes "worker_move\<^sup>*\<^sup>* r r'" "map_of (sy_store s) run_id = Some r"
  shows "\<exists>s'. (system_step api_key)\<^sup>*\<^sup>* s s' \<and> map_of (sy_store s') run_id = Some r' \<and> sy_requests s' = sy_requests s"
  using assms(1)
proof (induction rule: rtranclp_induct)
  case base
  then show ?case using assms(2) by blast
next
  case (step y z)
  then obtain s' where s': "(system_step api_key)\<^sup>*\<^sup>* s s'" "map_of (sy_store s') run_id = Some y" "sy_requests s' = sy_requests s"
    by blast
  have "system_step api_key s' (s'\<lparr>sy_store := dict_put run_id z (sy_store s')\<rparr>)"
    using s'(2) step(2) by (intro system_step.progress) (auto simp: worker_move_def)
  with s' show ?case by (intro exI [of _ "s'\<lparr>sy_store := dict_put run_id z (sy_store s')\<rparr>"]) (auto simp: update_conv)
qed

section \<open>A job delivered twice\<close>

text \<open>
  \<open>git clone\<close> refuses a destination that exists and is not empty. A job that is delivered again after
  its source was cloned therefore raises before it reaches the graph, and the checkpointed run of the
  first delivery is not taken up again.
\<close>

definition in_use :: "fs \<Rightarrow> string \<Rightarrow> bool" where
  "in_use f d \<longleftrightarrow> (\<exists>p. map_of f p \<noteq> None \<and> prefix (d @ ''/'') p)"

definition refuses_used :: "git_clone \<Rightarrow> bool" where
  "refuses_used git \<longleftrightarrow> (\<forall>q f. in_use f (cq_dest q) \<longrightarrow> isl (fst (git q f)))"

lemma make_dirs_keeps: "make_dirs ds f = Inr f' \<Longrightarrow> map_of f p = Some x \<Longrightarrow> map_of f' p = Some x"
  by (induction ds f rule: make_dirs.induct) (auto simp: update_conv split: option.splits fs_node.splits, metis option.distinct(1))

lemma redelivered_job_raises:
  assumes "refuses_used git" "in_use f (run_dir base_dir run_id ''source'')"
  shows "isl (run_migration git base_dir run_id mg now f)"
proof -
  have "isl (fst (clone_repo git url ref (run_dir base_dir run_id ''source'') f))" for url ref
  proof (cases "makedirs (dirname (run_dir base_dir run_id ''source'')) f")
    case (Inr f1)
    then have "in_use f1 (run_dir base_dir run_id ''source'')"
      using assms(2) make_dirs_keeps unfolding in_use_def makedirs_def by (metis not_Some_eq)
    then show ?thesis using assms(1) Inr by (simp add: clone_repo_def refuses_used_def)
  qed (simp add: clone_repo_def)
  then have "isl (fst (prepare_source git base_dir url ref run_id f))" for url ref
    by (auto simp: prepare_source_def Let_def split: prod.split sum.split) (metis fst_conv sum.disc(2))
  then show ?thesis
    by (auto simp: run_migration_def split: prod.split sum.split) (metis fst_conv sum.disc(2))
qed

end
