(* ===== verification/Example_Run.thy ===== *)
theory Example_Run
  imports Production Pipeline_Budget Service
begin

text \<open>
  A concrete migration: a submitted request, the job that prepares it, and the run the driver makes of
  it: one service class, one generated file, a passing suite, a reviewer who approves. The witnesses of
  the properties of whole runs and of the service are taken from it.
\<close>

definition example_migration :: migration_request where
  "example_migration = \<lparr>mg_source_repo_url = ''u'', mg_source_ref = ''main'', mg_source_stack = ''springboot'',
     mg_target_stack = ''fastapi'', mg_scope_description = ''all'', mg_github_target_repo = Some ''o/r'',
     mg_target_repo_url = Some ''t'', mg_require_human_approval_before_pr = True, mg_max_usd = 8,
     mg_max_llm_calls = 10, mg_max_wall_clock_seconds = 3600, mg_max_retry_rounds = 5\<rparr>"

text \<open>A clone that creates its directory.\<close>

definition example_git :: git_clone where
  "example_git q f = (Inr (), dict_put (cq_dest q) Dir f)"

definition example_config :: run_config where
  "example_config = job_config ''run-1'' example_migration ''/w/run-1/source'' ''/w/run-1/target''"

definition example_tree :: dir_tree where
  "example_tree = Dir_Tree [] [(''src'', Dir_Tree [] [(''main'', Dir_Tree [] [(''java'',
     Dir_Tree [(''A.java'', Some ''@Service class A'')] [])])])]"

definition example_unit :: raw_extracted_unit where
  "example_unit = \<lparr>ru_kind = Kind_SERVICE, ru_name = ''A'',
     ru_payload = Service_Unit \<lparr>sv_name = ''A'', sv_description = ''d'', sv_depends_on = [],
       sv_business_logic_summary = ''b''\<rparr>, ru_stack_specific_hints = []\<rparr>"

definition example_reply :: "'a \<Rightarrow> 'a llm_response" where
  "example_reply x = \<lparr>lr_result = Some x, lr_cost_usd = 1, lr_input_tokens = 1, lr_output_tokens = 1\<rparr>"

definition example_suite :: test_result where
  "example_suite = \<lparr>tr_task_id = None, tr_outcome = Out_PASSED, tr_raw_output = ''1 passed'',
     tr_failing_tests = [], tr_duration_seconds = 1\<rparr>"

definition example_files :: "file_diff list" where
  "example_files = [\<lparr>fd_path = ''app/services/a.py'', fd_content = ''x'', fd_is_new_file = True\<rparr>]"

definition example_raw :: "'a \<Rightarrow> 'a raw_reply" where
  "example_raw x = \<lparr>rr_parsed = Some x, rr_usage = Some [(''input_tokens'', 1000000)]\<rparr>"

definition good_container :: container_reply where
  "good_container = \<lparr>cy_client = Inr (), cy_run = Inr (), cy_wait = Inr (Some 0), cy_kill = Inr (), cy_logs = Inr ''ok'',
     cy_remove = Inr (), cy_start = 0, cy_end = 1\<rparr>"

definition good_api :: api_reply where
  "good_api = \<lparr>ay_client = Inr (), ay_get_repo = Inr (), ay_get_git_ref = Inr ''s0'', ay_get_git_commit = Inr ''t0'',
     ay_create_git_tree = Inr ''t1'', ay_create_git_commit = Inr ''s1'', ay_create_git_ref = Inr (),
     ay_create_pull = Inr ''url''\<rparr>"

definition example_environment :: environment where
  "example_environment = \<lparr>en_environ = [(''GITHUB_TOKEN'', ''t'')], en_prices = \<lparr>pr_input = 3, pr_output = 15\<rparr>,
     en_tree = example_tree,
     en_extraction_model = (\<lambda>c i p. Inr (example_raw \<lparr>fx_units = [example_unit], fx_ambiguities = []\<rparr>)),
     en_editor_model = (\<lambda>c p. Inr (example_raw \<lparr>eg_files = example_files, eg_notes = ''''\<rparr>)),
     en_analysis_model = (\<lambda>c p. Inl (ValueError ''unused'')),
     en_realpath = plain_realpath,
     en_install = (\<lambda>ws f. good_container), en_test = (\<lambda>ws f. good_container), en_disk = (\<lambda>ws f. f),
     en_api = (\<lambda>q. good_api),
     en_decision = Decision_Dict (Some (J_Bool True)) None,
     en_clock = (\<lambda>i. 0)\<rparr>"

text \<open>The default collaborators over this environment, with the price of a reply worked out.\<close>

definition example_paid :: "'a \<Rightarrow> 'a llm_response" where
  "example_paid x = \<lparr>lr_result = Some x, lr_cost_usd = 3, lr_input_tokens = 1000000, lr_output_tokens = 0\<rparr>"

definition example_collaborators :: collaborators where
  "example_collaborators = \<lparr>co_tree = example_tree,
     co_extractor = (\<lambda>i p. Inr (example_paid \<lparr>fx_units = [example_unit], fx_ambiguities = []\<rparr>)),
     co_code_generator = (\<lambda>p. Inr (example_paid \<lparr>eg_files = example_files, eg_notes = ''''\<rparr>)),
     co_error_analyzer = (\<lambda>p. Inl (ValueError ''unused'')),
     co_realpath = plain_realpath, co_sandbox_runner = docker_sandbox example_environment,
     co_pr_publisher = (\<lambda>q. fst (github_publish (Some ''t'') good_api q)),
     co_decision = Decision_Dict (Some (J_Bool True)) None,
     co_clock = (\<lambda>i. 0)\<rparr>"

lemma example_price: "token_cost \<lparr>pr_input = 3, pr_output = 15\<rparr> 1000000 0 = 3"
  by code_simp

lemma example_default: "default_collaborators example_environment = example_collaborators"
  by (simp add: default_collaborators_def default_code_generator_def default_error_analyzer_def
      default_pr_publisher_def example_environment_def example_collaborators_def extraction_client_def
      editor_client_def error_analysis_client_def client_call_def wrap_reply_def example_raw_def example_paid_def
      usage_tokens_def example_price default_extractor_def get_model_def new_client_def publisher_token_def truthy_def Let_def
      fun_eq_iff)

definition example_publisher :: pr_publisher where
  "example_publisher = co_pr_publisher example_collaborators"

definition example_budget :: budget_state where
  "example_budget = new_budget 8 10 3600 0"

definition example_disk :: fs where
  "example_disk = [(''/w'', Dir), (''/w/run-1'', Dir), (''/w/run-1/source'', Dir), (''/w/run-1/target'', Dir)]"

definition example_start :: run where
  "example_start = start_run example_config example_budget (Some 5) example_disk"

text \<open>The run is what the job starts.\<close>

lemma example_directories:
  "clone_repo example_git ''u'' (Some ''main'') ''/w/run-1/source'' [] =
     (Inr (), [(''/w'', Dir), (''/w/run-1'', Dir), (''/w/run-1/source'', Dir)])"
  "clone_repo example_git ''t'' None ''/w/run-1/target''
     [(''/w'', Dir), (''/w/run-1'', Dir), (''/w/run-1/source'', Dir)] = (Inr (), example_disk)"
  "run_dir ''/w'' ''run-1'' ''source'' = ''/w/run-1/source''" "run_dir ''/w'' ''run-1'' ''target'' = ''/w/run-1/target''"
  by code_simp+

lemma example_job: "run_migration example_git ''/w'' ''run-1'' example_migration 0 [] = Inr example_start"
  by (simp add: run_migration_def prepare_source_def prepare_target_def example_directories example_migration_def
      Let_def example_start_def example_config_def example_budget_def)

section \<open>The run\<close>

definition example_wave :: run where
  "example_wave = drive 2 example_collaborators 0 example_start"

definition example_waiting :: run where
  "example_waiting = drive 6 example_collaborators 2 example_wave"

definition example_end :: run where
  "example_end = drive 2 example_collaborators 8 example_waiting"

text \<open>What is read off the states, evaluated in one pass.\<close>

definition example_wave_ok :: "run \<Rightarrow> bool" where
  "example_wave_ok r \<longleftrightarrow> (case rn_control r of Fanout sends \<Rightarrow> length sends = 1 | _ \<Rightarrow> False)"

definition example_waiting_ok :: "run \<Rightarrow> bool" where
  "example_waiting_ok w \<longleftrightarrow> rn_control w = Waiting_Approval \<and> length (gs_tasks (rn_state w)) = 1 \<and>
     map fd_path (effective_of (rn_state w)) = [''app/services/a.py''] \<and> gs_pr_draft (rn_state w) \<noteq> None \<and>
     gs_config (rn_state w) \<noteq> None \<and>
     list_all (\<lambda>e. case e of Ev_Decision d \<Rightarrow> False | _ \<Rightarrow> True) (rn_log w) \<and>
     analyses (rn_log w) = 0 \<and> dispatched ''task::app_services_a_py'' (rn_log w) = 1 \<and>
     costs (rn_log w) = [(3, False), (3, True)]"

definition example_end_ok :: "run \<Rightarrow> bool" where
  "example_end_ok r \<longleftrightarrow> rn_control r = Finished \<and> length (publications (rn_log r)) = 1 \<and>
     costs (rn_log r) = [(3, False), (3, True)] \<and>
     gs_pr_url (rn_state r) = Some ''url'' \<and> map mt_status (gs_tasks (rn_state r)) = [St_SUCCEEDED]"

definition example_from_waiting :: "run \<Rightarrow> bool" where
  "example_from_waiting w \<longleftrightarrow> example_waiting_ok w \<and> example_end_ok (drive 2 example_collaborators 8 w) \<and>
     example_end_ok (answer_run example_publisher (make_decision True None) w)"

definition example_from_wave :: "run \<Rightarrow> bool" where
  "example_from_wave r \<longleftrightarrow> example_wave_ok r \<and> example_from_waiting (drive 6 example_collaborators 2 r)"

lemma example_evaluated: "example_from_wave (drive 2 example_collaborators 0 example_start)"
  by code_simp

lemma example_facts:
  "example_wave_ok example_wave" "example_waiting_ok example_waiting" "example_end_ok example_end"
  "example_end_ok (answer_run example_publisher (make_decision True None) example_waiting)"
  using example_evaluated
  by (simp_all add: example_from_wave_def example_from_waiting_def example_wave_def example_waiting_def example_end_def)

lemma example_steps:
  "steps example_start example_wave" "steps example_start example_waiting" "steps example_start example_end"
proof -
  show w: "steps example_start example_wave"
    unfolding example_wave_def by (rule drive_steps)
  have "steps example_wave example_waiting"
    unfolding example_waiting_def by (rule drive_steps)
  with w show v: "steps example_start example_waiting" by (rule rtranclp_trans)
  have "steps example_waiting example_end"
    unfolding example_end_def by (rule drive_steps)
  with v show "steps example_start example_end" by (rule rtranclp_trans)
qed

lemma example_driven: "example_end = drive 10 example_collaborators 0 example_start"
  unfolding example_end_def example_waiting_def example_wave_def
  using drive_add [of 2 6 example_collaborators 0 example_start] drive_add [of 8 2 example_collaborators 0 example_start]
  by (simp add: numeral_2_eq_2)

lemmas example_reach = example_steps [unfolded example_start_def]

end
