(* ===== verification/Decisions.thy ===== *)
theory Decisions
  imports Api
begin

text \<open>
  Concurrent decisions on one run (\<open>_decide\<close> in \<open>app/api/app.py\<close>): the requests interleave at the
  \<open>await\<close>s, around the per-run \<open>asyncio.Lock\<close>. A request is at one of four points; the steps are the
  acquisition of the lock, the check of the snapshot and the return of \<open>ainvoke\<close>. The specification is
  \<open>serial\<close>, one atomic \<open>decide\<close> after the other, and every reachable state of the interleaving is
  explained by a serial order of the answered requests.
\<close>

section \<open>Requests around the lock\<close>

type_synonym reply = "http_error + approve_response"

datatype request_point = Arrived | Checking | Resuming | Answered reply

record server =
  sv_lock :: "nat option"
  sv_store :: run_store
  sv_points :: "request_point list"

definition serve_start :: "nat \<Rightarrow> run_store \<Rightarrow> server" where
  "serve_start n store = \<lparr>sv_lock = None, sv_store = store, sv_points = replicate n Arrived\<rparr>"

inductive serve ::
  "(decision \<Rightarrow> run \<Rightarrow> run) \<Rightarrow> string \<Rightarrow> (bool \<times> string option) list \<Rightarrow> server \<Rightarrow> server \<Rightarrow> bool"
  for resume run_id reqs where
  acquire: "i < length (sv_points s) \<Longrightarrow> sv_points s ! i = Arrived \<Longrightarrow> sv_lock s = None \<Longrightarrow>
    serve resume run_id reqs s (s\<lparr>sv_lock := Some i, sv_points := (sv_points s)[i := Checking]\<rparr>)"
| refuse: "i < length (sv_points s) \<Longrightarrow> sv_points s ! i = Checking \<Longrightarrow> check_run run_id (sv_store s) = Inl e \<Longrightarrow>
    serve resume run_id reqs s (s\<lparr>sv_lock := None, sv_points := (sv_points s)[i := Answered (Inl e)]\<rparr>)"
| accept: "i < length (sv_points s) \<Longrightarrow> sv_points s ! i = Checking \<Longrightarrow> check_run run_id (sv_store s) = Inr r \<Longrightarrow>
    serve resume run_id reqs s (s\<lparr>sv_points := (sv_points s)[i := Resuming]\<rparr>)"
| complete: "i < length (sv_points s) \<Longrightarrow> sv_points s ! i = Resuming \<Longrightarrow> map_of (sv_store s) run_id = Some r \<Longrightarrow>
    r' = resume (make_decision (fst (reqs ! i)) (snd (reqs ! i))) r \<Longrightarrow>
    serve resume run_id reqs s (s\<lparr>sv_lock := None, sv_store := dict_put run_id r' (sv_store s),
      sv_points := (sv_points s)[i := Answered (resume_reply run_id r')]\<rparr>)"

section \<open>The specification: one decision after the other\<close>

fun serial ::
  "(decision \<Rightarrow> run \<Rightarrow> run) \<Rightarrow> string \<Rightarrow> (bool \<times> string option) list \<Rightarrow> nat list \<Rightarrow> run_store \<Rightarrow>
     (nat \<times> reply) list \<times> run_store" where
  "serial resume run_id reqs [] store = ([], store)"
| "serial resume run_id reqs (i # order) store =
     (let (out, store') = decide resume run_id (fst (reqs ! i)) (snd (reqs ! i)) store;
          (outs, store'') = serial resume run_id reqs order store'
      in ((i, out) # outs, store''))"

lemma serial_snoc:
  "serial resume run_id reqs (order @ [i]) store =
     (let (outs, store') = serial resume run_id reqs order store;
          (out, store'') = decide resume run_id (fst (reqs ! i)) (snd (reqs ! i)) store'
      in (outs @ [(i, out)], store''))"
  by (induction order arbitrary: store) (auto simp: Let_def split: prod.splits)

lemma serial_keys: "map fst (fst (serial resume run_id reqs order store)) = order"
proof (induction order arbitrary: store)
  case (Cons i order)
  show ?case using Cons [of "snd (decide resume run_id (fst (reqs ! i)) (snd (reqs ! i)) store)"]
    by (simp add: Let_def split_beta)
qed simp

section \<open>The invariant\<close>

text \<open>Only the holder is inside; a request that is resuming has checked the present store.\<close>

definition locked :: "string \<Rightarrow> server \<Rightarrow> bool" where
  "locked run_id s \<longleftrightarrow>
     (\<forall>i < length (sv_points s). sv_points s ! i \<in> {Checking, Resuming} \<longrightarrow> sv_lock s = Some i) \<and>
     (\<forall>i < length (sv_points s). sv_points s ! i = Resuming \<longrightarrow> (\<exists>r. check_run run_id (sv_store s) = Inr r))"

definition held :: "server \<Rightarrow> bool" where
  "held s \<longleftrightarrow> (case sv_lock s of None \<Rightarrow> True
     | Some i \<Rightarrow> i < length (sv_points s) \<and> sv_points s ! i \<in> {Checking, Resuming})"

definition answered :: "server \<Rightarrow> nat set" where
  "answered s = {i. i < length (sv_points s) \<and> (\<exists>a. sv_points s ! i = Answered a)}"

definition explained ::
  "(decision \<Rightarrow> run \<Rightarrow> run) \<Rightarrow> string \<Rightarrow> (bool \<times> string option) list \<Rightarrow> run_store \<Rightarrow> nat list \<Rightarrow> server \<Rightarrow> bool" where
  "explained resume run_id reqs store0 order s \<longleftrightarrow>
     distinct order \<and> set order = answered s \<and>
     sv_store s = snd (serial resume run_id reqs order store0) \<and>
     (\<forall>(i, out) \<in> set (fst (serial resume run_id reqs order store0)). sv_points s ! i = Answered out)"

lemma locked_start: "locked run_id (serve_start n store)"
  by (auto simp: locked_def serve_start_def)

lemma explained_start: "explained resume run_id reqs store [] (serve_start n store)"
  by (auto simp: explained_def serve_start_def answered_def)

lemma holder_unique:
  assumes "locked run_id s" "i < length (sv_points s)" "sv_points s ! i \<in> {Checking, Resuming}"
    "j < length (sv_points s)" "sv_points s ! j \<in> {Checking, Resuming}"
  shows "i = j"
proof -
  have "sv_lock s = Some i" "sv_lock s = Some j" using assms unfolding locked_def by blast+
  then show ?thesis by simp
qed

lemma locked_leave:
  assumes "locked run_id s" "i < length (sv_points s)" "sv_points s ! i \<in> {Checking, Resuming}"
  shows "locked run_id (s\<lparr>sv_lock := None, sv_store := store, sv_points := (sv_points s)[i := Answered a]\<rparr>)"
proof -
  have "sv_points s ! j \<notin> {Checking, Resuming}" if "j < length (sv_points s)" "j \<noteq> i" for j
    using holder_unique [OF assms that(1)] that(2) by blast
  then show ?thesis using assms(2) by (auto simp: locked_def nth_list_update)
qed

lemma locked_step: "serve resume run_id reqs s s' \<Longrightarrow> locked run_id s \<Longrightarrow> locked run_id s'"
proof (induction rule: serve.induct)
  case (acquire i s)
  then show ?case by (auto simp: locked_def nth_list_update)
next
  case (refuse i s e)
  then show ?case using locked_leave [OF refuse(4,1), where store = "sv_store s" and a = "Inl e"] by simp
next
  case (accept i s r)
  have "sv_points s ! j \<notin> {Checking, Resuming}" if "j < length (sv_points s)" "j \<noteq> i" for j
    using holder_unique [OF accept(4,1) _ that(1)] accept(2) that(2) by blast
  then show ?case using accept by (auto simp: locked_def nth_list_update)
next
  case (complete i s r r')
  then show ?case by (intro locked_leave) auto
qed

lemma held_step: "serve resume run_id reqs s s' \<Longrightarrow> locked run_id s \<Longrightarrow> held s \<Longrightarrow> held s'"
proof (induction rule: serve.induct)
  case (accept i s r)
  then have "sv_lock s = Some i" unfolding locked_def by blast
  then show ?case using accept by (simp add: held_def)
qed (simp_all add: held_def)

text \<open>A move that answers nothing, and an answer, which extends the order by its request.\<close>

lemma explained_silent:
  assumes "explained resume run_id reqs store0 order s" "\<forall>a. sv_points s ! i \<noteq> Answered a" "\<forall>a. p \<noteq> Answered a"
    and "sv_points s' = (sv_points s)[i := p]" "sv_store s' = sv_store s"
  shows "explained resume run_id reqs store0 order s'"
proof -
  have a: "answered s' = answered s" using assms(2-4)
    by (cases "i < length (sv_points s)") (auto simp: answered_def nth_list_update)
  have "sv_points s' ! j = Answered out"
    if "(j, out) \<in> set (fst (serial resume run_id reqs order store0))" for j out
  proof -
    have "sv_points s ! j = Answered out" using assms(1) that by (auto simp: explained_def)
    with assms(2) have "j \<noteq> i" by auto
    then show ?thesis using \<open>sv_points s ! j = Answered out\<close> by (simp add: assms(4))
  qed
  then show ?thesis using assms(1) by (auto simp: explained_def a assms(5))
qed

lemma explained_answer:
  assumes "explained resume run_id reqs store0 order s" "i < length (sv_points s)" "\<forall>a. sv_points s ! i \<noteq> Answered a"
    and "decide resume run_id (fst (reqs ! i)) (snd (reqs ! i)) (sv_store s) = (out, store')"
  shows "explained resume run_id reqs store0 (order @ [i])
    (s\<lparr>sv_lock := l, sv_store := store', sv_points := (sv_points s)[i := Answered out]\<rparr>)"
proof -
  obtain outs where run: "serial resume run_id reqs order store0 = (outs, sv_store s)"
    using assms(1) by (cases "serial resume run_id reqs order store0") (simp add: explained_def)
  have i: "i \<notin> set order" using assms(1,3) by (auto simp: explained_def answered_def)
  have keys: "map fst outs = order"
    using serial_keys [of resume run_id reqs order store0] by (simp add: run)
  have others: "\<forall>(j, a) \<in> set outs. (sv_points s)[i := Answered out] ! j = Answered a"
  proof (clarify)
    fix j a assume "(j, a) \<in> set outs"
    then have "j \<in> set (map fst outs)" by force
    then have "j \<in> set order" by (simp only: keys)
    moreover have "sv_points s ! j = Answered a"
      using assms(1) \<open>(j, a) \<in> set outs\<close> by (auto simp: explained_def run)
    ultimately show "(sv_points s)[i := Answered out] ! j = Answered a" using i by (cases "i = j") auto
  qed
  show ?thesis
    using assms(1,2) others i
    by (auto simp: explained_def serial_snoc run assms(4) answered_def nth_list_update)
qed

lemma explained_step:
  assumes "serve resume run_id reqs s s'" "locked run_id s" "explained resume run_id reqs store0 order s"
  shows "\<exists>order'. explained resume run_id reqs store0 order' s'"
  using assms
proof (induction rule: serve.induct)
  case (acquire i s)
  have "explained resume run_id reqs store0 order (s\<lparr>sv_lock := Some i, sv_points := (sv_points s)[i := Checking]\<rparr>)"
    by (rule explained_silent [OF acquire(5), of i Checking]) (simp_all add: acquire(2))
  then show ?case by blast
next
  case (refuse i s e)
  then have "decide resume run_id (fst (reqs ! i)) (snd (reqs ! i)) (sv_store s) = (Inl e, sv_store s)"
    by (simp add: decide_def)
  from explained_answer [OF refuse(5,1) _ this, where l = None] refuse(2) show ?case by auto
next
  case (accept i s r)
  have "explained resume run_id reqs store0 order (s\<lparr>sv_points := (sv_points s)[i := Resuming]\<rparr>)"
    by (rule explained_silent [OF accept(5), of i Resuming]) (simp_all add: accept(2))
  then show ?case by blast
next
  case (complete i s r r')
  obtain r1 where "check_run run_id (sv_store s) = Inr r1" using complete(1,2,5) by (auto simp: locked_def)
  then have "check_run run_id (sv_store s) = Inr r"
    using complete(3) by (auto simp: check_run_def split: if_splits)
  then have "decide resume run_id (fst (reqs ! i)) (snd (reqs ! i)) (sv_store s) =
      (resume_reply run_id r', dict_put run_id r' (sv_store s))"
    using complete(4) by (simp add: decide_def Let_def)
  from explained_answer [OF complete(6,1) _ this, where l = None] complete(2) show ?case by auto
qed

lemma serve_linearizable:
  assumes "(serve resume run_id reqs)\<^sup>*\<^sup>* (serve_start n store) s"
  shows "locked run_id s \<and> held s \<and> (\<exists>order. explained resume run_id reqs store order s)"
  using assms
proof (induction rule: rtranclp_induct)
  case base
  have "held (serve_start n store)" by (simp add: held_def serve_start_def)
  then show ?case using locked_start explained_start by blast
next
  case (step s s')
  then show ?case using locked_step held_step explained_step by blast
qed


section \<open>At most one decision takes effect\<close>

definition conflict :: "reply \<Rightarrow> bool" where
  "conflict a \<longleftrightarrow> (\<exists>m. a = Inl (409, m))"

context resumable begin

lemma serial_ended:
  assumes "map_of store run_id = Some r" "ended (rn_control r)"
  shows "snd (serial resume run_id reqs order store) = store \<and>
    (\<forall>(i, a) \<in> set (fst (serial resume run_id reqs order store)). conflict a)"
proof (induction order)
  case (Cons i order)
  have "decide resume run_id (fst (reqs ! i)) (snd (reqs ! i)) store = (Inl (not_awaiting run_id (rn_state r)), store)"
    using assms by (rule decide_ended)
  then show ?case using Cons by (simp add: Let_def split_beta conflict_def not_awaiting_def)
qed simp

lemma serial_waiting:
  assumes "map_of store run_id = Some r" "rn_control r = Waiting_Approval"
  shows "length (filter (\<lambda>(i, a). \<not> conflict a) (fst (serial resume run_id reqs order store))) \<le> 1"
    and "order \<noteq> [] \<Longrightarrow> map_of (snd (serial resume run_id reqs order store)) run_id =
      Some (resume (make_decision (fst (reqs ! hd order)) (snd (reqs ! hd order))) r)"
proof -
  have "length (filter (\<lambda>(i, a). \<not> conflict a) (fst (serial resume run_id reqs order store))) \<le> 1 \<and>
    (order \<noteq> [] \<longrightarrow> map_of (snd (serial resume run_id reqs order store)) run_id =
      Some (resume (make_decision (fst (reqs ! hd order)) (snd (reqs ! hd order))) r))"
  proof (cases order)
    case (Cons i rest)
    let ?r = "resume (make_decision (fst (reqs ! i)) (snd (reqs ! i))) r"
    obtain out store1 where d: "decide resume run_id (fst (reqs ! i)) (snd (reqs ! i)) store = (out, store1)" by fastforce
    have s1: "map_of store1 run_id = Some ?r"
      using decide_first(2) [OF assms d] by (simp add: update_conv)
    note after = serial_ended [OF s1 resume_ends [OF assms(2)], of reqs rest]
    then have "filter (\<lambda>(i, a). \<not> conflict a) (fst (serial resume run_id reqs rest store1)) = []"
      by (auto simp: filter_empty_conv)
    with after s1 show ?thesis by (auto simp: Cons d Let_def split_beta)
  qed simp
  then show "length (filter (\<lambda>(i, a). \<not> conflict a) (fst (serial resume run_id reqs order store))) \<le> 1"
    "order \<noteq> [] \<Longrightarrow> map_of (snd (serial resume run_id reqs order store)) run_id =
      Some (resume (make_decision (fst (reqs ! hd order)) (snd (reqs ! hd order))) r)" by auto
qed

lemma two_not_conflicting:
  assumes "length (filter (\<lambda>(i, a). \<not> conflict a) xs) \<le> 1" "(i, a) \<in> set xs" "(j, b) \<in> set xs"
    "\<not> conflict a" "\<not> conflict b"
  shows "(i, a) = (j, b)"
proof -
  have "(i, a) \<in> set (filter (\<lambda>(i, a). \<not> conflict a) xs)" "(j, b) \<in> set (filter (\<lambda>(i, a). \<not> conflict a) xs)"
    using assms(2-5) by auto
  then show ?thesis
    using assms(1) by (cases "filter (\<lambda>(i, a). \<not> conflict a) xs") auto
qed

lemma serve_once:
  assumes "(serve resume run_id reqs)\<^sup>*\<^sup>* (serve_start n store) s"
    and "map_of store run_id = Some r" "rn_control r = Waiting_Approval"
    and "i < length (sv_points s)" "sv_points s ! i = Answered a" "\<not> conflict a"
    and "j < length (sv_points s)" "sv_points s ! j = Answered b" "\<not> conflict b"
  shows "i = j"
proof -
  obtain order where e: "explained resume run_id reqs store order s"
    using serve_linearizable [OF assms(1)] by blast
  have mem: "(k, c) \<in> set (fst (serial resume run_id reqs order store))"
    if "k < length (sv_points s)" "sv_points s ! k = Answered c" for k c
  proof -
    have "k \<in> set order" using e that by (auto simp: explained_def answered_def)
    then have "k \<in> set (map fst (fst (serial resume run_id reqs order store)))" by (simp only: serial_keys)
    then obtain c' where "(k, c') \<in> set (fst (serial resume run_id reqs order store))" by auto
    moreover from this have "sv_points s ! k = Answered c'" using e by (auto simp: explained_def)
    ultimately show ?thesis using that(2) by simp
  qed
  show ?thesis
    using two_not_conflicting [OF serial_waiting(1) [OF assms(2,3)] mem [OF assms(4,5)] mem [OF assms(7,8)] assms(6,9)]
    by simp
qed

end

text \<open>No request waits for ever: while one is unanswered some request can move, and every move advances.\<close>

lemma inside_moves:
  assumes "locked run_id s" "i < length (sv_points s)" "sv_points s ! i \<in> {Checking, Resuming}"
  shows "\<exists>s'. serve resume run_id reqs s s'"
proof (cases "sv_points s ! i = Checking")
  case True
  then show ?thesis
    using serve.refuse [OF assms(2)] serve.accept [OF assms(2)] by (cases "check_run run_id (sv_store s)") blast+
next
  case False
  then have "sv_points s ! i = Resuming" using assms(3) by simp
  moreover from this obtain r where "check_run run_id (sv_store s) = Inr r" using assms(1,2) by (auto simp: locked_def)
  then have "map_of (sv_store s) run_id = Some r" by (auto simp: check_run_def split: option.splits if_splits)
  ultimately show ?thesis using serve.complete [OF assms(2)] by blast
qed

lemma serve_progress:
  assumes "locked run_id s" "held s" "i < length (sv_points s)" "i \<notin> answered s"
  shows "\<exists>s'. serve resume run_id reqs s s'"
proof (cases "sv_points s ! i \<in> {Checking, Resuming}")
  case True
  then show ?thesis using inside_moves [OF assms(1,3)] by blast
next
  case False
  then have arrived: "sv_points s ! i = Arrived"
    using assms(3,4) by (cases "sv_points s ! i") (auto simp: answered_def)
  show ?thesis
  proof (cases "sv_lock s")
    case None
    then show ?thesis using serve.acquire [OF assms(3) arrived] by blast
  next
    case (Some j)
    then show ?thesis using inside_moves [OF assms(1), of j] assms(2) by (simp add: held_def)
  qed
qed

text \<open>Every move advances one request, so the serving ends.\<close>

fun point_rank :: "request_point \<Rightarrow> nat" where
  "point_rank Arrived = 3"
| "point_rank Checking = 2"
| "point_rank Resuming = 1"
| "point_rank (Answered a) = 0"

lemma sum_list_update_less:
  "i < length xs \<Longrightarrow> f y < f (xs ! i) \<Longrightarrow> sum_list (map f (xs[i := y])) < sum_list (map (f :: _ \<Rightarrow> nat) xs)"
proof (induction xs arbitrary: i)
  case (Cons x xs)
  then show ?case by (cases i) auto
qed simp

lemma serve_decreases:
  "serve resume run_id reqs s s' \<Longrightarrow>
     sum_list (map point_rank (sv_points s')) < sum_list (map point_rank (sv_points s))"
  by (induction rule: serve.induct) (auto intro!: sum_list_update_less)

lemma serve_ends:
  assumes "locked run_id s" "held s"
  shows "\<exists>s'. (serve resume run_id reqs)\<^sup>*\<^sup>* s s' \<and> (\<forall>p \<in> set (sv_points s'). \<exists>a. p = Answered a)"
  using assms
proof (induction "sum_list (map point_rank (sv_points s))" arbitrary: s rule: less_induct)
  case less
  show ?case
  proof (cases "\<exists>i < length (sv_points s). i \<notin> answered s")
    case True
    then obtain s1 where m: "serve resume run_id reqs s s1" using serve_progress less.prems by blast
    obtain s' where "(serve resume run_id reqs)\<^sup>*\<^sup>* s1 s'" "\<forall>p \<in> set (sv_points s'). \<exists>a. p = Answered a"
      using less.hyps [OF serve_decreases [OF m] locked_step [OF m less.prems(1)] held_step [OF m less.prems]] by blast
    with m show ?thesis by (meson converse_rtranclp_into_rtranclp)
  next
    case False
    then have "\<forall>p \<in> set (sv_points s). \<exists>a. p = Answered a" by (auto simp: answered_def in_set_conv_nth)
    then show ?thesis by blast
  qed
qed

end
