(* ===== verification/Jobs.thy ===== *)
theory Jobs
  imports Service
begin

text \<open>
  The job on the queue. \<open>CeleryTaskSubmitter.submit\<close> sends \<open>request.model_dump()\<close> as JSON and
  \<open>run_migration\<close> rebuilds a \<open>MigrationRequest\<close> from it (\<open>app/worker/tasks.py\<close>, \<open>app/api/schemas.py\<close>), with
  the model's defaults for the keys a body leaves out, three of which come from the environment. What
  pydantic accepts for a field is a parameter; the code relies on it taking a value of the declared type as
  it is (\<open>accepts_exact\<close>). The lemmas: the worker runs the request that was submitted, whatever its own
  environment says, and a body that is silent gets the configured limits and the approval gate.
\<close>

section \<open>Defaults from the environment\<close>

definition DEFAULT_MAX_USD_PER_RUN :: "environ \<Rightarrow> rat result" where
  "DEFAULT_MAX_USD_PER_RUN environ = py_float (getenv environ ''DEFAULT_MAX_USD_PER_RUN'' ''5.00'')"

definition DEFAULT_MAX_LLM_CALLS_PER_RUN :: "environ \<Rightarrow> int result" where
  "DEFAULT_MAX_LLM_CALLS_PER_RUN environ = py_int (getenv environ ''DEFAULT_MAX_LLM_CALLS_PER_RUN'' ''500'')"

definition DEFAULT_MAX_WALL_CLOCK_SECONDS :: "environ \<Rightarrow> int result" where
  "DEFAULT_MAX_WALL_CLOCK_SECONDS environ = py_int (getenv environ ''DEFAULT_MAX_WALL_CLOCK_SECONDS'' ''3600'')"

section \<open>Validation\<close>

text \<open>What the validators of the field types make of a value, and the report of a failed validation.\<close>

record validators =
  vd_str :: "pyval \<Rightarrow> string option"
  vd_bool :: "pyval \<Rightarrow> bool option"
  vd_int :: "pyval \<Rightarrow> int option"
  vd_float :: "pyval \<Rightarrow> rat option"
  vd_report :: "(string \<times> pyval) list \<Rightarrow> string"

definition accepts_exact :: "validators \<Rightarrow> bool" where
  "accepts_exact vd \<longleftrightarrow> (\<forall>s. vd_str vd (P_Str s) = Some s) \<and> (\<forall>b. vd_bool vd (P_Bool b) = Some b) \<and>
     (\<forall>i. vd_int vd (P_Int i) = Some i) \<and> (\<forall>x. vd_float vd (P_Float x) = Some x)"

text \<open>The four kinds of fields; defaults are not validated.\<close>

definition required :: "(pyval \<Rightarrow> 'a option) \<Rightarrow> string \<Rightarrow> (string \<times> pyval) list \<Rightarrow> 'a option" where
  "required check name kv = Option.bind (map_of kv name) check"

definition defaulted :: "(pyval \<Rightarrow> 'a option) \<Rightarrow> 'a \<Rightarrow> string \<Rightarrow> (string \<times> pyval) list \<Rightarrow> 'a option" where
  "defaulted check d name kv = (case map_of kv name of None \<Rightarrow> Some d | Some v \<Rightarrow> check v)"

definition or_none :: "(pyval \<Rightarrow> 'a option) \<Rightarrow> pyval \<Rightarrow> 'a option option" where
  "or_none check v = (if v = P_None then Some None else map_option Some (check v))"

text \<open>An exception of a default factory is not a validation error: it leaves the model's constructor at once.\<close>

definition made :: "(pyval \<Rightarrow> 'a option) \<Rightarrow> 'a result \<Rightarrow> string \<Rightarrow> (string \<times> pyval) list \<Rightarrow> 'a option result" where
  "made check factory name kv =
     (case map_of kv name of None \<Rightarrow> try_bind factory (\<lambda>x. Inr (Some x)) | Some v \<Rightarrow> Inr (check v))"

text \<open>\<open>MigrationRequest(**payload)\<close>; keys that are no fields are ignored.\<close>

definition load_request :: "validators \<Rightarrow> environ \<Rightarrow> (string \<times> pyval) list \<Rightarrow> migration_request result" where
  "load_request vd environ kv =
     try_bind (made (vd_float vd) (DEFAULT_MAX_USD_PER_RUN environ) ''max_usd'' kv) (\<lambda>max_usd.
     try_bind (made (vd_int vd) (DEFAULT_MAX_LLM_CALLS_PER_RUN environ) ''max_llm_calls'' kv) (\<lambda>max_llm_calls.
     try_bind (made (vd_int vd) (DEFAULT_MAX_WALL_CLOCK_SECONDS environ) ''max_wall_clock_seconds'' kv) (\<lambda>max_seconds.
       case Option.bind (required (vd_str vd) ''source_repo_url'' kv) (\<lambda>source_repo_url.
            Option.bind (defaulted (vd_str vd) ''main'' ''source_ref'' kv) (\<lambda>source_ref.
            Option.bind (required (vd_str vd) ''source_stack'' kv) (\<lambda>source_stack.
            Option.bind (required (vd_str vd) ''target_stack'' kv) (\<lambda>target_stack.
            Option.bind (required (vd_str vd) ''scope_description'' kv) (\<lambda>scope_description.
            Option.bind (defaulted (or_none (vd_str vd)) None ''github_target_repo'' kv) (\<lambda>github_target_repo.
            Option.bind (defaulted (or_none (vd_str vd)) None ''target_repo_url'' kv) (\<lambda>target_repo_url.
            Option.bind (defaulted (vd_bool vd) True ''require_human_approval_before_pr'' kv) (\<lambda>require_approval.
            Option.bind max_usd (\<lambda>usd. Option.bind max_llm_calls (\<lambda>calls. Option.bind max_seconds (\<lambda>seconds.
            Option.bind (defaulted (vd_int vd) 5 ''max_retry_rounds'' kv) (\<lambda>max_retry_rounds.
              Some \<lparr>mg_source_repo_url = source_repo_url, mg_source_ref = source_ref, mg_source_stack = source_stack,
                mg_target_stack = target_stack, mg_scope_description = scope_description,
                mg_github_target_repo = github_target_repo, mg_target_repo_url = target_repo_url,
                mg_require_human_approval_before_pr = require_approval, mg_max_usd = usd, mg_max_llm_calls = calls,
                mg_max_wall_clock_seconds = seconds, mg_max_retry_rounds = max_retry_rounds\<rparr>)))))))))))) of
         None \<Rightarrow> Inl (ForeignError ''ValidationError'' (vd_report vd kv))
       | Some request \<Rightarrow> Inr request)))"

section \<open>The payload of a job\<close>

definition model_dump :: "migration_request \<Rightarrow> (string \<times> pyval) list" where
  "model_dump mg =
     [(''source_repo_url'', P_Str (mg_source_repo_url mg)), (''source_ref'', P_Str (mg_source_ref mg)),
      (''source_stack'', P_Str (mg_source_stack mg)), (''target_stack'', P_Str (mg_target_stack mg)),
      (''scope_description'', P_Str (mg_scope_description mg)),
      (''github_target_repo'', optional P_Str (mg_github_target_repo mg)),
      (''target_repo_url'', optional P_Str (mg_target_repo_url mg)),
      (''require_human_approval_before_pr'', P_Bool (mg_require_human_approval_before_pr mg)),
      (''max_usd'', P_Float (mg_max_usd mg)), (''max_llm_calls'', P_Int (mg_max_llm_calls mg)),
      (''max_wall_clock_seconds'', P_Int (mg_max_wall_clock_seconds mg)),
      (''max_retry_rounds'', P_Int (mg_max_retry_rounds mg))]"

text \<open>\<open>run_migration(run_id, request_payload)\<close>, with the default \<open>GitRepoPreparer()\<close>; the logger is set up first.\<close>

definition run_job ::
  "validators \<Rightarrow> environ \<Rightarrow> git_clone \<Rightarrow> string \<Rightarrow> (string \<times> pyval) list \<Rightarrow> rat \<Rightarrow> fs \<Rightarrow> logger_state \<Rightarrow>
     run result \<times> logger_state" where
  "run_job vd environ git run_id request_payload now f lg =
     (try_bind (load_request vd environ request_payload) (\<lambda>request.
        run_migration git (preparer_base_dir None environ) run_id request now f),
      configure_logging 20 lg)"

section \<open>The submitted request is the one that runs\<close>

lemma field_hits:
  "map_of kv name = Some v \<Longrightarrow> required check name kv = check v"
  "map_of kv name = Some v \<Longrightarrow> defaulted check d name kv = check v"
  "map_of kv name = Some v \<Longrightarrow> made check factory name kv = Inr (check v)"
  by (simp_all add: required_def defaulted_def made_def)

lemma field_misses:
  "map_of kv name = None \<Longrightarrow> required check name kv = None"
  "map_of kv name = None \<Longrightarrow> defaulted check d name kv = Some d"
  "map_of kv name = None \<Longrightarrow> made check factory name kv = try_bind factory (\<lambda>x. Inr (Some x))"
  by (simp_all add: required_def defaulted_def made_def)

lemma or_none_optional: "accepts_exact vd \<Longrightarrow> or_none (vd_str vd) (optional P_Str v) = Some v"
  by (cases v) (simp_all add: or_none_def optional_def accepts_exact_def)

lemma load_dumped: "accepts_exact vd \<Longrightarrow> load_request vd environ (model_dump mg) = Inr mg"
  by (simp add: load_request_def model_dump_def field_hits or_none_optional) (simp add: accepts_exact_def)

lemma run_job_dumped:
  "accepts_exact vd \<Longrightarrow> run_job vd environ git run_id (model_dump mg) now f lg =
     (run_migration git (preparer_base_dir None environ) run_id mg now f, configure_logging 20 lg)"
  by (simp add: run_job_def load_dumped)

section \<open>Bodies that leave fields out\<close>

text \<open>A body with the four keys that have no default, in any order and among keys that are no fields.\<close>

definition bare_body :: "(string \<times> pyval) list \<Rightarrow> string \<Rightarrow> string \<Rightarrow> string \<Rightarrow> string \<Rightarrow> bool" where
  "bare_body kv url src tgt scope \<longleftrightarrow>
     map_of kv ''source_repo_url'' = Some (P_Str url) \<and> map_of kv ''source_stack'' = Some (P_Str src) \<and>
     map_of kv ''target_stack'' = Some (P_Str tgt) \<and> map_of kv ''scope_description'' = Some (P_Str scope) \<and>
     list_all (\<lambda>name. map_of kv name = None)
       [''source_ref'', ''github_target_repo'', ''target_repo_url'', ''require_human_approval_before_pr'', ''max_usd'',
        ''max_llm_calls'', ''max_wall_clock_seconds'', ''max_retry_rounds'']"

lemma load_bare:
  assumes "accepts_exact vd" "bare_body kv url src tgt scope"
  shows "load_request vd environ kv =
    try_bind (DEFAULT_MAX_USD_PER_RUN environ) (\<lambda>usd.
    try_bind (DEFAULT_MAX_LLM_CALLS_PER_RUN environ) (\<lambda>calls.
    try_bind (DEFAULT_MAX_WALL_CLOCK_SECONDS environ) (\<lambda>seconds.
      Inr \<lparr>mg_source_repo_url = url, mg_source_ref = ''main'', mg_source_stack = src, mg_target_stack = tgt,
        mg_scope_description = scope, mg_github_target_repo = None, mg_target_repo_url = None,
        mg_require_human_approval_before_pr = True, mg_max_usd = usd, mg_max_llm_calls = calls,
        mg_max_wall_clock_seconds = seconds, mg_max_retry_rounds = 5\<rparr>)))"
proof -
  have exact: "\<And>s. vd_str vd (P_Str s) = Some s" using assms(1) by (simp add: accepts_exact_def)
  note body = assms(2) [unfolded bare_body_def list.pred_inject]
  show ?thesis
    by (cases "DEFAULT_MAX_USD_PER_RUN environ"; cases "DEFAULT_MAX_LLM_CALLS_PER_RUN environ";
        cases "DEFAULT_MAX_WALL_CLOCK_SECONDS environ")
      (simp_all add: load_request_def field_hits field_misses body exact)
qed

lemma default_limits_set:
  assumes "map_of environ ''DEFAULT_MAX_USD_PER_RUN'' = None" "map_of environ ''DEFAULT_MAX_LLM_CALLS_PER_RUN'' = None"
    "map_of environ ''DEFAULT_MAX_WALL_CLOCK_SECONDS'' = None"
  shows "DEFAULT_MAX_USD_PER_RUN environ = Inr 5" "DEFAULT_MAX_LLM_CALLS_PER_RUN environ = Inr 500"
    "DEFAULT_MAX_WALL_CLOCK_SECONDS environ = Inr 3600"
proof -
  have "float_literal ''5.00'' = Some (of_int 5)" "py_int ''500'' = Inr 500" "py_int ''3600'' = Inr 3600"
    by code_simp+
  then show "DEFAULT_MAX_USD_PER_RUN environ = Inr 5" "DEFAULT_MAX_LLM_CALLS_PER_RUN environ = Inr 500"
    "DEFAULT_MAX_WALL_CLOCK_SECONDS environ = Inr 3600"
    using assms py_float_integer [of "''5.00''" 5]
    by (simp_all add: DEFAULT_MAX_USD_PER_RUN_def DEFAULT_MAX_LLM_CALLS_PER_RUN_def DEFAULT_MAX_WALL_CLOCK_SECONDS_def)
qed

text \<open>Without one of those four keys nothing runs.\<close>

lemma load_incomplete:
  assumes "map_of kv name = None"
    and "name \<in> {''source_repo_url'', ''source_stack'', ''target_stack'', ''scope_description''}"
  shows "\<exists>e. load_request vd environ kv = Inl e"
proof -
  have none: "Option.bind x (\<lambda>_. None) = None" for x :: "'x option" by (cases x) simp_all
  show ?thesis
    using assms(2) unfolding load_request_def
    by (elim insertE emptyE; insert assms(1))
      (auto simp: field_misses none try_bind_def split: sum.split option.split Option.bind_splits)
qed

end
