(* ===== verification/Examples.thy ===== *)
theory Examples
  imports Example_Run Decisions Jobs
begin

text \<open>
  Small concrete inputs for the properties of single components: two independent tasks and their wave,
  two units that refer to each other, one container run, one workspace. Each is evaluated once here.
\<close>

section \<open>A wave of two tasks\<close>

definition two_tasks :: graph_state where
  "two_tasks = empty_state\<lparr>gs_config := Some example_config, gs_budget := Some example_budget,
     gs_comprehension := Some \<lparr>cr_source_stack = '''', cr_repo_root = '''', cr_units = [], cr_global_notes = [],
       cr_unresolved_ambiguities = []\<rparr>,
     gs_tasks := [new_task ''a'' [] [] [] '''', new_task ''b'' [] [] [] '''']\<rparr>"

definition two_sends :: "graph_state list" where
  "two_sends = (case next_of N_synthesis two_tasks 0 0 of Inr (Fanout sends) \<Rightarrow> sends | _ \<Rightarrow> [])"

definition two_updates :: "state_update list" where
  "two_updates = map (\<lambda>a. case editor_node (co_code_generator example_collaborators) 0 0 0 a of
     Inr u \<Rightarrow> u | Inl e \<Rightarrow> no_update) two_sends"

definition two_ok :: bool where
  "two_ok \<longleftrightarrow> next_of N_synthesis two_tasks 0 0 = Inr (Fanout two_sends) \<and>
     map gs_current_task two_sends = map Some (gs_tasks two_tasks) \<and>
     map (editor_node (co_code_generator example_collaborators) 0 0 0) two_sends = map Inr two_updates"

lemma two_evaluated: two_ok
  by code_simp

lemma two_tasks_length: "length (gs_tasks two_tasks) = 2"
  by (simp add: two_tasks_def)

lemma two_tasks_distinct: "distinct (map mt_id (gs_tasks two_tasks))"
  by (simp add: two_tasks_def new_task_def)

lemma example_budget_ok: "budget_ok example_budget"
  unfolding example_budget_def by (rule budget_ok_new) code_simp

lemma two_wave:
  "next_of N_synthesis two_tasks 0 0 = Inr (Fanout two_sends)"
  "map gs_current_task two_sends = map Some (gs_tasks two_tasks)"
  "list_all2 branch two_sends two_updates"
proof -
  show "next_of N_synthesis two_tasks 0 0 = Inr (Fanout two_sends)"
    "map gs_current_task two_sends = map Some (gs_tasks two_tasks)"
    using two_evaluated by (simp_all add: two_ok_def)
  have m: "map (editor_node (co_code_generator example_collaborators) 0 0 0) two_sends = map Inr two_updates"
    using two_evaluated by (simp add: two_ok_def)
  then have "length two_sends = length two_updates" by (metis length_map)
  then show "list_all2 branch two_sends two_updates"
    using m unfolding list_all2_conv_all_nth branch_def by (metis length_map nth_map)
qed

section \<open>Two units\<close>

definition unit_a :: semantic_unit where
  "unit_a = \<lparr>su_id = ''service::a'', su_kind = Kind_SERVICE, su_source_files = [''A.java''],
     su_depends_on_unit_ids = [''repository::b''], su_payload = Service_Unit \<lparr>sv_name = ''A'',
       sv_description = '''', sv_depends_on = [''B''], sv_business_logic_summary = ''''\<rparr>,
     su_stack_specific_hints = []\<rparr>"

definition unit_b :: semantic_unit where
  "unit_b = \<lparr>su_id = ''repository::b'', su_kind = Kind_REPOSITORY, su_source_files = [''B.java''],
     su_depends_on_unit_ids = [], su_payload = Repository_Unit \<lparr>rp_name = ''B'',
       rp_description = '''', rp_target_data_model = '''', rp_operations = []\<rparr>,
     su_stack_specific_hints = []\<rparr>"

definition two_units :: comprehension_result where
  "two_units = \<lparr>cr_source_stack = ''springboot'', cr_repo_root = ''/s'', cr_units = [unit_a, unit_b],
     cr_global_notes = [], cr_unresolved_ambiguities = []\<rparr>"

definition two_plan :: "migration_task list" where
  "two_plan = (case run_synthesis two_units ''fastapi'' None of Inr ts \<Rightarrow> ts | Inl e \<Rightarrow> [])"

definition two_plan_shape :: "migration_task list result \<Rightarrow> bool" where
  "two_plan_shape plan \<longleftrightarrow> (case plan of Inl e \<Rightarrow> False | Inr ts \<Rightarrow>
     map mt_source_unit_ids ts = [[''service::a''], [''repository::b'']] \<and>
     map mt_id ts = [''task::app_services_a_py'', ''task::app_repositories_b_py''] \<and>
     map mt_depends_on_task_ids ts = [[''task::app_repositories_b_py''], []])"

lemma two_plan_evaluated: "two_plan_shape (run_synthesis two_units ''fastapi'' None)"
  by code_simp

lemma two_plan_facts:
  "run_synthesis two_units ''fastapi'' None = Inr two_plan" "distinct (map su_id (cr_units two_units))"
  "map mt_source_unit_ids two_plan = [[''service::a''], [''repository::b'']]"
  "map mt_id two_plan = [''task::app_services_a_py'', ''task::app_repositories_b_py'']"
  "map mt_depends_on_task_ids two_plan = [[''task::app_repositories_b_py''], []]"
  using two_plan_evaluated
  by (auto simp: two_plan_def two_plan_shape_def two_units_def unit_a_def unit_b_def split: sum.splits)

section \<open>A comprehension of two files\<close>

definition raw_a :: raw_extracted_unit where
  "raw_a = \<lparr>ru_kind = su_kind unit_a, ru_name = ''A'', ru_payload = su_payload unit_a, ru_stack_specific_hints = []\<rparr>"

definition raw_b :: raw_extracted_unit where
  "raw_b = \<lparr>ru_kind = su_kind unit_b, ru_name = ''B'', ru_payload = su_payload unit_b, ru_stack_specific_hints = []\<rparr>"

definition two_files_adapter :: source_adapter where
  "two_files_adapter = \<lparr>sa_stack_key = ''k'', sa_display_name = ''K'',
     sa_discover_files = (\<lambda>base tree scope. map (\<lambda>p. \<lparr>df_path = p, df_relative_path = p, df_likely_kind = None,
       df_content = ''''\<rparr>) [''A.java'', ''B.java'']),
     sa_build_extraction_prompt = df_path, sa_guess_unit_name = df_path\<rparr>"

definition two_files_extractor :: "nat \<Rightarrow> string \<Rightarrow> extraction_response result" where
  "two_files_extractor i prompt = Inr (example_reply \<lparr>fx_units = (if prompt = ''A.java'' then [raw_a, raw_a] else [raw_b]),
     fx_ambiguities = []\<rparr>)"

definition two_files_run :: "(comprehension_result \<times> rat \<times> string list \<times> (rat \<times> string) list) result" where
  "two_files_run = run_comprehension (Dir_Tree [] []) two_files_extractor ''/s'' ''all'' ''k'' 8 (Some two_files_adapter)"

definition two_files_ok :: bool where
  "two_files_ok \<longleftrightarrow> (case two_files_run of Inl e \<Rightarrow> False
     | Inr (r, cost, errs, calls) \<Rightarrow> map su_id (cr_units r) = [''service::a'', ''service::a_2'', ''repository::b''] \<and>
         su_depends_on_unit_ids (hd (cr_units r)) = [''repository::b''] \<and>
         calls = [(0, ''A.java''), (1, ''B.java'')])"

lemma two_files_facts: two_files_ok
  by code_simp

section \<open>A unit whose reference is out of scope\<close>

definition lone_pending :: "raw_extracted_unit \<Rightarrow> loop_state" where
  "lone_pending raw = \<lparr>ls_total_cost = 0, ls_error_log = [], ls_ambiguities = [],
     ls_pending = [\<lparr>pu_raw = raw, pu_source_relative_path = ''A.java'', pu_assigned_id = ''service::a''\<rparr>],
     ls_used_ids = [''service::a''], ls_calls = []\<rparr>"

section \<open>Branches that fail\<close>

definition branch_facts :: "graph_state \<Rightarrow> bool" where
  "branch_facts a \<longleftrightarrow> gs_current_task a \<noteq> None \<and> gs_budget a \<noteq> None \<and>
     (case editor_node (\<lambda>p. Inl (ValueError ''down'')) 0 0 0 a of Inl e \<Rightarrow> False
      | Inr u \<Rightarrow> map_option (map mt_status) (up_tasks u) = Some [St_RETRYING]) \<and>
     (case editor_node (\<lambda>p. Inr \<lparr>lr_result = None, lr_cost_usd = 1, lr_input_tokens = 1, lr_output_tokens = 1\<rparr>) 0 0 0 a of
        Inl e \<Rightarrow> True | Inr u \<Rightarrow> False)"

lemma branch_evaluated: "branch_facts (hd two_sends)"
  by code_simp

lemma failed_branch:
  "\<exists>u t. editor_node (\<lambda>p. Inl (ValueError ''down'')) 0 0 0 (hd two_sends) = Inr u \<and> up_tasks u = Some [t] \<and>
     mt_status t = St_RETRYING"
  using branch_evaluated by (auto simp: branch_facts_def map_eq_Cons_conv split: sum.splits)

lemma unparsed_branch:
  "\<exists>e. editor_node (\<lambda>p. Inr \<lparr>lr_result = None, lr_cost_usd = 1, lr_input_tokens = 1, lr_output_tokens = 1\<rparr>) 0 0 0
     (hd two_sends) = Inl e \<and> gs_current_task (hd two_sends) \<noteq> None \<and> gs_budget (hd two_sends) \<noteq> None"
  using branch_evaluated by (auto simp: branch_facts_def split: sum.splits)

section \<open>A failed suite\<close>

definition tested_state :: "int \<Rightarrow> graph_state" where
  "tested_state n = empty_state\<lparr>gs_budget := Some example_budget, gs_retry_round := n,
     gs_tasks := [new_task ''a'' [] [] [] ''''\<lparr>mt_status := St_SUCCEEDED\<rparr>],
     gs_editor_results := [\<lparr>er_task_id = ''a'', er_diffs = example_files, er_editor_notes = '''', er_tokens_used = 0,
       er_produced_at = 0\<rparr>],
     gs_full_suite_result := Some (example_suite\<lparr>tr_outcome := Out_FAILED\<rparr>)\<rparr>"

definition blame_all :: "string \<Rightarrow> error_analysis_response result" where
  "blame_all prompt = Inr (example_reply \<lparr>el_analyses = map (\<lambda>i. \<lparr>ea_task_id = i, ea_root_cause_summary = '''',
     ea_is_retryable = True, ea_suggested_fix_instructions = None, ea_requires_replan = False\<rparr>) [''a'', ''zz''],
     el_unattributable_summary = ''''\<rparr>)"

definition blamed_ok :: bool where
  "blamed_ok \<longleftrightarrow> (case error_analysis_node blame_all 0 (tested_state 0) of Inl e \<Rightarrow> False
     | Inr u \<Rightarrow> map_option (map mt_status) (up_tasks u) = Some [St_RETRYING])"

lemma blamed_evaluated: blamed_ok
  by code_simp

lemma blamed: "\<exists>u t. error_analysis_node blame_all 0 (tested_state 0) = Inr u \<and> up_tasks u = Some [t] \<and> mt_status t = St_RETRYING"
  using blamed_evaluated by (auto simp: blamed_ok_def map_eq_Cons_conv split: sum.splits)

section \<open>A workspace with a superseded attempt\<close>

definition attempt_of :: "string \<Rightarrow> string \<Rightarrow> editor_result" where
  "attempt_of path content = \<lparr>er_task_id = ''a'', er_diffs = [\<lparr>fd_path = path, fd_content = content, fd_is_new_file = True\<rparr>],
     er_editor_notes = '''', er_tokens_used = 0, er_produced_at = 0\<rparr>"

definition two_attempts :: "editor_result list" where
  "two_attempts = [attempt_of ''old.py'' ''o'', attempt_of ''new.py'' ''n'']"

definition done_a :: "migration_task list" where
  "done_a = [new_task ''a'' [] [] [] ''''\<lparr>mt_status := St_SUCCEEDED\<rparr>]"

definition old_files :: fs where
  "old_files = [(''/t'', Dir), (''/t/old.py'', File ''o'')]"

definition attempts_ok :: bool where
  "attempts_ok \<longleftrightarrow> \<not> isl (snd (prepare_workspace plain_realpath ''/t'' two_attempts done_a old_files)) \<and>
     plain_realpath ''/t'' = ''/t'' \<and>
     list_all (\<lambda>d. plain_segments (py_split (CHR ''/'') (fd_path d))) (all_diffs two_attempts) \<and>
     effective_diffs two_attempts done_a = [\<lparr>fd_path = ''new.py'', fd_content = ''n'', fd_is_new_file = True\<rparr>] \<and>
     stale_paths two_attempts done_a = [''old.py'']"

lemma attempts_evaluated: attempts_ok
  by code_simp

lemma attempts_facts:
  "\<exists>f' written. prepare_workspace plain_realpath ''/t'' two_attempts done_a old_files = (f', Inr written)"
  "plain_realpath ''/t'' = ''/t''"
  "\<forall>d \<in> set (all_diffs two_attempts). plain_segments (py_split (CHR ''/'') (fd_path d))"
  "effective_diffs two_attempts done_a = [\<lparr>fd_path = ''new.py'', fd_content = ''n'', fd_is_new_file = True\<rparr>]"
  "stale_paths two_attempts done_a = [''old.py'']"
proof -
  have a: attempts_ok by (rule attempts_evaluated)
  show "\<exists>f' written. prepare_workspace plain_realpath ''/t'' two_attempts done_a old_files = (f', Inr written)"
    using a by (cases "prepare_workspace plain_realpath ''/t'' two_attempts done_a old_files"; cases "snd (prepare_workspace plain_realpath ''/t'' two_attempts done_a old_files)")
      (auto simp: attempts_ok_def)
  show "plain_realpath ''/t'' = ''/t''"
    "effective_diffs two_attempts done_a = [\<lparr>fd_path = ''new.py'', fd_content = ''n'', fd_is_new_file = True\<rparr>]"
    "stale_paths two_attempts done_a = [''old.py'']"
    "\<forall>d \<in> set (all_diffs two_attempts). plain_segments (py_split (CHR ''/'') (fd_path d))"
    using a by (simp_all add: attempts_ok_def list_all_iff)
qed

section \<open>Paths and requests\<close>

definition escaping_diff :: file_diff where
  "escaping_diff = \<lparr>fd_path = ''../x.py'', fd_content = '''', fd_is_new_file = True\<rparr>"

lemma escaping_refused: "isl (resolve_safe_path plain_realpath ''/t'' (fd_path escaping_diff))"
  by code_simp

lemma example_paths:
  "publishable_path_problem ''app/services/a.py'' = None" "plain_realpath ''/t'' \<noteq> ''/''"
  "publishable_path_problem (fd_path escaping_diff) \<noteq> None" "plain_realpath ''/w/run-1/target'' \<noteq> ''/''"
  by code_simp+

definition example_request :: "file_diff list \<Rightarrow> publish_request" where
  "example_request files = \<lparr>pq_repo_full_name = ''o/r'', pq_base_branch = ''main'', pq_branch_name = ''b'',
     pq_commit_message = ''m'', pq_pr_title = ''t'', pq_pr_body = '''', pq_files = files\<rparr>"

lemma good_publish: "case fst (github_publish (Some ''t'') good_api (example_request example_files)) of Inl e \<Rightarrow> False | Inr pr \<Rightarrow> True"
  by code_simp

definition shipping_state :: "file_diff list \<Rightarrow> graph_state" where
  "shipping_state files = empty_state\<lparr>gs_config := Some example_config, gs_tasks := done_a,
     gs_editor_results := [\<lparr>er_task_id = ''a'', er_diffs = files, er_editor_notes = '''', er_tokens_used = 0, er_produced_at = 0\<rparr>]\<rparr>"

lemma shipping_facts: "case aggregate_node (shipping_state example_files) of Inl e \<Rightarrow> False | Inr u \<Rightarrow> True"
  by code_simp

lemma shipping_effective: "effective_of (shipping_state example_files) = example_files"
  by code_simp

section \<open>Two containers that succeed\<close>

definition good_run :: "sandbox_run_result result \<times> docker_event list" where
  "good_run = docker_run plain_realpath default_limits ''/t'' fastapi_test_adapter None good_container good_container"

definition good_run_ok :: bool where
  "good_run_ok \<longleftrightarrow> (case good_run of (Inl e, ev) \<Rightarrow> False | (Inr r, ev) \<Rightarrow> tr_outcome (sr_test_result r) = Out_PASSED \<and>
     Docker_Run (install_container plain_realpath default_limits ''/t'' fastapi_test_adapter) \<in> set ev)"

lemma good_run_evaluated: good_run_ok
  by code_simp

lemma good_containers:
  "\<exists>r ev. docker_run plain_realpath default_limits ''/t'' fastapi_test_adapter None good_container good_container = (Inr r, ev) \<and>
     tr_outcome (sr_test_result r) = Out_PASSED"
  "Docker_Run (install_container plain_realpath default_limits ''/t'' fastapi_test_adapter) \<in>
     set (snd (docker_run plain_realpath default_limits ''/t'' fastapi_test_adapter None good_container good_container))"
  using good_run_evaluated unfolding good_run_ok_def good_run_def by (auto split: prod.splits sum.splits)

section \<open>Two requests for the waiting run\<close>

definition example_requests :: "(bool \<times> string option) list" where
  "example_requests = [(True, None), (False, None)]"

definition example_store :: run_store where
  "example_store = [(''run-1'', example_waiting)]"

lemma example_stored: "map_of example_store ''run-1'' = Some example_waiting" "rn_control example_waiting = Waiting_Approval"
  using example_facts(2) by (simp_all add: example_store_def example_waiting_ok_def)

lemma serve_length: "(serve resume run_id reqs)\<^sup>*\<^sup>* s s' \<Longrightarrow> length (sv_points s') = length (sv_points s)"
  by (induction rule: rtranclp_induct) (auto elim: serve.cases)

lemma example_served:
  "\<exists>s. (serve (resume_run example_publisher) ''run-1'' example_requests)\<^sup>*\<^sup>* (serve_start 2 example_store) s \<and>
     (\<forall>p \<in> set (sv_points s). \<exists>a. p = Answered a) \<and> answered s = {0, 1}"
proof -
  have "held (serve_start 2 example_store)" by (simp add: held_def serve_start_def)
  from serve_ends [OF locked_start this] obtain s where
    s: "(serve (resume_run example_publisher) ''run-1'' example_requests)\<^sup>*\<^sup>* (serve_start 2 example_store) s"
    "\<forall>p \<in> set (sv_points s). \<exists>a. p = Answered a" by blast
  have "length (sv_points s) = 2" using serve_length [OF s(1)] by (simp add: serve_start_def)
  then have "answered s = {0, 1}" using s(2) by (auto simp: answered_def)
  with s show ?thesis by blast
qed

lemma example_decided:
  obtains resp store' where "decide (resume_run example_publisher) ''run-1'' True None example_store = (Inr resp, store')"
proof -
  obtain config draft where "gs_config (rn_state example_waiting) = Some config" "gs_pr_draft (rn_state example_waiting) = Some draft"
    using example_facts(2) by (auto simp: example_waiting_ok_def)
  moreover obtain out1 store1 where d1: "decide (resume_run example_publisher) ''run-1'' True None example_store = (out1, store1)" by fastforce
  moreover obtain out2 store2 where "decide (resume_run example_publisher) ''run-1'' False None store1 = (out2, store2)" by fastforce
  ultimately have "\<exists>resp. out1 = Inr resp" using resumed.decide_twice(1) [OF example_stored] by blast
  with d1 that show thesis by blast
qed

text \<open>The first request takes the lock, is checked and is answered; then the second.\<close>

lemma serve_one:
  assumes "i < length (sv_points s)" "sv_points s ! i = Arrived" "sv_lock s = None"
    and "decide resume run_id (fst (reqs ! i)) (snd (reqs ! i)) (sv_store s) = (out, store')"
  shows "(serve resume run_id reqs)\<^sup>*\<^sup>* s \<lparr>sv_lock = None, sv_store = store', sv_points = (sv_points s)[i := Answered out]\<rparr>"
proof -
  let ?s1 = "s\<lparr>sv_lock := Some i, sv_points := (sv_points s)[i := Checking]\<rparr>"
  have s1: "serve resume run_id reqs s ?s1" using assms(1-3) by (rule serve.acquire)
  show ?thesis
  proof (cases "check_run run_id (sv_store s)")
    case (Inl e)
    then have "serve resume run_id reqs ?s1 (?s1\<lparr>sv_lock := None, sv_points := (sv_points ?s1)[i := Answered (Inl e)]\<rparr>)"
      using assms(1) by (intro serve.refuse) simp_all
    with s1 have "(serve resume run_id reqs)\<^sup>*\<^sup>* s (?s1\<lparr>sv_lock := None, sv_points := (sv_points ?s1)[i := Answered (Inl e)]\<rparr>)"
      by (meson rtranclp.rtrancl_into_rtrancl rtranclp.rtrancl_refl)
    then show ?thesis using Inl assms(4) by (cases s) (auto simp: decide_def)
  next
    case (Inr r)
    let ?s2 = "?s1\<lparr>sv_points := (sv_points ?s1)[i := Resuming]\<rparr>"
    let ?r = "resume (make_decision (fst (reqs ! i)) (snd (reqs ! i))) r"
    have s2: "serve resume run_id reqs ?s1 ?s2" using assms(1) Inr by (intro serve.accept [where r = r]) simp_all
    have "map_of (sv_store s) run_id = Some r" using Inr by (auto simp: check_run_def split: option.splits if_splits)
    then have "serve resume run_id reqs ?s2 (?s2\<lparr>sv_lock := None, sv_store := dict_put run_id ?r (sv_store ?s2),
        sv_points := (sv_points ?s2)[i := Answered (resume_reply run_id ?r)]\<rparr>)"
      using assms(1) by (intro serve.complete [where r = r]) simp_all
    with s1 s2 have "(serve resume run_id reqs)\<^sup>*\<^sup>* s (?s2\<lparr>sv_lock := None, sv_store := dict_put run_id ?r (sv_store ?s2),
        sv_points := (sv_points ?s2)[i := Answered (resume_reply run_id ?r)]\<rparr>)"
      by (meson rtranclp.rtrancl_into_rtrancl rtranclp.rtrancl_refl)
    then show ?thesis using Inr assms(4) by (cases s) (auto simp: decide_def Let_def)
  qed
qed

lemma example_first_wins:
  "\<exists>s a b. (serve (resume_run example_publisher) ''run-1'' example_requests)\<^sup>*\<^sup>* (serve_start 2 example_store) s \<and>
     length (sv_points s) = 2 \<and> sv_points s ! 0 = Answered a \<and> (\<nexists>m. a = Inl (409, m)) \<and> sv_points s ! 1 = Answered b"
proof -
  let ?serve = "serve (resume_run example_publisher) ''run-1'' example_requests"
  obtain resp store' where d: "decide (resume_run example_publisher) ''run-1'' True None example_store = (Inr resp, store')"
    by (rule example_decided)
  obtain out store2 where e: "decide (resume_run example_publisher) ''run-1'' False None store' = (out, store2)" by fastforce
  let ?s0 = "serve_start 2 example_store"
  let ?s1 = "\<lparr>sv_lock = None, sv_store = store', sv_points = (sv_points ?s0)[0 := Answered (Inr resp)]\<rparr>"
  let ?s2 = "\<lparr>sv_lock = None, sv_store = store2, sv_points = (sv_points ?s1)[1 := Answered out]\<rparr>"
  have "?serve\<^sup>*\<^sup>* ?s0 ?s1"
    using d by (intro serve_one) (simp_all add: serve_start_def example_requests_def)
  moreover have "?serve\<^sup>*\<^sup>* ?s1 ?s2"
    using e by (intro serve_one) (simp_all add: serve_start_def example_requests_def nth_Cons')
  ultimately have "?serve\<^sup>*\<^sup>* ?s0 ?s2" by (rule rtranclp_trans)
  moreover have "sv_points ?s2 = [Answered (Inr resp), Answered out]"
    by (simp add: serve_start_def numeral_2_eq_2)
  ultimately show ?thesis by (intro exI [of _ ?s2] exI [of _ "Inr resp"] exI [of _ out]) auto
qed

lemma spent_out: "budget_ok (record_call example_budget 8 1 True)" "is_exhausted (record_call example_budget 8 1 True) 0"
proof -
  show "budget_ok (record_call example_budget 8 1 True)"
    using example_budget_ok by (rule budget_ok_record_call) simp
  show "is_exhausted (record_call example_budget 8 1 True) 0"
    unfolding is_exhausted_def by code_simp
qed

section \<open>The service, from the request to the pull request\<close>

lemma example_service:
  "\<exists>s r. (system_step (Some ''k''))\<^sup>*\<^sup>* empty_system s \<and> map_of (sy_store s) ''run-1'' = Some r \<and>
     publications (rn_log r) \<noteq> [] \<and> sy_requests s =
       [(Some ''k'', Post_Migrations example_migration), (Some ''k'', Post_Approve ''run-1'' None)]"
proof -
  let ?step = "system_step (Some ''k'')" and ?m = example_migration
  let ?s1 = "\<lparr>sy_queue = [(''run-1'', ?m)], sy_store = [], sy_requests = [(Some ''k'', Post_Migrations ?m)]\<rparr>"
  have "handle (answer_run example_publisher) (Some ''k'') ''1'' (Some ''k'') (Post_Migrations ?m) empty_system =
      (R_Submitted (''run-1'', ''queued''), \<lparr>sy_queue = [(''run-1'', ?m)], sy_store = [], sy_requests = []\<rparr>)"
    by (simp add: handle_def needs_key_def require_api_key_def submit_migration_def celery_submit_def empty_system_def Let_def)
  from request [OF this] have s1: "?step\<^sup>*\<^sup>* empty_system ?s1" by (simp add: empty_system_def r_into_rtranclp)
  let ?s2 = "?s1\<lparr>sy_store := dict_put ''run-1'' example_start []\<rparr>"
  have "?step ?s1 (?s1\<lparr>sy_store := dict_put ''run-1'' example_start (sy_store ?s1)\<rparr>)"
    by (rule deliver [OF _ _ example_job]) simp_all
  with s1 have s2: "?step\<^sup>*\<^sup>* empty_system ?s2" by (simp add: rtranclp.rtrancl_into_rtrancl)
  have "undecided example_waiting"
    using example_facts(2) by (simp add: undecided_def example_waiting_ok_def)
  then have moves: "worker_move\<^sup>*\<^sup>* example_start example_waiting"
    by (rule undecided_moves [OF example_steps(2)])
  have "map_of (sy_store ?s2) ''run-1'' = Some example_start" by simp
  from system_moves [OF moves this] obtain s3 where s3: "?step\<^sup>*\<^sup>* ?s2 s3"
    "map_of (sy_store s3) ''run-1'' = Some example_waiting" "sy_requests s3 = sy_requests ?s2" by blast
  let ?r = "answer_run example_publisher (make_decision True None) example_waiting"
  let ?s4 = "s3\<lparr>sy_store := dict_put ''run-1'' ?r (sy_store s3)\<rparr>"
  have "check_run ''run-1'' (sy_store s3) = Inr example_waiting"
    using s3(2) example_stored(2) by (simp add: check_run_def is_awaiting_approval_def)
  then have "handle (answer_run example_publisher) (Some ''k'') '''' (Some ''k'') (Post_Approve ''run-1'' None) s3 =
      (reply_of R_Decided (resume_reply ''run-1'' ?r), ?s4)"
    by (simp add: handle_def needs_key_def require_api_key_def approve_migration_def decide_def body_feedback_def Let_def)
  from request [OF this] s2 s3(1)
  have "?step\<^sup>*\<^sup>* empty_system (?s4\<lparr>sy_requests := sy_requests s3 @ [(Some ''k'', Post_Approve ''run-1'' None)]\<rparr>)"
    by (meson rtranclp.rtrancl_into_rtrancl rtranclp_trans)
  moreover have "publications (rn_log ?r) \<noteq> []"
    using example_facts(4) by (auto simp: example_end_ok_def)
  ultimately show ?thesis
    by (intro exI [of _ "?s4\<lparr>sy_requests := sy_requests s3 @ [(Some ''k'', Post_Approve ''run-1'' None)]\<rparr>"] exI [of _ ?r])
      (simp add: update_conv s3(3))
qed

text \<open>A state handed back as dictionaries with plain values.\<close>

definition dumped :: shape where
  "dumped = \<lparr>sh_object = P_Dict, sh_enum = P_Str\<rparr>"

lemma dumped_faithful: "faithful dumped"
  by (simp add: dumped_def faithful_def)

section \<open>Corner cases of the code\<close>

text \<open>The quotient of the comment in \<open>affordable_calls\<close>, and one that does lose a call.\<close>

lemma floordiv_comment: "floordiv (fl (4 / 10)) (fl (1 / 10)) = 4" "floordiv (fl (3 / 10)) (fl (1 / 10)) = 2"
  by code_simp+

text \<open>The clock passes the limit between the two readings of \<open>route_to_editors\<close>.\<close>

lemma empty_wave: "route_to_editors two_tasks 0 3600 = Inr (Sends [])" "next_of N_synthesis two_tasks 0 3600 = Inr Finished"
proof -
  have early: "\<not> is_exhausted example_budget 0" and late: "is_exhausted example_budget 3600"
    using not_exhausted_iff [of example_budget 0] not_exhausted_iff [of example_budget 3600]
    by (simp_all add: example_budget_def new_budget_def elapsed_seconds_def fsub_def fl_of_int [of 3600, simplified])
  have ready: "get_ready_tasks (gs_tasks two_tasks) \<noteq> []"
    by (simp add: two_tasks_def get_ready_tasks_def is_ready_def new_task_def)
  show sends: "route_to_editors two_tasks 0 3600 = Inr (Sends [])"
    using early late ready by (simp add: route_to_editors_def affordable_calls_def two_tasks_def Let_def)
  show "next_of N_synthesis two_tasks 0 3600 = Inr Finished"
    by (simp add: sends dispatch_def)
qed

text \<open>A trailing newline gets past the character class and the protected file names.\<close>

lemma newline_path: "publishable_path_problem (''.gitmodules'' @ newline) = None"
  by code_simp

section \<open>A body and strict validators\<close>

text \<open>Validators that take a value of the declared type and nothing else.\<close>

definition exact_validators :: validators where
  "exact_validators = \<lparr>vd_str = (\<lambda>v. case v of P_Str s \<Rightarrow> Some s | _ \<Rightarrow> None),
     vd_bool = (\<lambda>v. case v of P_Bool b \<Rightarrow> Some b | _ \<Rightarrow> None),
     vd_int = (\<lambda>v. case v of P_Int i \<Rightarrow> Some i | _ \<Rightarrow> None),
     vd_float = (\<lambda>v. case v of P_Float x \<Rightarrow> Some x | P_Int i \<Rightarrow> Some (fl (of_int i)) | _ \<Rightarrow> None),
     vd_report = (\<lambda>kv. ''invalid request'')\<rparr>"

lemma exact_validators_exact: "accepts_exact exact_validators"
  by (simp add: accepts_exact_def exact_validators_def)

definition example_body :: "(string \<times> pyval) list" where
  "example_body = [(''source_repo_url'', P_Str ''u''), (''source_stack'', P_Str ''springboot''),
     (''target_stack'', P_Str ''fastapi''), (''scope_description'', P_Str ''all''), (''note'', P_Int 1)]"

lemma example_body_bare: "bare_body example_body ''u'' ''springboot'' ''fastapi'' ''all''"
  by (simp add: bare_body_def example_body_def)

end
