(* ===== verification/Spec2Isabelle.thy ===== *)
theory Spec2Isabelle
  imports Examples Pipeline_Budget Docker_Runner Worker
begin

text \<open>
StackMigrate (\<open>src/app\<close>) migrates a module of a Spring Boot application to FastAPI. A LangGraph
  pipeline reads the source files with a model (comprehension), plans one task per target file
  (synthesis), generates the files in parallel branches (editor), runs the generated code's tests in
  Docker (sandbox), blames and retries (error analysis), drafts a pull request (aggregation), waits
  for a human (approval) and publishes. A FastAPI server and a Celery worker drive it.

  The parts and their theories, in the order of the imports:

    \<^item> \<open>Prelude\<close>, \<open>Floats\<close>: exceptions as values, Python strings, insertion-ordered dictionaries (locale
      \<open>py_dict\<close>) and binary64 arithmetic on rationals (locale \<open>rounding\<close>), shared by all theories.
    \<^item> \<open>Numerals\<close>: \<open>os.environ.get\<close> with \<open>int\<close> and \<open>float\<close> on decimal literals, for the settings that the
      sources read: token prices (\<open>Llm\<close>), model names, work directory, broker, default limits.
    \<^item> \<open>Graph_State\<close>, \<open>Reducers\<close>: \<open>graph/state\<close>. A node's partial dictionary is a \<open>state_update\<close>,
      \<open>apply_update\<close> merges it with the declared reducers (locale \<open>reducer\<close>).
    \<^item> \<open>Budget\<close>, \<open>Budget_Nodes\<close>: \<open>BudgetState\<close> and the two budget nodes; the clock is an argument.
    \<^item> \<open>Text_Utils\<close>, \<open>Adapters\<close>, \<open>Llm\<close>: \<open>core/text.py\<close>, the source, synthesis and test adapters with their
      registries, and the model clients with their prices and settings.
    \<^item> \<open>Comprehension\<close>, \<open>Synthesis\<close>, \<open>Editor\<close>, \<open>Error_Analysis\<close>, \<open>Approval\<close>, \<open>Aggregate\<close>: one graph node each,
      with its helpers and its prompt.
    \<^item> \<open>Diffs\<close>, \<open>Workspace\<close>, \<open>Docker_Runner\<close>, \<open>Sandbox_Node\<close>: which generated files count, how they
      reach the disk, what the Docker daemon is asked to do, and the node that combines them.
    \<^item> \<open>Vcs_Paths\<close>, \<open>Publish\<close>: publishable paths, the GitHub publisher call by call, the publishing node.
    \<^item> \<open>Routing\<close>, \<open>Pipeline\<close>: the routers, and the graph of \<open>graph/build.py\<close> as the relation \<open>step\<close> on runs
      (control point, state, files, log). Models, sandbox, publisher, clock and reviewer are free at
      every step. \<open>Pipeline_Tasks\<close> says what a step does to the tasks, \<open>Pipeline_Termination\<close> gives the
      measure, \<open>Pipeline_Safety\<close> the shipping invariant, \<open>Pipeline_Budget\<close> the accounting.
    \<^item> \<open>Driver\<close>, \<open>Production\<close>: the same graph executed with fixed collaborators, which refines \<open>step\<close>, and
      the default collaborators of \<open>build_graph\<close>: model clients, Docker sandbox, GitHub publisher.
    \<^item> \<open>Worker\<close>, \<open>Api\<close>, \<open>Decisions\<close>: repository preparation and the job, the HTTP routes, and the
      interleaving of approve and reject requests around the per-run lock.
    \<^item> \<open>Shapes\<close>, \<open>Observability\<close>: the values a checkpoint hands back, as models or as dictionaries, and the
      status over them; the log line of a node, the logger and the trace metadata.
    \<^item> \<open>Service\<close>: routes behind the key, queue, worker and checkpointed runs as one transition system
      \<open>system_step\<close>, and start-up.
    \<^item> \<open>Jobs\<close>: the payload of a job, from the submitter's dump to the worker's \<open>MigrationRequest\<close>, with its
      defaults. The jobs of \<open>system_step\<close> carry the request itself, which C37 justifies.
    \<^item> \<open>Example_Run\<close>, \<open>Examples\<close>: a complete concrete migration and small inputs, evaluated in the
      kernel, from which the witnesses are taken.

  What the groups of lemmas show. Publishing (C1 to C5): only what the last passing suite ran on, with the
  default collaborators only what pytest passed on without network, only after the required approval, in
  the whole service only after admitted requests, at most once. Termination (C6 to C10): no infinite run,
  the driver ends with finite fuel, dispatches and analyses are bounded by the retry limits. Budget (C11,
  C12, C40): every model call is charged once, no wave starts on an exhausted budget, exhaustion is final.
  Waves (C13, C14): dependencies come first and the merge order is irrelevant. Planning and comprehension
  (C15 to C19), editing and error analysis (C20, C21), workspace and paths (C22 to C25), publishing and
  approval (C26 to C29), the sandbox (C30 to C32), the API (C33 to C36, C39), jobs and their defaults (C37, C38).

  Interfaces are locales, interpreted on the model's own definitions: \<open>py_dict\<close> by association lists,
  \<open>rounding\<close> by \<open>fl\<close>, \<open>reducer\<close> by list append and the task merge, \<open>test_adapter\<close> by the pytest adapter,
  \<open>target_layout\<close> by the FastAPI layout, \<open>resumable\<close> by the approval gate with the publishing node.

  Fuel. Only \<open>drive\<close> takes fuel; C7 states that for every start some amount is enough. All other
  recursions terminate by structure or by a measure (\<open>next_free\<close>: the suffixes taken; \<open>step\<close>: remaining
  retries, then the rank of the node).

  Parameters, for code that is not under \<open>src/\<close>: the language model, the Docker daemon, the GitHub API,
  git, \<open>os.path.realpath\<close> on links, pydantic's validators and the clock. LangGraph's part is written
  into \<open>step\<close>, as the theory
  \<open>Pipeline\<close> says: reducers merge a node's update, a list of \<open>Send\<close>s starts parallel branches whose
  updates are merged in any order before the successor runs once, an interrupt pauses before the
  gate's update, an exception ends the run.

  Not modelled: how pydantic coerces values of other types (C37 and C38 rely only on values of the
  declared types passing unchanged, \<open>accepts_exact\<close>), JSON on the wire, FastAPI's own request handling,
  the binary encoding of
  checkpoints (\<open>Shapes\<close> covers the two forms in which values can come back), a run that is invoked a
  second time on an existing thread (a redelivered job raises before it gets there, theory \<open>Service\<close>),
  clock readings of the log lines, and the life of the ASGI server and the database pool. Regular
  expressions are taken on ASCII text.
\<close>

section \<open>What is published\<close>





text \<open>C3. When a repository is configured and approval has not been switched off, nothing reaches the publisher in any reachable run before a reviewer's decision whose \<open>approved\<close> entry is the boolean true.\<close>

theorem no_publication_without_approval:
  assumes "steps (start_run config budget rounds f) r" "publications (rn_log r) \<noteq> []"
    and "truthy (rc_github_target_repo config)" "rc_require_human_approval_before_pr config \<noteq> Some False"
  shows "\<exists>feedback. Ev_Decision (Decision_Dict (Some (J_Bool True)) feedback) \<in> set (rn_log r)"
proof -
  obtain q where "q \<in> set (publications (rn_log r))" using assms(2) by (cases "publications (rn_log r)") auto
  then have "human_approved (rn_log r)"
    using ship_inv_reachable [OF assms(1)] assms(3,4)
    by (auto simp: ship_inv_def publication_ok_def approval_needed_def)
  then show ?thesis by (auto simp: human_approved_def approved_iff)
qed

theorem no_publication_without_approval_witness:
  "\<exists>feedback. Ev_Decision (Decision_Dict (Some (J_Bool True)) feedback) \<in> set (rn_log example_end)"
proof (rule no_publication_without_approval [OF example_reach(3)])
  show "publications (rn_log example_end) \<noteq> []"
    using example_facts(3) by (auto simp: example_end_ok_def)
qed (simp_all add: example_config_def job_config_def example_migration_def truthy_def)



text \<open>C5. A run hands at most one request to the publisher, and while it has not ended it has handed none.\<close>

theorem at_most_one_publication:
  assumes "steps (start_run config budget rounds f) r"
  shows "length (publications (rn_log r)) \<le> (if ended (rn_control r) then 1 else 0)"
  using ship_inv_reachable [OF assms] by (auto simp: ship_inv_def ended_def over_def)

theorem at_most_one_publication_witness:
  "length (publications (rn_log example_end)) = 1 \<and> length (publications (rn_log example_waiting)) = 0"
  using at_most_one_publication [OF example_reach(2)] example_facts(2,3)
  by (simp add: example_end_ok_def example_waiting_ok_def ended_def)

section \<open>Runs end\<close>

text \<open>C6. No run of the graph goes on for ever, whatever the models, the sandbox, the publisher, the clock and the reviewer answer: the wave loop and the retry loop are bounded by the retry counters.\<close>

theorem every_run_ends:
  "\<nexists>\<rho>. \<rho> 0 = start_run config budget rounds f \<and> (\<forall>i. step (\<rho> i) (\<rho> (Suc i)))"
  using no_infinite_run by blast

text \<open>C7. The executable graph needs only finitely many moves: for all collaborators some fuel brings the run to its end, and more fuel leaves the final state as it is.\<close>

theorem enough_fuel:
  "\<exists>n. \<forall>k. ended (rn_control (drive (n + k) co i (start_run config budget rounds f))) \<and>
     drive (n + k) co i (start_run config budget rounds f) = drive n co i (start_run config budget rounds f)"
proof -
  obtain n where "\<forall>m \<ge> n. ended (rn_control (drive m co i (start_run config budget rounds f))) \<and>
      drive m co i (start_run config budget rounds f) = drive n co i (start_run config budget rounds f)"
    using drive_ends [OF well_formed_start] by blast
  then show ?thesis by (metis le_add1)
qed


text \<open>C9. Over a whole run no task is sent to an editor more often than its \<open>max_retries\<close> plus one, failures of the generation and of the test suite counted together.\<close>

theorem dispatches_bounded:
  assumes "steps (start_run config budget rounds f) r" "t \<in> set (gs_tasks (rn_state r))"
  shows "int (dispatched (mt_id t) (rn_log r)) \<le> mt_max_retries t + 1"
proof -
  have wf: "well_formed r" using assms(1) by (rule well_formed_reachable)
  have "well_formed r \<and> dispatch_ok r"
    using assms(1) by (rule steps_invariant)
      (auto intro: well_formed_start dispatch_ok_start well_formed_step dispatch_ok_step)
  then show ?thesis using quota_le [OF wf assms(2)] assms(2) unfolding dispatch_ok_def by fastforce
qed

theorem dispatches_bounded_witness:
  "\<exists>t. gs_tasks (rn_state example_waiting) = [t] \<and> int (dispatched (mt_id t) (rn_log example_waiting)) \<le> mt_max_retries t + 1"
proof -
  obtain t where "gs_tasks (rn_state example_waiting) = [t]"
    using example_facts(2) by (auto simp: example_waiting_ok_def length_Suc_conv)
  then show ?thesis using dispatches_bounded [OF example_reach(2), of t] by simp
qed

text \<open>C10. The error analysis runs at most once per allowed retry round: \<open>max_retry_rounds\<close> times, five times when that is zero or missing, and never more than once when it is negative.\<close>

theorem analyses_bounded:
  assumes "steps (start_run config budget rounds f) r"
  shows "int (analyses (rn_log r)) \<le> max 1 (round_cap rounds)"
  using rounds_reachable [OF assms] by (simp add: rounds_inv_def)

theorem analyses_bounded_witness: "int (analyses (rn_log example_waiting)) \<le> 5"
  using analyses_bounded [OF example_reach(2)] by (simp add: round_cap_def)

section \<open>The budget\<close>



text \<open>C12. A wave leaves a router only on a budget that is not exhausted, holds no more branches than there are ready tasks, and a wave of two or more branches fits into the remaining money at the largest call cost observed so far, up to the epsilon of the code.\<close>

theorem wave_within_budget:
  assumes "next_of n s now1 now2 = Inr (Fanout sends)" "gs_budget s = Some b" "budget_ok b"
  shows "\<not> is_exhausted b now1 \<and> length sends \<le> length (get_ready_tasks (gs_tasks s)) \<and>
    (1 < length sends \<longrightarrow> of_nat (length sends) * call_reserve b \<le> fadd (remaining_usd b) epsilon)"
  using fanout_budget [OF assms] by simp

theorem wave_within_budget_witness:
  "length two_sends = 2 \<and> 2 * call_reserve example_budget \<le> fadd (remaining_usd example_budget) epsilon"
proof -
  have len: "length two_sends = 2" using two_wave(2) by (metis length_map two_tasks_length)
  then show ?thesis
    using wave_within_budget [OF two_wave(1), of example_budget] by (simp add: two_tasks_def example_budget_ok)
qed

text \<open>C13. Every branch of a wave in a reachable run carries a task of the state that is pending or retrying and all of whose dependencies have succeeded, and no task is carried twice.\<close>

theorem dispatch_respects_dependencies:
  assumes "steps (start_run config budget rounds f) r" "rn_control r = Fanout sends"
  shows "distinct (map send_id sends) \<and> sends \<noteq> [] \<and>
    (\<forall>a. a \<in> set sends \<longrightarrow> (\<exists>t. gs_current_task a = Some t \<and> t \<in> set (gs_tasks (rn_state r)) \<and>
       mt_status t \<in> {St_PENDING, St_RETRYING} \<and>
       (\<forall>dep. dep \<in> set (mt_depends_on_task_ids t) \<longrightarrow>
          (\<exists>d. d \<in> set (gs_tasks (rn_state r)) \<and> mt_id d = dep \<and> mt_status d = St_SUCCEEDED))))"
  using fanout_ready [OF well_formed_reachable [OF assms(1)] assms(2)] by blast

theorem dispatch_respects_dependencies_witness:
  "\<exists>a t. rn_control example_wave = Fanout [a] \<and> gs_current_task a = Some t \<and> t \<in> set (gs_tasks (rn_state example_wave)) \<and>
     mt_status t \<in> {St_PENDING, St_RETRYING}"
proof -
  obtain a where a: "rn_control example_wave = Fanout [a]"
    using example_facts(1) by (auto simp: example_wave_ok_def length_Suc_conv split: control.splits)
  then show ?thesis using dispatch_respects_dependencies [OF example_reach(1) a] by auto
qed

text \<open>C14. The branches of a wave may finish in any order: for the same branch updates merged in two orders the task list is the same, and the collected results and costs are the same up to their order.\<close>

theorem wave_order_irrelevant:
  assumes "distinct (map mt_id (gs_tasks s))" "set ts \<subseteq> set (gs_tasks s)" "distinct (map mt_id ts)"
    and "map gs_current_task sends = map Some ts" "list_all2 branch sends us" "mset us' = mset us"
  shows "gs_tasks (merge_updates s us') = gs_tasks (merge_updates s us) \<and>
    mset (gs_editor_results (merge_updates s us')) = mset (gs_editor_results (merge_updates s us)) \<and>
    mset (gs_budget_deltas (merge_updates s us')) = mset (gs_budget_deltas (merge_updates s us))"
  using wave_order [OF assms] by blast

theorem wave_order_irrelevant_witness:
  "gs_tasks (merge_updates two_tasks (rev two_updates)) = gs_tasks (merge_updates two_tasks two_updates)"
  using wave_order_irrelevant [of two_tasks "gs_tasks two_tasks" two_sends two_updates "rev two_updates"] two_wave(2,3)
  by (simp add: two_tasks_distinct)

section \<open>Planning and comprehension\<close>



text \<open>C16. Between tasks of a plan for uniquely identified units, one depends on another exactly when they differ and a unit of the first depends on a unit of the second; every dependency is a task of the plan and no task depends on itself.\<close>

theorem plan_follows_dependencies:
  assumes "distinct (map su_id (cr_units c))" "run_synthesis c ''fastapi'' None = Inr tasks"
    and "t \<in> set tasks" "t' \<in> set tasks"
  shows "(mt_id t' \<in> set (mt_depends_on_task_ids t) \<longleftrightarrow> mt_id t' \<noteq> mt_id t \<and>
      (\<exists>u v. u \<in> set (cr_units c) \<and> v \<in> set (cr_units c) \<and> su_id u \<in> set (mt_source_unit_ids t) \<and>
         su_id v \<in> set (mt_source_unit_ids t') \<and> su_id v \<in> set (su_depends_on_unit_ids u))) \<and>
    set (mt_depends_on_task_ids t) \<subseteq> mt_id ` set tasks - {mt_id t}"
  using fastapi_layout.plan_dependencies [OF assms(1) assms(2) [unfolded run_synthesis_fastapi] assms(3,4)]
    fastapi_layout.plan_deps_known [OF assms(2) [unfolded run_synthesis_fastapi] assms(3)] by blast

theorem plan_follows_dependencies_witness:
  "\<exists>t t'. two_plan = [t, t'] \<and> mt_id t' \<in> set (mt_depends_on_task_ids t) \<and> mt_id t \<notin> set (mt_depends_on_task_ids t')"
proof -
  obtain t t' where p: "two_plan = [t, t']"
    using two_plan_facts(4) by (auto simp: map_eq_Cons_conv)
  note facts = two_plan_facts(3-5) [unfolded p list.map list.inject]
  have "mt_id t' \<in> set (mt_depends_on_task_ids t)" using facts by simp
  moreover have "mt_id t \<notin> set (mt_depends_on_task_ids t')"
    using plan_follows_dependencies [OF two_plan_facts(2,1), of t' t] facts
    by (simp add: p two_units_def unit_a_def unit_b_def)
  ultimately show ?thesis using p by blast
qed

text \<open>C17. A comprehension result has pairwise distinct, non-empty unit identifiers, and every dependency it records is another unit of the same result, for every adapter and whatever the model answers.\<close>

theorem comprehension_well_formed:
  assumes "run_comprehension tree extractor repo_root scope stack remaining adapter = Inr (r, cost, errs, calls)"
  shows "distinct (map su_id (cr_units r)) \<and> '''' \<notin> su_id ` set (cr_units r) \<and>
    (\<forall>u d. u \<in> set (cr_units r) \<longrightarrow> d \<in> set (su_depends_on_unit_ids u) \<longrightarrow> d \<noteq> su_id u \<and> d \<in> su_id ` set (cr_units r))"
  using units_distinct [OF assms] dependencies_resolved [OF assms] by blast

theorem comprehension_well_formed_witness:
  "\<exists>r :: comprehension_result. map su_id (cr_units r) = [''service::a'', ''service::a_2'', ''repository::b''] \<and> distinct (map su_id (cr_units r)) \<and>
     su_depends_on_unit_ids (hd (cr_units r)) = [''repository::b'']"
proof -
  obtain r cost errs calls where run: "two_files_run = Inr (r, cost, errs, calls)"
    "map su_id (cr_units r) = [''service::a'', ''service::a_2'', ''repository::b'']"
    "su_depends_on_unit_ids (hd (cr_units r)) = [''repository::b'']"
    using two_files_facts by (auto simp: two_files_ok_def split: sum.splits)
  from comprehension_well_formed [OF run(1) [unfolded two_files_run_def]] have "distinct (map su_id (cr_units r))" ..
  with run(2,3) show ?thesis by (intro exI [of _ r] conjI)
qed

text \<open>C18. No reference of an extracted unit is dropped: a name its payload refers to becomes a dependency on a unit of that name, up to case, or it is reported among the unresolved ambiguities.\<close>

theorem references_accounted_for:
  assumes "pu \<in> set (ls_pending st)" "ref \<in> set (referenced_names (ru_payload (pu_raw pu)))" "ref \<noteq> ''''"
  shows "\<exists>u. u \<in> set (cr_units (finish_comprehension stack repo_root st)) \<and> su_id u = pu_assigned_id pu \<and>
    (missing_reference (su_id u) ref \<in> set (cr_unresolved_ambiguities (finish_comprehension stack repo_root st)) \<or>
     (\<exists>pv. pv \<in> set (ls_pending st) \<and> py_lower (ru_name (pu_raw pv)) = py_lower ref \<and>
        pu_assigned_id pv \<noteq> su_id u \<and> pu_assigned_id pv \<in> set (su_depends_on_unit_ids u)))"
  using references_accounted [OF assms] by blast

theorem references_accounted_for_witness:
  "\<exists>u. u \<in> set (cr_units (finish_comprehension ''k'' ''/s'' (lone_pending raw_a))) \<and>
     missing_reference (su_id u) ''B'' \<in> set (cr_unresolved_ambiguities (finish_comprehension ''k'' ''/s'' (lone_pending raw_a)))"
  using references_accounted_for [of "hd (ls_pending (lone_pending raw_a))" "lone_pending raw_a" "''B''" "''k''" "''/s''"]
  by (auto simp: lone_pending_def raw_a_def unit_a_def referenced_names_def py_lower_def lower_char_def)

text \<open>C19. The comprehension asks the model about a file only while the cost accumulated so far is below the remaining budget.\<close>

theorem comprehension_stops_at_budget:
  assumes "run_comprehension tree extractor repo_root scope stack remaining adapter = Inr (r, cost, errs, calls)"
    and "(spent, prompt) \<in> set calls"
  shows "spent < remaining"
  using calls_within_budget [OF assms] .

theorem comprehension_stops_at_budget_witness:
  "\<exists>r cost errs. two_files_run = Inr (r, cost, errs, [(0, ''A.java''), (1, ''B.java'')]) \<and> (1::rat) < 8"
proof -
  obtain r cost errs where run: "two_files_run = Inr (r, cost, errs, [(0, ''A.java''), (1, ''B.java'')])"
    using two_files_facts by (auto simp: two_files_ok_def split: sum.splits)
  from comprehension_stops_at_budget [OF run [unfolded two_files_run_def], of 1 "''B.java''"] run show ?thesis by (intro exI [of _ r] exI [of _ cost] exI [of _ errs] conjI) simp_all
qed

section \<open>Editing and error analysis\<close>



text \<open>Apart from a missing task or budget, the one way a branch raises is a reply of the model without a parsed result; a model call that raises is caught.\<close>

theorem editor_raises_only:
  assumes "editor_node generator now1 now2 produced s = Inl e"
  shows "gs_current_task s = None \<or> gs_budget s = None \<or>
    (\<exists>task response. gs_current_task s = Some task \<and> generator (build_editor_prompt task) = Inr response \<and>
       lr_result response = None)"
  using editor_node_raises [OF assms] .

theorem editor_raises_only_witness:
  "\<exists>e. editor_node (\<lambda>p. Inr \<lparr>lr_result = None, lr_cost_usd = 1, lr_input_tokens = 1, lr_output_tokens = 1\<rparr>) 0 0 0
     (hd two_sends) = Inl e \<and> gs_current_task (hd two_sends) \<noteq> None"
proof -
  obtain e where e: "editor_node (\<lambda>p. Inr \<lparr>lr_result = None, lr_cost_usd = 1, lr_input_tokens = 1, lr_output_tokens = 1\<rparr>)
      0 0 0 (hd two_sends) = Inl e" "gs_current_task (hd two_sends) \<noteq> None" "gs_budget (hd two_sends) \<noteq> None"
    using unparsed_branch by blast
  from editor_raises_only [OF e(1)] e show ?thesis by blast
qed

text \<open>C21. The error analysis touches only tasks that had succeeded and have generated code, whatever identifiers the model names, and sends one back for a retry only within its own limit and before the last retry round; in the last round it ends at a human.\<close>

theorem analysis_judges_candidates:
  assumes "error_analysis_node analyzer now s = Inr u"
  shows "(\<forall>us t. up_tasks u = Some us \<longrightarrow> t \<in> set us \<longrightarrow>
      (\<exists>c. c \<in> set (candidate_tasks s) \<and> mt_id t = mt_id c \<and>
        (mt_status t = St_NEEDS_HUMAN \<or> mt_status t = St_RETRYING \<and> mt_retry_count t = mt_retry_count c + 1 \<and>
           mt_retry_count t \<le> mt_max_retries t \<and> gs_retry_round s + 1 < max_rounds s))) \<and>
    (max_rounds s \<le> gs_retry_round s + 1 \<longrightarrow> up_phase u = Some Ph_NEEDS_HUMAN)"
proof -
  have "\<exists>c. c \<in> set (candidate_tasks s) \<and> mt_id t = mt_id c \<and>
        (mt_status t = St_NEEDS_HUMAN \<or> mt_status t = St_RETRYING \<and> mt_retry_count t = mt_retry_count c + 1 \<and>
           mt_retry_count t \<le> mt_max_retries t \<and> gs_retry_round s + 1 < max_rounds s)"
    if "up_tasks u = Some us" "t \<in> set us" for us t
    by (rule error_analysis_tasks [OF assms that]) blast
  then show ?thesis using last_round_no_retry [OF assms] by blast
qed

theorem analysis_judges_candidates_witness:
  "\<exists>u t. error_analysis_node blame_all 0 (tested_state 0) = Inr u \<and> up_tasks u = Some [t] \<and> mt_status t = St_RETRYING \<and>
     mt_retry_count t \<le> mt_max_retries t"
proof -
  obtain u t where u: "error_analysis_node blame_all 0 (tested_state 0) = Inr u" "up_tasks u = Some [t]"
    "mt_status t = St_RETRYING"
    using blamed by blast
  then show ?thesis using analysis_judges_candidates [OF u(1)] by fastforce
qed

section \<open>Workspace and paths\<close>



text \<open>C23. One unsafe path in a batch makes the whole batch fail with no file written or changed, the safe ones before it included.\<close>

theorem refused_diff_writes_nothing:
  assumes "d \<in> set ds" "resolve_safe_path realpath ws (fd_path d) = Inl e"
  shows "(\<forall>q. file_at (fst (apply_diffs realpath ws ds f)) q = file_at f q) \<and>
    (\<exists>e'. snd (apply_diffs realpath ws ds f) = Inl e')"
  using apply_diffs_all_or_nothing [OF assms] by blast

theorem refused_diff_writes_nothing_witness:
  "(\<forall>q. file_at (fst (apply_diffs plain_realpath ''/t'' (example_files @ [escaping_diff]) [(''/t'', Dir)])) q = None) \<and>
     (\<exists>e. snd (apply_diffs plain_realpath ''/t'' (example_files @ [escaping_diff]) [(''/t'', Dir)]) = Inl e)"
proof -
  obtain e where "resolve_safe_path plain_realpath ''/t'' (fd_path escaping_diff) = Inl e"
    using escaping_refused by (auto simp: isl_def)
  from refused_diff_writes_nothing [OF _ this, of "example_files @ [escaping_diff]" "[(''/t'', Dir)]"]
  show ?thesis by (simp add: file_at_def)
qed

text \<open>C24. Preparing the workspace changes no file outside the resolved workspace root, whatever paths the model produced and however links resolve.\<close>

theorem workspace_confined:
  assumes "\<not> inside (realpath ws) q"
  shows "file_at (fst (prepare_workspace realpath ws rs ts f)) q = file_at f q"
  using assms by (rule prepare_outside)

theorem workspace_confined_witness:
  "file_at (fst (prepare_workspace plain_realpath ''/t'' two_attempts done_a old_files)) ''/tmp/x'' = file_at old_files ''/tmp/x''"
  by (rule workspace_confined) code_simp



section \<open>Publishing\<close>

text \<open>C26. A request with one unpublishable path makes the publisher raise before its first call to the API.\<close>

theorem unpublishable_stops_api:
  assumes "f \<in> set (pq_files q)" "publishable_path_problem (fd_path f) \<noteq> None"
  shows "snd (github_publish token api q) = [] \<and> (\<exists>m. fst (github_publish token api q) = Inl (UnpublishablePathError m))"
  using github_publish_unsafe [OF assms] by blast

theorem unpublishable_stops_api_witness:
  "snd (github_publish (Some ''t'') good_api (example_request [escaping_diff])) = []"
  using unpublishable_stops_api [of escaping_diff "example_request [escaping_diff]"] example_paths(3)
  by (simp add: example_request_def)



text \<open>C28. The aggregation drafts a pull request exactly when there are effective files and all their paths are publishable, and then lists each of them in the draft's body; otherwise the run fails with an entry in the error log.\<close>

theorem draft_iff_shippable:
  assumes "aggregate_node s = Inr u"
  shows "(up_pr_draft u \<noteq> None \<longleftrightarrow> effective_of s \<noteq> [] \<and>
      (\<forall>d. d \<in> set (effective_of s) \<longrightarrow> publishable_path_problem (fd_path d) = None)) \<and>
    (up_pr_draft u = None \<longrightarrow> up_phase u = Some Ph_FAILED \<and> up_error_log u \<noteq> None) \<and>
    (\<forall>draft d. up_pr_draft u = Some draft \<longrightarrow> d \<in> set (effective_of s) \<longrightarrow>
      sublist (''- `'' @ fd_path d @ ''`'') (pd_body draft))"
  using aggregate_draft [OF assms] draft_body_lists by (auto simp: shippable_def)

theorem draft_iff_shippable_witness:
  "\<exists>u draft. aggregate_node (shipping_state example_files) = Inr u \<and> up_pr_draft u = Some draft \<and>
     sublist (''- `'' @ ''app/services/a.py'' @ ''`'') (pd_body draft)"
proof -
  obtain u where u: "aggregate_node (shipping_state example_files) = Inr u"
    using shipping_facts by (auto split: sum.splits)
  have "effective_of (shipping_state example_files) = example_files" by (rule shipping_effective)
  then show ?thesis
    using draft_iff_shippable [OF u] example_paths(1) u by (auto simp: example_files_def)
qed

text \<open>C29. The gate records an approval exactly for a dictionary whose \<open>approved\<close> entry is the boolean true; any other resume value, a truthy string or number included, rejects the pull request.\<close>

theorem gate_fails_closed:
  assumes "approval_gate_node d s = Inr u"
  shows "(up_approval_status u = Some ''approved'' \<longleftrightarrow> (\<exists>feedback. d = Decision_Dict (Some (J_Bool True)) feedback)) \<and>
    (up_approval_status u \<noteq> Some ''approved'' \<longrightarrow> up_approval_status u = Some ''rejected'' \<and> up_phase u = Some Ph_REJECTED)"
  using approval_gate_outcome [OF assms] by (auto simp: approved_iff)

theorem gate_fails_closed_witness:
  "\<exists>u. approval_gate_node (Decision_Dict (Some (J_String ''yes'')) None) (rn_state example_waiting) = Inr u \<and>
     up_approval_status u = Some ''rejected''"
proof -
  obtain u where u: "approval_gate_node (Decision_Dict (Some (J_String ''yes'')) None) (rn_state example_waiting) = Inr u"
    using example_facts(2) gate_total [of "rn_state example_waiting"] by (auto simp: example_waiting_ok_def)
  from gate_fails_closed [OF u] u show ?thesis by auto
qed

section \<open>The sandbox\<close>

text \<open>C30. Every container the runner starts is unprivileged: fixed non-root user, all capabilities dropped, no new privileges, read-only root file system, the workspace as its only bind mount; and the only one with network access runs the adapter's install command.\<close>

theorem containers_hardened:
  assumes "Docker_Run k \<in> set (snd (docker_run realpath limits ws a tid y_install y_test))"
  shows "ck_user k = ''1000:1000'' \<and> ck_cap_drop k = [''ALL''] \<and> ck_security_opt k = [''no-new-privileges''] \<and>
    ck_read_only k \<and> ck_volumes k = [(realpath ws, ''/workspace'', ''rw'')] \<and>
    (\<not> ck_network_disabled k \<longrightarrow> ck_command k = ta_install_command a) \<and>
    ck_mem_limit k = sl_memory_limit limits \<and> ck_pids_limit k = sl_pids_limit limits"
  using docker_run_containers [OF assms] by (auto simp: build_container_kwargs_def)

theorem containers_hardened_witness:
  "\<exists>k. Docker_Run k \<in> set (snd (docker_run plain_realpath default_limits ''/t'' fastapi_test_adapter None good_container good_container)) \<and>
     \<not> ck_network_disabled k \<and> ck_command k = [''pip'', ''install'', ''--no-cache-dir'', ''-r'', ''requirements.txt'']"
proof -
  let ?k = "install_container plain_realpath default_limits ''/t'' fastapi_test_adapter"
  have "Docker_Run ?k \<in> set (snd (docker_run plain_realpath default_limits ''/t'' fastapi_test_adapter None good_container good_container))"
    by (rule good_containers(2))
  then show ?thesis
    using containers_hardened [of ?k plain_realpath default_limits "''/t''" fastapi_test_adapter None good_container good_container]
    by (auto simp: fastapi_test_adapter_def)
qed

text \<open>C31. The sandbox reports a pass only after the install container exited with 0 and then a container without network ran the test command and exited with 0; both containers were removed.\<close>

theorem passed_means_offline_tests:
  assumes "docker_run realpath limits ws fastapi_test_adapter tid y_install y_test = (Inr r, ev)"
    and "tr_outcome (sr_test_result r) = Out_PASSED"
  shows "cy_wait y_install = Inr (Some 0) \<and> cy_wait y_test = Inr (Some 0) \<and>
    (\<exists>k. Docker_Run k \<in> set ev \<and> ck_network_disabled k \<and> ck_command k = [''pytest'', ''-q'', ''--tb=short'']) \<and>
    count_list ev Docker_Remove = 2"
  using passed_offline [OF assms] by (auto simp: fastapi_test_adapter_def)

theorem passed_means_offline_tests_witness:
  "\<exists>r ev. docker_run plain_realpath default_limits ''/t'' fastapi_test_adapter None good_container good_container = (Inr r, ev) \<and>
     count_list ev Docker_Remove = 2"
proof -
  obtain r ev where g: "docker_run plain_realpath default_limits ''/t'' fastapi_test_adapter None good_container good_container = (Inr r, ev)"
    "tr_outcome (sr_test_result r) = Out_PASSED"
    using good_containers(1) by blast
  from passed_means_offline_tests [OF g] g(1) show ?thesis by blast
qed


text \<open>The pytest adapter reports a pass exactly for exit code 0, whatever the output says, and never claims that the tests did not run or timed out.\<close>

theorem exit_code_decides:
  "(fst (parse_test_output out code) = Out_PASSED \<longleftrightarrow> code = 0) \<and>
   fst (parse_test_output out code) \<noteq> Out_NOT_RUN \<and> fst (parse_test_output out code) \<noteq> Out_TIMEOUT \<and>
   snd (parse_test_output out 0) = []"
  using fastapi_tests.passed_iff fastapi_tests.passed_no_failures fastapi_tests.always_ran by blast

section \<open>The API\<close>

text \<open>C33. Concurrent approve and reject requests for one run behave as if they were executed one at a time: at every moment the answers given so far and the stored run are those of some serial order of the answered requests, each executing the whole body of the lock.\<close>

theorem decisions_linearizable:
  assumes "(serve (resume_run publisher) run_id reqs)\<^sup>*\<^sup>* (serve_start n store) s"
  shows "\<exists>order. distinct order \<and> set order = answered s \<and>
    sv_store s = snd (serial (resume_run publisher) run_id reqs order store) \<and>
    (\<forall>i out. (i, out) \<in> set (fst (serial (resume_run publisher) run_id reqs order store)) \<longrightarrow> sv_points s ! i = Answered out)"
  using serve_linearizable [OF assms] by (fastforce simp: explained_def)

theorem decisions_linearizable_witness:
  "\<exists>(s :: server) order. (\<forall>p \<in> set (sv_points s). \<exists>a. p = Answered a) \<and> set order = {0, 1} \<and>
     sv_store s = snd (serial (resume_run example_publisher) ''run-1'' example_requests order example_store)"
proof -
  obtain s where s: "(serve (resume_run example_publisher) ''run-1'' example_requests)\<^sup>*\<^sup>* (serve_start 2 example_store) s"
    "\<forall>p \<in> set (sv_points s). \<exists>a. p = Answered a" "answered s = {0, 1}"
    using example_served by blast
  from decisions_linearizable [OF s(1)] obtain order where "set order = answered s"
    "sv_store s = snd (serial (resume_run example_publisher) ''run-1'' example_requests order example_store)" by blast
  with s(2,3) show ?thesis by (intro exI [of _ s] exI [of _ order] conjI) simp_all
qed

text \<open>C34. Of all the decisions sent for a run that is waiting for approval, at most one is carried out; every other answered one is a 409 conflict, so a double click cannot publish twice.\<close>

theorem one_decision_counts:
  assumes "(serve (resume_run publisher) run_id reqs)\<^sup>*\<^sup>* (serve_start n store) s"
    and "map_of store run_id = Some r" "rn_control r = Waiting_Approval"
    and "i < length (sv_points s)" "sv_points s ! i = Answered a" "\<nexists>m. a = Inl (409, m)"
    and "j < length (sv_points s)" "sv_points s ! j = Answered b" "j \<noteq> i"
  shows "\<exists>m. b = Inl (409, m)"
  using resumed.serve_once [OF assms(1-5) _ assms(7,8)] assms(6,9) unfolding conflict_def by blast

theorem one_decision_counts_witness:
  "\<exists>s m. (serve (resume_run example_publisher) ''run-1'' example_requests)\<^sup>*\<^sup>* (serve_start 2 example_store) s \<and>
     sv_points s ! 1 = Answered (Inl (409, m))"
proof -
  obtain s a b where s: "(serve (resume_run example_publisher) ''run-1'' example_requests)\<^sup>*\<^sup>* (serve_start 2 example_store) s"
    "length (sv_points s) = 2" "sv_points s ! 0 = Answered a" "\<nexists>m. a = Inl (409, m)" "sv_points s ! 1 = Answered b"
    using example_first_wins by blast
  have "\<exists>m. b = Inl (409, m)"
    by (rule one_decision_counts [OF s(1) example_stored, of 0 a 1]) (use s(2-5) in auto)
  then show ?thesis using s(1,5) by blast
qed

text \<open>C35. The lock cannot be stuck: from every state that the requests can reach, all of them can be answered, and each move of the server brings a request closer to its answer.\<close>

theorem every_request_answered:
  assumes "(serve (resume_run publisher) run_id reqs)\<^sup>*\<^sup>* (serve_start n store) s"
  shows "(\<exists>s'. (serve (resume_run publisher) run_id reqs)\<^sup>*\<^sup>* s s' \<and> answered s' = {..<length (sv_points s')}) \<and>
    (\<forall>s'. serve (resume_run publisher) run_id reqs s s' \<longrightarrow>
       sum_list (map point_rank (sv_points s')) < sum_list (map point_rank (sv_points s)))"
proof -
  have "locked run_id s" "held s" using serve_linearizable [OF assms] by blast+
  from serve_ends [OF this] obtain s' where "(serve (resume_run publisher) run_id reqs)\<^sup>*\<^sup>* s s'"
    "\<forall>p \<in> set (sv_points s'). \<exists>a. p = Answered a" by blast
  then have "(serve (resume_run publisher) run_id reqs)\<^sup>*\<^sup>* s s' \<and> answered s' = {..<length (sv_points s')}"
    by (auto simp: answered_def)
  then show ?thesis using serve_decreases by blast
qed

theorem every_request_answered_witness:
  "\<exists>s'. (serve (resume_run example_publisher) ''run-1'' example_requests)\<^sup>*\<^sup>* (serve_start 2 example_store) s' \<and>
     answered s' = {..<length (sv_points s')}"
  using every_request_answered [OF rtranclp.rtrancl_refl, of example_publisher "''run-1''" example_requests 2 example_store] by blast

text \<open>One decision after the other on a waiting run with its draft: the first gets a response, the second a 409, and the second changes nothing in the store.\<close>

theorem second_decision_conflicts:
  assumes "map_of store run_id = Some r" "rn_control r = Waiting_Approval"
    and "gs_config (rn_state r) = Some config" "gs_pr_draft (rn_state r) = Some draft"
    and "decide (resume_run publisher) run_id a1 f1 store = (out1, store1)"
    and "decide (resume_run publisher) run_id a2 f2 store1 = (out2, store2)"
  shows "(\<exists>resp. out1 = Inr resp) \<and> (\<exists>msg. out2 = Inl (409, msg)) \<and> store2 = store1"
  using resumed.decide_twice [OF assms] by blast

theorem second_decision_conflicts_witness:
  "\<exists>out1 store1 resp msg. decide (resume_run example_publisher) ''run-1'' True None example_store = (out1, store1) \<and>
     out1 = Inr resp \<and> decide (resume_run example_publisher) ''run-1'' False None store1 = (Inl (409, msg), store1)"
proof -
  obtain out1 store1 where d1: "decide (resume_run example_publisher) ''run-1'' True None example_store = (out1, store1)" by fastforce
  obtain out2 store2 where d2: "decide (resume_run example_publisher) ''run-1'' False None store1 = (out2, store2)" by fastforce
  obtain config draft where "gs_config (rn_state example_waiting) = Some config" "gs_pr_draft (rn_state example_waiting) = Some draft"
    using example_facts(2) by (auto simp: example_waiting_ok_def)
  from second_decision_conflicts [OF example_stored this d1 d2] d1 d2 show ?thesis by auto
qed






text \<open>C39. The status response is the same whether the checkpointer hands the state back as models with enum members or as plain dictionaries with plain values, and is the one the typed reading gives.\<close>

theorem status_shape_independent:
  assumes "faithful sh"
  shows "status_response run_id (state_values sh s) awaiting =
    response_values (state_to_status_response run_id s awaiting)"
  using assms by (rule status_any_shape)

theorem status_shape_independent_witness:
  "status_response ''run-1'' (state_values dumped (rn_state example_waiting)) True =
     response_values (state_to_status_response ''run-1'' (rn_state example_waiting) True)"
  by (rule status_shape_independent [OF dumped_faithful])

section \<open>Budget arithmetic, run directories and text\<close>

text \<open>C40. A well-formed budget that is exhausted stays exhausted: recording further calls of non-negative cost and the passing of time never reopen it, float rounding included.\<close>

theorem exhaustion_is_final:
  assumes "budget_ok b" "0 \<le> c" "0 \<le> n" "now \<le> now'" "is_exhausted b now"
  shows "is_exhausted (record_call b c n t) now' \<and> budget_ok (record_call b c n t)"
  using record_call_keeps_exhausted [OF assms] budget_ok_record_call [OF assms(1,2)] by blast

theorem exhaustion_is_final_witness:
  "is_exhausted (record_call (record_call example_budget 8 1 True) 1 1 True) 0"
  using exhaustion_is_final [of "record_call example_budget 8 1 True" 1 1 0 0 True] spent_out
  by simp

text \<open>The checkouts of different runs, and the source and target checkout of one run, never lie inside one another.\<close>

theorem run_directories_disjoint:
  assumes "path_component i" "path_component j" "path_component s" "path_component t" "(i, s) \<noteq> (j, t)"
  shows "\<not> inside (run_dir base i s) (run_dir base j t)"
  using assms by (rule run_dirs_apart)

theorem run_directories_disjoint_witness:
  "\<not> inside (run_dir ''/tmp'' ''run-1'' ''target'') (run_dir ''/tmp'' ''run-12'' ''target'')"
  by (rule run_directories_disjoint) (simp_all add: path_component_def)

text \<open>The token scanner finds exactly the maximal word runs that look like a type name, in order; slugs are canonical: lower-case alphanumeric words joined by single underscores, on which a second application changes nothing.\<close>

theorem text_matches_reference:
  "find_capitalized_tokens text = filter is_type_name (word_runs text) \<and>
   is_slug (slugify name) \<and> slugify (slugify name) = slugify name"
  by (simp add: find_capitalized_tokens_def findall_capitalized_runs slugify_is_slug slugify_idem)

end
